(* ===== verification/Prelude.thy ===== *)
theory Prelude
  imports Main "HOL-Library.AList" "HOL-Library.Multiset" "HOL-Library.Word"
begin

text \<open>
  Shared vocabulary of the development: the errors of the package (\<^verbatim>\<open>provider.go\<close>), Go
  values used everywhere (byte strings, maps with their iteration order, instants and durations)
  and the generic lemmas the component theories rely on.

  A Go \<^verbatim>\<open>string\<close> is a HOL \<open>string\<close>: a list of 8-bit characters, so \<open>length\<close> is Go's \<open>len\<close>.
  A Go map is an association list, read with \<open>map_of\<close> and written with \<open>AList.update\<close> and
  \<open>AList.delete\<close>. Go leaves the order of a \<^verbatim>\<open>range\<close> over a map unspecified; the model takes
  it from the environment (\<open>rangeOrder\<close>), so a statement for every environment is a statement
  for every order.
\<close>

section \<open>Collections of facts\<close>

named_theorems go_simps \<open>unfolding of the small helper operations\<close>
named_theorems inv_intros \<open>preservation of the well-formedness invariants\<close>

section \<open>Errors\<close>

text \<open>
  One constructor for every sentinel error of \<^verbatim>\<open>provider.go\<close>. The code wraps sentinels with
  \<^verbatim>\<open>%w\<close>; the model keeps the sentinel that \<^verbatim>\<open>errors.Is\<close> would find and drops the formatted
  text around it. An error that wraps no sentinel is \<open>ErrMsg\<close> with the constant part of its
  message; \<open>ErrContext\<close> is the error of a finished \<^verbatim>\<open>context.Context\<close>, \<open>ErrExternal\<close> an error
  that code outside the repository returned (a custom strategy, a storage driver), and
  \<open>ErrNilPanic\<close> and \<open>ErrSlicePanic\<close> the run-time panics of a method call on a nil interface and
  of a slice expression out of range.
\<close>

datatype err =
    ErrAlreadyExists
  | ErrConflict
  | ErrNotFound
  | ErrTenantRequired
  | ErrTenantMismatch
  | ErrContextLimit
  | ErrDependencyCycle
  | ErrBatchLimit
  | ErrGroupCycle
  | ErrGroupInUse
  | ErrInvalidValue
  | ErrImportLimit
  | ErrStateLimit
  | ErrUnsupportedStrategy
  | ErrImportConflict
  | ErrStorageConflict
  | ErrMsg string
  | ErrContext string
  | ErrExternal string
  | ErrNilPanic
  | ErrSlicePanic

type_synonym 'a res = "err + 'a"

section \<open>Results and loops that stop at the first error\<close>

text \<open>
  A Go function that returns \<^verbatim>\<open>error\<close> is a function into \<open>err option\<close> (\<open>None\<close> is nil), one that
  returns a value and an error a function into \<open>'a res\<close>.
\<close>

definition rbind :: "'e + 'a \<Rightarrow> ('a \<Rightarrow> 'e + 'b) \<Rightarrow> 'e + 'b" where
  "rbind r f = (case r of Inl e \<Rightarrow> Inl e | Inr x \<Rightarrow> f x)"

lemma rbind_simps [simp]:
  "rbind (Inl e) f = Inl e"
  "rbind (Inr x) f = f x"
  by (simp_all add: rbind_def)

lemma rbind_eq_Inr: "rbind r f = Inr y \<longleftrightarrow> (\<exists>x. r = Inr x \<and> f x = Inr y)"
  by (cases r) auto

lemma rbind_eq_Inl: "rbind r f = Inl e \<longleftrightarrow> r = Inl e \<or> (\<exists>x. r = Inr x \<and> f x = Inl e)"
  by (cases r) auto

lemma rbind_cong [fundef_cong]:
  "r = r' \<Longrightarrow> (\<And>x. r' = Inr x \<Longrightarrow> f x = f' x) \<Longrightarrow> rbind r f = rbind r' f'"
  by (cases r') auto

definition orElseErr :: "err option \<Rightarrow> err option \<Rightarrow> err option" where
  "orElseErr a b = (case a of None \<Rightarrow> b | Some e \<Rightarrow> Some e)"

lemma orElseErr_simps [simp]:
  "orElseErr None b = b"
  "orElseErr (Some e) b = Some e"
  by (simp_all add: orElseErr_def)

lemma orElseErr_None [simp]: "orElseErr a b = None \<longleftrightarrow> a = None \<and> b = None"
  by (cases a) auto

fun firstErr :: "('a \<Rightarrow> err option) \<Rightarrow> 'a list \<Rightarrow> err option" where
  "firstErr f [] = None"
| "firstErr f (x # xs) = (case f x of None \<Rightarrow> firstErr f xs | Some e \<Rightarrow> Some e)"

lemma firstErr_None_iff: "firstErr f xs = None \<longleftrightarrow> (\<forall>x\<in>set xs. f x = None)"
  by (induction xs) (auto split: option.splits)

lemma firstErr_SomeD: "firstErr f xs = Some e \<Longrightarrow> \<exists>x\<in>set xs. f x = Some e"
  by (induction xs) (auto split: option.splits)

lemma firstErr_cong [fundef_cong]:
  "xs = ys \<Longrightarrow> (\<And>x. x \<in> set ys \<Longrightarrow> f x = g x) \<Longrightarrow> firstErr f xs = firstErr g ys"
  by (induction xs arbitrary: ys) (auto split: option.splits)

text \<open>A sequence of guards, each an early return of an error.\<close>

definition check :: "bool \<Rightarrow> string \<Rightarrow> err option" where
  "check b message = (if b then Some (ErrMsg message) else None)"

definition seqErr :: "err option list \<Rightarrow> err option" where
  "seqErr = firstErr (\<lambda>x. x)"

lemma check_None [simp]: "check b m = None \<longleftrightarrow> \<not> b"
  by (simp add: check_def)

lemma check_Some [simp]: "check b m = Some e \<longleftrightarrow> b \<and> e = ErrMsg m"
  by (auto simp: check_def)

lemma seqErr_None_iff: "seqErr cs = None \<longleftrightarrow> (\<forall>c\<in>set cs. c = None)"
  by (simp add: seqErr_def firstErr_None_iff)

lemma seqErr_SomeD: "seqErr cs = Some e \<Longrightarrow> Some e \<in> set cs"
  by (auto simp: seqErr_def dest: firstErr_SomeD)

text \<open>\<^verbatim>\<open>if err != nil { return err }\<close> followed by the rest of a function.\<close>

definition guardErr :: "err option \<Rightarrow> 'a res \<Rightarrow> 'a res" where
  "guardErr c r = (case c of Some e \<Rightarrow> Inl e | None \<Rightarrow> r)"

lemma guardErr_simps [simp]:
  "guardErr None r = r"
  "guardErr (Some e) r = Inl e"
  by (simp_all add: guardErr_def)

lemma guardErr_Inr: "guardErr c r = Inr x \<longleftrightarrow> c = None \<and> r = Inr x"
  by (cases c) auto

lemma guardErr_Inl: "guardErr c r = Inl e \<longleftrightarrow> c = Some e \<or> c = None \<and> r = Inl e"
  by (cases c) auto

fun mapRes :: "('a \<Rightarrow> 'e + 'b) \<Rightarrow> 'a list \<Rightarrow> 'e + 'b list" where
  "mapRes f [] = Inr []"
| "mapRes f (x # xs) = rbind (f x) (\<lambda>y. rbind (mapRes f xs) (\<lambda>ys. Inr (y # ys)))"

lemma mapRes_Inr_iff:
  "mapRes f xs = Inr ys \<longleftrightarrow> list_all2 (\<lambda>x y. f x = Inr y) xs ys"
  by (induction xs arbitrary: ys) (auto simp: rbind_eq_Inr list_all2_Cons1)

lemma mapRes_map_Inr: "(\<And>x. x \<in> set xs \<Longrightarrow> f x = Inr (g x)) \<Longrightarrow> mapRes f xs = Inr (map g xs)"
  by (induction xs) auto

lemma mapRes_InlD: "mapRes f xs = Inl e \<Longrightarrow> \<exists>x\<in>set xs. f x = Inl e"
  by (induction xs) (auto simp: rbind_eq_Inl)

text \<open>A loop that returns the first match; an error ends it.\<close>

fun firstMatch :: "('a \<Rightarrow> 'b option res) \<Rightarrow> 'a list \<Rightarrow> 'b option res" where
  "firstMatch f [] = Inr None"
| "firstMatch f (x # xs) =
     rbind (f x) (\<lambda>r. case r of Some y \<Rightarrow> Inr (Some y) | None \<Rightarrow> firstMatch f xs)"

lemma firstMatch_SomeD: "firstMatch f xs = Inr (Some y) \<Longrightarrow> \<exists>x\<in>set xs. f x = Inr (Some y)"
  by (induction xs) (auto simp: rbind_eq_Inr split: option.splits)

lemma firstMatch_InlD: "firstMatch f xs = Inl e \<Longrightarrow> \<exists>x\<in>set xs. f x = Inl e"
  by (induction xs) (auto simp: rbind_eq_Inl split: option.splits)

lemma firstMatch_None_iff: "firstMatch f xs = Inr None \<longleftrightarrow> (\<forall>x\<in>set xs. f x = Inr None)"
  by (induction xs) (auto simp: rbind_eq_Inr split: option.splits)

lemma firstMatch_skip:
  "(\<And>u. u \<in> set us \<Longrightarrow> f u = Inr None) \<Longrightarrow> firstMatch f (us @ xs) = firstMatch f xs"
  by (induction us) auto

lemma firstMatch_split:
  assumes "firstMatch f xs = Inr (Some y)"
  obtains us x vs where "xs = us @ x # vs" "\<forall>u\<in>set us. f u = Inr None" "f x = Inr (Some y)"
  using assms
proof (induction xs arbitrary: thesis)
  case (Cons a xs)
  show ?case
  proof (cases "f a = Inr None")
    case True
    then obtain us x vs where "xs = us @ x # vs" "\<forall>u\<in>set us. f u = Inr None" "f x = Inr (Some y)"
      using Cons.IH Cons.prems(2) by auto
    then show ?thesis
      using Cons.prems(1) [of "a # us"] True by simp
  next
    case False
    then have "f a = Inr (Some y)"
      using Cons.prems(2) by (auto simp: rbind_eq_Inr split: option.splits)
    then show ?thesis
      using Cons.prems(1) [of "[]"] by simp
  qed
qed simp

section \<open>Go maps\<close>

type_synonym 'a gomap = "(string \<times> 'a) list"

definition hasKey :: "('k \<times> 'v) list \<Rightarrow> 'k \<Rightarrow> bool" where
  "hasKey m k = (map_of m k \<noteq> None)"

lemma hasKey_iff: "hasKey m k \<longleftrightarrow> k \<in> fst ` set m"
  by (simp add: hasKey_def map_of_eq_None_iff)

abbreviation distinctKeys :: "('k \<times> 'v) list \<Rightarrow> bool" where
  "distinctKeys m \<equiv> distinct (map fst m)"

lemma distinctKeys_update [simp]: "distinctKeys m \<Longrightarrow> distinctKeys (AList.update k v m)"
  by (rule distinct_update)

lemma distinctKeys_delete [simp]: "distinctKeys m \<Longrightarrow> distinctKeys (AList.delete k m)"
  by (rule distinct_delete)

lemma map_of_AList_update [simp]: "map_of (AList.update k v m) = (map_of m)(k \<mapsto> v)"
  by (rule update_conv')

lemma map_of_AList_delete [simp]: "map_of (AList.delete k m) = (map_of m)(k := None)"
  by (rule delete_conv')

lemma set_update_new: "k \<notin> fst ` set m \<Longrightarrow> AList.update k v m = m @ [(k, v)]"
  by (induction m) auto

lemma length_update_new: "k \<notin> fst ` set m \<Longrightarrow> length (AList.update k v m) = Suc (length m)"
  by (simp add: set_update_new)

lemma length_update_old: "k \<in> fst ` set m \<Longrightarrow> length (AList.update k v m) = length m"
  by (induction m) auto

lemma fst_set_update [simp]: "fst ` set (AList.update k v m) = insert k (fst ` set m)"
  by (induction m) auto

lemma set_distinctKeys: "distinctKeys m \<Longrightarrow> set m = {(k, v). map_of m k = Some v}"
  by auto

lemma set_update_distinct:
  "distinctKeys m \<Longrightarrow> set (AList.update k v m) = insert (k, v) {kv \<in> set m. fst kv \<noteq> k}"
  using set_distinctKeys [of "AList.update k v m"] by (auto split: if_splits)

lemma set_delete_distinct:
  "distinctKeys m \<Longrightarrow> set (AList.delete k m) = {kv \<in> set m. fst kv \<noteq> k}"
  by (auto simp: AList.delete_eq)

lemma map_of_eqI_set: "distinctKeys m \<Longrightarrow> distinctKeys m' \<Longrightarrow> set m = set m' \<Longrightarrow> map_of m = map_of m'"
  by (rule map_of_inject_set [THEN iffD2])

lemma map_of_filter_snd:
  assumes "distinctKeys m"
  shows "map_of (filter (\<lambda>(k, v). P v) m) k =
    (case map_of m k of None \<Rightarrow> None | Some v \<Rightarrow> if P v then Some v else None)"
  using assms
proof (induction m)
  case (Cons a m)
  then show ?case
    by (cases a) (auto simp: map_of_eq_None_iff split: option.splits)
qed simp

lemma map_of_mset_eq:
  assumes "mset m = mset m'" "distinctKeys m"
  shows "map_of m = map_of m'"
proof -
  have "distinctKeys m'"
    using assms by (metis mset_eq_imp_distinct_iff mset_map)
  moreover have "set m = set m'"
    using assms(1) by (rule mset_eq_setD)
  ultimately show ?thesis
    using assms(2) by (intro map_of_inject_set [THEN iffD2]) auto
qed

text \<open>
  A map of maps, one entry for every tenant. Reading the entry of an unknown tenant gives the nil map,
  which reads as empty.
\<close>

definition inner :: "'a list gomap \<Rightarrow> string \<Rightarrow> 'a list" where
  "inner m t = (case map_of m t of None \<Rightarrow> [] | Some x \<Rightarrow> x)"

lemma inner_Nil [simp]: "inner [] t = []"
  by (simp add: inner_def)

lemma inner_update [simp]: "inner (AList.update t x m) t' = (if t' = t then x else inner m t')"
  by (simp add: inner_def)

section \<open>The environment\<close>

text \<open>
  What the code takes from outside: the time-zone database behind \<^verbatim>\<open>time.LoadLocation\<close>
  (\<open>None\<close>: the lookup fails; otherwise the offset in seconds east of UTC in force at an instant)
  and the order in which the runtime visits a map with \<open>n\<close> entries.
\<close>

record env =
  loadLocation :: "string \<Rightarrow> (int \<Rightarrow> int) option"
  rangeOrder :: "nat \<Rightarrow> nat list"

definition wfEnv :: "env \<Rightarrow> bool" where
  "wfEnv env \<longleftrightarrow> (\<forall>n. mset (rangeOrder env n) = mset [0..<n])"

definition rng :: "env \<Rightarrow> ('k \<times> 'v) list \<Rightarrow> ('k \<times> 'v) list" where
  "rng env m = map (\<lambda>i. m ! i) (rangeOrder env (length m))"

lemma mset_rng [simp]: "wfEnv env \<Longrightarrow> mset (rng env m) = mset m"
proof -
  assume "wfEnv env"
  then have "mset (rng env m) = mset (map ((!) m) [0..<length m])"
    unfolding wfEnv_def rng_def by (metis mset_map)
  then show ?thesis
    by (simp only: map_nth)
qed

lemma set_rng [simp]: "wfEnv env \<Longrightarrow> set (rng env m) = set m"
  by (metis mset_rng set_mset_mset)

lemma length_rng [simp]: "wfEnv env \<Longrightarrow> length (rng env m) = length m"
  by (metis mset_rng size_mset)

lemma distinctKeys_rng [simp]: "wfEnv env \<Longrightarrow> distinctKeys (rng env m) \<longleftrightarrow> distinctKeys m"
  by (metis mset_rng mset_eq_imp_distinct_iff mset_map)

lemma map_of_rng [simp]: "wfEnv env \<Longrightarrow> distinctKeys m \<Longrightarrow> map_of (rng env m) = map_of m"
  by (rule map_of_mset_eq) simp_all

definition insertionOrder :: "nat \<Rightarrow> nat list" where
  "insertionOrder n = [0..<n]"

lemma rng_insertionOrder: "rangeOrder env = insertionOrder \<Longrightarrow> rng env m = m"
  by (simp add: rng_def insertionOrder_def map_nth)

lemma wfEnv_insertionOrder: "rangeOrder env = insertionOrder \<Longrightarrow> wfEnv env"
  by (simp add: wfEnv_def insertionOrder_def)

section \<open>Instants and durations\<close>

text \<open>
  A \<^verbatim>\<open>time.Time\<close> is its instant: the nanoseconds since the zero time (January 1 of year 1, UTC),
  so \<^verbatim>\<open>IsZero\<close> is equality with 0 and \<^verbatim>\<open>Before\<close>, \<^verbatim>\<open>After\<close> and \<^verbatim>\<open>Equal\<close> compare integers.
  \<^verbatim>\<open>Sub\<close> saturates at the bounds of the 64-bit \<^verbatim>\<open>time.Duration\<close>.
\<close>

type_synonym Time = int
type_synonym Duration = int

definition maxDuration :: int where "maxDuration = 9223372036854775807"
definition minDuration :: int where "minDuration = -9223372036854775808"

definition timeSub :: "Time \<Rightarrow> Time \<Rightarrow> Duration" where
  "timeSub t u = max minDuration (min maxDuration (t - u))"

definition nanosPerSecond :: int where "nanosPerSecond = 1000000000"

text \<open>Go's \<^verbatim>\<open>%\<close> truncates towards zero.\<close>

definition goRem :: "int \<Rightarrow> int \<Rightarrow> int" where
  "goRem a b = sgn a * (\<bar>a\<bar> mod \<bar>b\<bar>)"

lemma goRem_nonneg: "0 \<le> a \<Longrightarrow> 0 < b \<Longrightarrow> goRem a b = a mod b"
  by (cases "a = 0") (simp_all add: goRem_def)

end
