(* ===== verification/Limits.thy ===== *)
theory Limits
  imports Prelude
begin

text \<open>
  \<^verbatim>\<open>Limits\<close> and \<^verbatim>\<open>DefaultLimits\<close> of \<^verbatim>\<open>definition.go\<close>. A Go \<^verbatim>\<open>int\<close> bound is an \<open>int\<close>: the
  constructors of the package accept any value, zero and negative ones included, and the code only
  compares the bounds with lengths and counts.
\<close>

record Limits =
  MaxFeatures :: int
  MaxVariants :: int
  MaxDependencies :: int
  MaxGroups :: int
  MaxTags :: int
  MaxMetadata :: int
  MaxAuditEntries :: int
  MaxAttributes :: int
  MaxFacts :: int
  MaxStrategies :: int
  MaxTargetValues :: int
  MaxScheduleWindows :: int
  MaxEvaluationDepth :: int
  MaxBatchSize :: int
  MaxGroupDepth :: int
  MaxStringBytes :: int
  MaxStructuredBytes :: int
  MaxContextKeyBytes :: int
  MaxContextValueBytes :: int
  MaxKeyBytes :: int
  MaxDiagnostics :: int
  MaxDiagnosticBytes :: int
  MaxImportBytes :: int
  MaxStateBytes :: int
  MaxStorageRetries :: int
  MaxStagedChanges :: int

definition DefaultLimits :: Limits where
  "DefaultLimits = \<lparr>
     MaxFeatures = 10000,
     MaxVariants = 100,
     MaxDependencies = 32,
     MaxGroups = 32,
     MaxTags = 64,
     MaxMetadata = 64,
     MaxAuditEntries = 10000,
     MaxAttributes = 128,
     MaxFacts = 128,
     MaxStrategies = 128,
     MaxTargetValues = 10000,
     MaxScheduleWindows = 128,
     MaxEvaluationDepth = 64,
     MaxBatchSize = 256,
     MaxGroupDepth = 32,
     MaxStringBytes = 8 * 1024,
     MaxStructuredBytes = 1024 * 1024,
     MaxContextKeyBytes = 256,
     MaxContextValueBytes = 8 * 1024,
     MaxKeyBytes = 256,
     MaxDiagnostics = 16,
     MaxDiagnosticBytes = 256,
     MaxImportBytes = 16 * 1024 * 1024,
     MaxStateBytes = 32 * 1024 * 1024,
     MaxStorageRetries = 8,
     MaxStagedChanges = 1000 \<rparr>"

text \<open>Go's \<open>len\<close>, as the \<^verbatim>\<open>int\<close> the code compares with a bound.\<close>

abbreviation len :: "'a list \<Rightarrow> int" where
  "len xs \<equiv> int (length xs)"

end
