(* ===== verification/Json_Valid.thy ===== *)
theory Json_Valid
  imports Prelude
begin

text \<open>
  \<^verbatim>\<open>json.Valid\<close> of the Go standard library, which \<^verbatim>\<open>value.go\<close> and \<^verbatim>\<open>openfeature/provider.go\<close>
  call on structured values: the byte-driven scanner of \<^verbatim>\<open>encoding/json\<close>, one state per step
  function, with its stack of enclosing arrays and objects and its limit on nesting.
\<close>

datatype parseState = ParseObjectKey | ParseObjectValue | ParseArrayValue

datatype scanState =
    BeginValueOrEmpty | BeginValue | BeginStringOrEmpty | BeginString
  | EndValue | EndTop
  | InString | InStringEsc | InStringEscU | InStringEscU1 | InStringEscU12 | InStringEscU123
  | Neg | Digits1 | Digits0 | Dot | Dot0 | Exp | ExpSign | Exp0
  | LitT | LitTr | LitTru | LitF | LitFa | LitFal | LitFals | LitN | LitNu | LitNul

type_synonym scanner = "scanState \<times> parseState list"

definition maxNestingDepth :: nat where "maxNestingDepth = 10000"

definition isJsonSpace :: "char \<Rightarrow> bool" where
  "isJsonSpace c \<longleftrightarrow> c = CHR '' '' \<or> c = CHR 0x09 \<or> c = CHR 0x0D \<or> c = CHR 0x0A"

definition isDigit :: "char \<Rightarrow> bool" where
  "isDigit c \<longleftrightarrow> 48 \<le> (of_char c :: nat) \<and> (of_char c :: nat) \<le> 57"

definition isDigit19 :: "char \<Rightarrow> bool" where
  "isDigit19 c \<longleftrightarrow> 49 \<le> (of_char c :: nat) \<and> (of_char c :: nat) \<le> 57"

definition isHex :: "char \<Rightarrow> bool" where
  "isHex c \<longleftrightarrow> isDigit c \<or>
     (97 \<le> (of_char c :: nat) \<and> (of_char c :: nat) \<le> 102) \<or>
     (65 \<le> (of_char c :: nat) \<and> (of_char c :: nat) \<le> 70)"

definition pushParseState :: "scanState \<Rightarrow> parseState \<Rightarrow> parseState list \<Rightarrow> scanner option" where
  "pushParseState st p ps = (if length (p # ps) \<le> maxNestingDepth then Some (st, p # ps) else None)"

definition popParseState :: "parseState list \<Rightarrow> scanner" where
  "popParseState ps = (case ps of
     [] \<Rightarrow> (EndTop, [])
   | p # qs \<Rightarrow> (if qs = [] then (EndTop, []) else (EndValue, qs)))"

definition stateEndValue :: "char \<Rightarrow> parseState list \<Rightarrow> scanner option" where
  "stateEndValue c ps = (case ps of
     [] \<Rightarrow> (if isJsonSpace c then Some (EndTop, []) else None)
   | p # qs \<Rightarrow>
       (if isJsonSpace c then Some (EndValue, ps)
        else case p of
          ParseObjectKey \<Rightarrow>
            (if c = CHR '':'' then Some (BeginValue, ParseObjectValue # qs) else None)
        | ParseObjectValue \<Rightarrow>
            (if c = CHR '','' then Some (BeginString, ParseObjectKey # qs)
             else if c = CHR ''}'' then Some (popParseState ps) else None)
        | ParseArrayValue \<Rightarrow>
            (if c = CHR '','' then Some (BeginValue, ps)
             else if c = CHR '']'' then Some (popParseState ps) else None)))"

definition stateBeginValue :: "char \<Rightarrow> parseState list \<Rightarrow> scanner option" where
  "stateBeginValue c ps =
     (if isJsonSpace c then Some (BeginValue, ps)
      else if c = CHR ''{'' then pushParseState BeginStringOrEmpty ParseObjectKey ps
      else if c = CHR ''['' then pushParseState BeginValueOrEmpty ParseArrayValue ps
      else if c = CHR 0x22 then Some (InString, ps)
      else if c = CHR ''-'' then Some (Neg, ps)
      else if c = CHR ''0'' then Some (Digits0, ps)
      else if c = CHR ''t'' then Some (LitT, ps)
      else if c = CHR ''f'' then Some (LitF, ps)
      else if c = CHR ''n'' then Some (LitN, ps)
      else if isDigit19 c then Some (Digits1, ps)
      else None)"

definition stateBeginString :: "char \<Rightarrow> parseState list \<Rightarrow> scanner option" where
  "stateBeginString c ps =
     (if isJsonSpace c then Some (BeginString, ps)
      else if c = CHR 0x22 then Some (InString, ps)
      else None)"

definition state0 :: "char \<Rightarrow> parseState list \<Rightarrow> scanner option" where
  "state0 c ps =
     (if c = CHR ''.'' then Some (Dot, ps)
      else if c = CHR ''e'' \<or> c = CHR ''E'' then Some (Exp, ps)
      else stateEndValue c ps)"

definition stateESign :: "char \<Rightarrow> parseState list \<Rightarrow> scanner option" where
  "stateESign c ps = (if isDigit c then Some (Exp0, ps) else None)"

definition expectChar :: "char \<Rightarrow> scanState \<Rightarrow> char \<Rightarrow> parseState list \<Rightarrow> scanner option" where
  "expectChar e st c ps = (if c = e then Some (st, ps) else None)"

definition expectHex :: "scanState \<Rightarrow> char \<Rightarrow> parseState list \<Rightarrow> scanner option" where
  "expectHex st c ps = (if isHex c then Some (st, ps) else None)"

definition scanStep :: "scanner \<Rightarrow> char \<Rightarrow> scanner option" where
  "scanStep s c = (case s of (st, ps) \<Rightarrow> (case st of
     BeginValueOrEmpty \<Rightarrow>
       (if isJsonSpace c then Some (BeginValueOrEmpty, ps)
        else if c = CHR '']'' then stateEndValue c ps
        else stateBeginValue c ps)
   | BeginValue \<Rightarrow> stateBeginValue c ps
   | BeginStringOrEmpty \<Rightarrow>
       (if isJsonSpace c then Some (BeginStringOrEmpty, ps)
        else if c = CHR ''}'' then stateEndValue c (ParseObjectValue # tl ps)
        else stateBeginString c ps)
   | BeginString \<Rightarrow> stateBeginString c ps
   | EndValue \<Rightarrow> stateEndValue c ps
   | EndTop \<Rightarrow> (if isJsonSpace c then Some (EndTop, ps) else None)
   | InString \<Rightarrow>
       (if c = CHR 0x22 then Some (EndValue, ps)
        else if c = CHR 0x5C then Some (InStringEsc, ps)
        else if (of_char c :: nat) < 32 then None
        else Some (InString, ps))
   | InStringEsc \<Rightarrow>
       (if c \<in> {CHR ''b'', CHR ''f'', CHR ''n'', CHR ''r'', CHR ''t'', CHR 0x5C, CHR ''/'', CHR 0x22}
        then Some (InString, ps)
        else if c = CHR ''u'' then Some (InStringEscU, ps)
        else None)
   | InStringEscU \<Rightarrow> expectHex InStringEscU1 c ps
   | InStringEscU1 \<Rightarrow> expectHex InStringEscU12 c ps
   | InStringEscU12 \<Rightarrow> expectHex InStringEscU123 c ps
   | InStringEscU123 \<Rightarrow> expectHex InString c ps
   | Neg \<Rightarrow>
       (if c = CHR ''0'' then Some (Digits0, ps)
        else if isDigit19 c then Some (Digits1, ps)
        else None)
   | Digits1 \<Rightarrow> (if isDigit c then Some (Digits1, ps) else state0 c ps)
   | Digits0 \<Rightarrow> state0 c ps
   | Dot \<Rightarrow> (if isDigit c then Some (Dot0, ps) else None)
   | Dot0 \<Rightarrow>
       (if isDigit c then Some (Dot0, ps)
        else if c = CHR ''e'' \<or> c = CHR ''E'' then Some (Exp, ps)
        else stateEndValue c ps)
   | Exp \<Rightarrow> (if c = CHR ''+'' \<or> c = CHR ''-'' then Some (ExpSign, ps) else stateESign c ps)
   | ExpSign \<Rightarrow> stateESign c ps
   | Exp0 \<Rightarrow> (if isDigit c then Some (Exp0, ps) else stateEndValue c ps)
   | LitT \<Rightarrow> expectChar CHR ''r'' LitTr c ps
   | LitTr \<Rightarrow> expectChar CHR ''u'' LitTru c ps
   | LitTru \<Rightarrow> expectChar CHR ''e'' EndValue c ps
   | LitF \<Rightarrow> expectChar CHR ''a'' LitFa c ps
   | LitFa \<Rightarrow> expectChar CHR ''l'' LitFal c ps
   | LitFal \<Rightarrow> expectChar CHR ''s'' LitFals c ps
   | LitFals \<Rightarrow> expectChar CHR ''e'' EndValue c ps
   | LitN \<Rightarrow> expectChar CHR ''u'' LitNu c ps
   | LitNu \<Rightarrow> expectChar CHR ''l'' LitNul c ps
   | LitNul \<Rightarrow> expectChar CHR ''l'' EndValue c ps))"

fun scanBytes :: "scanner \<Rightarrow> string \<Rightarrow> scanner option" where
  "scanBytes s [] = Some s"
| "scanBytes s (c # cs) = (case scanStep s c of None \<Rightarrow> None | Some t \<Rightarrow> scanBytes t cs)"

definition scanEof :: "scanner \<Rightarrow> bool" where
  "scanEof s \<longleftrightarrow> fst s = EndTop \<or>
     (case scanStep s (CHR '' '') of None \<Rightarrow> False | Some t \<Rightarrow> fst t = EndTop)"

definition jsonValid :: "string \<Rightarrow> bool" where
  "jsonValid data \<longleftrightarrow> (case scanBytes (BeginValue, []) data of None \<Rightarrow> False | Some s \<Rightarrow> scanEof s)"

lemma jsonValid_nonempty: "jsonValid data \<Longrightarrow> data \<noteq> []"
  by (auto simp: jsonValid_def scanEof_def scanStep_def stateBeginValue_def isJsonSpace_def)

end
