(* ===== verification/Values.thy ===== *)
theory Values
  imports Limits Json_Valid
begin

unbundle bit_operations_syntax

text \<open>
  \<^verbatim>\<open>value.go\<close>: the six native value types, their constructors and accessors, strict equality and
  validation. \<^verbatim>\<open>Type\<close> is a Go string type with six named constants; \<open>OtherType\<close> stands for every
  other string, the empty one of a zero \<^verbatim>\<open>Value\<close> included. A \<^verbatim>\<open>float64\<close> is its IEEE-754 bit
  pattern and an \<^verbatim>\<open>int64\<close> a 64-bit word. Values have no identity in the model, so the copies that
  \<^verbatim>\<open>clone\<close> and \<^verbatim>\<open>structuredValue\<close> make are the values themselves.
\<close>

datatype Type =
    TypeBoolean
  | TypeString
  | TypeInteger
  | TypeFloat
  | TypeDecimal
  | TypeStructured
  | OtherType string

record Value =
  vtyp :: Type
  vboolean :: bool
  vtext :: string
  vinteger :: "64 word"
  vfloating :: "64 word"
  vstructured :: string

definition zeroValue :: Value where
  "zeroValue = \<lparr> vtyp = OtherType [], vboolean = False, vtext = [], vinteger = 0,
                 vfloating = 0, vstructured = [] \<rparr>"

definition BooleanValue :: "bool \<Rightarrow> Value" where
  "BooleanValue b = zeroValue\<lparr> vtyp := TypeBoolean, vboolean := b \<rparr>"

definition StringValue :: "string \<Rightarrow> Value" where
  "StringValue s = zeroValue\<lparr> vtyp := TypeString, vtext := s \<rparr>"

definition IntegerValue :: "64 word \<Rightarrow> Value" where
  "IntegerValue i = zeroValue\<lparr> vtyp := TypeInteger, vinteger := i \<rparr>"

definition FloatValue :: "64 word \<Rightarrow> Value" where
  "FloatValue f = zeroValue\<lparr> vtyp := TypeFloat, vfloating := f \<rparr>"

definition DecimalValue :: "string \<Rightarrow> Value" where
  "DecimalValue s = zeroValue\<lparr> vtyp := TypeDecimal, vtext := s \<rparr>"

definition StructuredValue :: "string \<Rightarrow> Value" where
  "StructuredValue j = zeroValue\<lparr> vtyp := TypeStructured, vstructured := j \<rparr>"

lemmas value_constructor_defs =
  zeroValue_def BooleanValue_def StringValue_def IntegerValue_def FloatValue_def DecimalValue_def
  StructuredValue_def

definition booleanValue :: "Value \<Rightarrow> bool \<times> bool" where
  "booleanValue v = (vboolean v, vtyp v = TypeBoolean)"

definition stringValue :: "Value \<Rightarrow> Type \<Rightarrow> string \<times> bool" where
  "stringValue v expected = (vtext v, vtyp v = expected)"

definition integerValue :: "Value \<Rightarrow> 64 word \<times> bool" where
  "integerValue v = (vinteger v, vtyp v = TypeInteger)"

definition floatValue :: "Value \<Rightarrow> 64 word \<times> bool" where
  "floatValue v = (vfloating v, vtyp v = TypeFloat)"

definition structuredValue :: "Value \<Rightarrow> string \<times> bool" where
  "structuredValue v = (vstructured v, vtyp v = TypeStructured)"

definition cloneValue :: "Value \<Rightarrow> Value" where
  "cloneValue v = v\<lparr> vstructured := vstructured v \<rparr>"

lemma cloneValue_id [simp]: "cloneValue v = v"
  by (simp add: cloneValue_def)

section \<open>IEEE-754 doubles\<close>

definition floatExponent :: "64 word \<Rightarrow> 64 word" where
  "floatExponent f = drop_bit 52 f AND 0x7FF"

definition floatMantissa :: "64 word \<Rightarrow> 64 word" where
  "floatMantissa f = f AND 0xFFFFFFFFFFFFF"

definition isNaN :: "64 word \<Rightarrow> bool" where
  "isNaN f \<longleftrightarrow> floatExponent f = 0x7FF \<and> floatMantissa f \<noteq> 0"

definition isInf :: "64 word \<Rightarrow> bool" where
  "isInf f \<longleftrightarrow> floatExponent f = 0x7FF \<and> floatMantissa f = 0"

definition isZeroFloat :: "64 word \<Rightarrow> bool" where
  "isZeroFloat f \<longleftrightarrow> f AND 0x7FFFFFFFFFFFFFFF = 0"

definition floatEq :: "64 word \<Rightarrow> 64 word \<Rightarrow> bool" where
  "floatEq a b \<longleftrightarrow> \<not> isNaN a \<and> \<not> isNaN b \<and> (a = b \<or> (isZeroFloat a \<and> isZeroFloat b))"

section \<open>Strict equality\<close>

definition equalValue :: "Value \<Rightarrow> Value \<Rightarrow> bool" where
  "equalValue v w =
     (if vtyp v \<noteq> vtyp w then False
      else case vtyp v of
        TypeBoolean \<Rightarrow> vboolean v = vboolean w
      | TypeString \<Rightarrow> vtext v = vtext w
      | TypeDecimal \<Rightarrow> vtext v = vtext w
      | TypeInteger \<Rightarrow> vinteger v = vinteger w
      | TypeFloat \<Rightarrow> floatEq (vfloating v) (vfloating w)
      | TypeStructured \<Rightarrow> vstructured v = vstructured w
      | OtherType _ \<Rightarrow> False)"

section \<open>Validation\<close>

text \<open>The pattern \<^verbatim>\<open>^-?(0|[1-9][0-9]*)(\.[0-9]+)?$\<close> as a matcher.\<close>

definition matchFraction :: "string \<Rightarrow> bool" where
  "matchFraction s = (case s of
     [] \<Rightarrow> True
   | c # ds \<Rightarrow> c = CHR ''.'' \<and> ds \<noteq> [] \<and> list_all isDigit ds)"

definition matchUnsigned :: "string \<Rightarrow> bool" where
  "matchUnsigned s = (case s of
     [] \<Rightarrow> False
   | c # r \<Rightarrow>
       if c = CHR ''0'' then matchFraction r
       else isDigit19 c \<and> matchFraction (dropWhile isDigit r))"

definition decimalPattern :: "string \<Rightarrow> bool" where
  "decimalPattern s = (case s of
     [] \<Rightarrow> False
   | c # r \<Rightarrow> if c = CHR ''-'' then matchUnsigned r else matchUnsigned s)"

definition validateValue :: "Limits \<Rightarrow> Value \<Rightarrow> err option" where
  "validateValue limits v = (case vtyp v of
     TypeBoolean \<Rightarrow> None
   | TypeInteger \<Rightarrow> None
   | TypeString \<Rightarrow>
       (if len (vtext v) > MaxStringBytes limits then Some ErrInvalidValue else None)
   | TypeFloat \<Rightarrow>
       (if isNaN (vfloating v) \<or> isInf (vfloating v) then Some ErrInvalidValue else None)
   | TypeDecimal \<Rightarrow>
       (if len (vtext v) > MaxStringBytes limits \<or> \<not> decimalPattern (vtext v)
        then Some ErrInvalidValue else None)
   | TypeStructured \<Rightarrow>
       (if len (vstructured v) > MaxStructuredBytes limits then Some ErrInvalidValue
        else if \<not> jsonValid (vstructured v) then Some ErrInvalidValue else None)
   | OtherType _ \<Rightarrow> Some ErrInvalidValue)"

lemma validateValue_err: "validateValue limits v = Some e \<Longrightarrow> e = ErrInvalidValue"
  by (auto simp: validateValue_def split: Type.splits if_splits)

section \<open>Lemmas\<close>

lemma isDigit19_isDigit: "isDigit19 c \<Longrightarrow> isDigit c"
  by (simp add: isDigit19_def isDigit_def)

lemma not_isDigit_dot [simp]: "\<not> isDigit (CHR ''.'')"
  by (simp add: isDigit_def)

lemma not_isDigit19_minus [simp]: "\<not> isDigit19 (CHR ''-'')"
  by (simp add: isDigit19_def)

lemma not_isDigit19_zero [simp]: "\<not> isDigit19 (CHR ''0'')"
  by (simp add: isDigit19_def)

definition fractionGrammar :: "string \<Rightarrow> bool" where
  "fractionGrammar f \<longleftrightarrow> f = [] \<or> (\<exists>ds. f = CHR ''.'' # ds \<and> ds \<noteq> [] \<and> list_all isDigit ds)"

definition integerGrammar :: "string \<Rightarrow> bool" where
  "integerGrammar i \<longleftrightarrow> i = ''0'' \<or> (\<exists>d ds. i = d # ds \<and> isDigit19 d \<and> list_all isDigit ds)"

lemma matchFraction_grammar: "matchFraction f \<longleftrightarrow> fractionGrammar f"
  by (cases f) (auto simp: matchFraction_def fractionGrammar_def)

lemma dropWhile_digits_fraction:
  "list_all isDigit ds \<Longrightarrow> fractionGrammar f \<Longrightarrow> dropWhile isDigit (ds @ f) = f"
  by (induction ds) (auto simp: fractionGrammar_def)

lemma matchUnsigned_grammar:
  "matchUnsigned s \<longleftrightarrow> (\<exists>i f. s = i @ f \<and> integerGrammar i \<and> fractionGrammar f)"
proof
  assume m: "matchUnsigned s"
  then obtain c r where s: "s = c # r"
    by (cases s) (auto simp: matchUnsigned_def)
  show "\<exists>i f. s = i @ f \<and> integerGrammar i \<and> fractionGrammar f"
  proof (cases "c = CHR ''0''")
    case True
    with m s show ?thesis
      by (intro exI [of _ "''0''"] exI [of _ r])
        (simp add: matchUnsigned_def matchFraction_grammar integerGrammar_def)
  next
    case False
    with m s have "isDigit19 c" "fractionGrammar (dropWhile isDigit r)"
      by (simp_all add: matchUnsigned_def matchFraction_grammar)
    moreover have "list_all isDigit (takeWhile isDigit r)"
      by (auto simp: list_all_iff dest: set_takeWhileD)
    ultimately show ?thesis
      using s by (intro exI [of _ "c # takeWhile isDigit r"] exI [of _ "dropWhile isDigit r"])
        (auto simp: integerGrammar_def)
  qed
next
  assume "\<exists>i f. s = i @ f \<and> integerGrammar i \<and> fractionGrammar f"
  then obtain i f where s: "s = i @ f" and i: "integerGrammar i" and f: "fractionGrammar f"
    by blast
  from i consider "i = ''0''" | d ds where "i = d # ds" "isDigit19 d" "list_all isDigit ds"
    unfolding integerGrammar_def by blast
  then show "matchUnsigned s"
  proof cases
    case 1
    with s f show ?thesis
      by (simp add: matchUnsigned_def matchFraction_grammar)
  next
    case 2
    then have "d \<noteq> CHR ''0''"
      by (metis not_isDigit19_zero)
    with 2 s f show ?thesis
      by (simp add: matchUnsigned_def matchFraction_grammar dropWhile_digits_fraction)
  qed
qed

lemma matchUnsigned_minus [simp]: "\<not> matchUnsigned (CHR ''-'' # r)"
  by (simp add: matchUnsigned_def)

text \<open>C11. the decimal matcher accepts exactly the strings of the documented grammar: an optional
  minus sign, an integer part without leading zeroes, and an optional nonempty fraction.\<close>

theorem decimalPattern_grammar:
  "decimalPattern s \<longleftrightarrow>
     (\<exists>sgn i f. s = sgn @ i @ f \<and> (sgn = [] \<or> sgn = ''-'') \<and> integerGrammar i \<and> fractionGrammar f)"
proof -
  have "decimalPattern s \<longleftrightarrow> matchUnsigned s \<or> (\<exists>r. s = ''-'' @ r \<and> matchUnsigned r)"
    by (cases s) (auto simp: decimalPattern_def matchUnsigned_def [of "[]"])
  then show ?thesis
    by (simp only: matchUnsigned_grammar) (metis append_Nil)
qed

end
