(* ===== verification/Contexts.thy ===== *)
theory Contexts
  imports Values
begin

text \<open>
  \<^verbatim>\<open>context.go\<close>: the caller-supplied evaluation context and its bounds.
\<close>

record Context =
  Subject :: string
  Tenant :: string
  Environment :: string
  Attributes :: "string gomap"
  Facts :: "Value gomap"
  ctxTime :: Time

definition validateAttribute :: "Limits \<Rightarrow> string \<times> string \<Rightarrow> err option" where
  "validateAttribute limits kv =
     (if len (fst kv) > MaxContextKeyBytes limits \<or> len (snd kv) > MaxContextValueBytes limits
      then Some ErrContextLimit else None)"

definition validateFact :: "Limits \<Rightarrow> string \<times> Value \<Rightarrow> err option" where
  "validateFact limits kv =
     (if len (fst kv) > MaxContextKeyBytes limits then Some ErrContextLimit
      else validateValue limits (snd kv))"

definition validateContext :: "env \<Rightarrow> Limits \<Rightarrow> Context \<Rightarrow> err option" where
  "validateContext env limits c =
     (if len (Subject c) > MaxContextValueBytes limits \<or>
         len (Tenant c) > MaxContextValueBytes limits \<or>
         len (Environment c) > MaxContextValueBytes limits
      then Some ErrContextLimit
      else if len (Attributes c) > MaxAttributes limits then Some ErrContextLimit
      else if len (Facts c) > MaxFacts limits then Some ErrContextLimit
      else orElseErr (firstErr (validateAttribute limits) (rng env (Attributes c)))
             (firstErr (validateFact limits) (rng env (Facts c))))"

text \<open>What an accepted context satisfies, whatever order the maps are visited in.\<close>

definition boundedContext :: "Limits \<Rightarrow> Context \<Rightarrow> bool" where
  "boundedContext limits c \<longleftrightarrow>
     len (Subject c) \<le> MaxContextValueBytes limits \<and>
     len (Tenant c) \<le> MaxContextValueBytes limits \<and>
     len (Environment c) \<le> MaxContextValueBytes limits \<and>
     len (Attributes c) \<le> MaxAttributes limits \<and>
     len (Facts c) \<le> MaxFacts limits \<and>
     (\<forall>(k, v)\<in>set (Attributes c).
        len k \<le> MaxContextKeyBytes limits \<and> len v \<le> MaxContextValueBytes limits) \<and>
     (\<forall>(k, v)\<in>set (Facts c). len k \<le> MaxContextKeyBytes limits \<and> validateValue limits v = None)"

lemma validateContext_None_iff:
  assumes "wfEnv env"
  shows "validateContext env limits c = None \<longleftrightarrow> boundedContext limits c"
proof -
  have "firstErr (validateAttribute limits) (rng env (Attributes c)) = None \<longleftrightarrow>
      (\<forall>(k, v)\<in>set (Attributes c).
         len k \<le> MaxContextKeyBytes limits \<and> len v \<le> MaxContextValueBytes limits)"
    using assms by (auto simp: firstErr_None_iff validateAttribute_def split: if_splits)
  moreover have "firstErr (validateFact limits) (rng env (Facts c)) = None \<longleftrightarrow>
      (\<forall>(k, v)\<in>set (Facts c). len k \<le> MaxContextKeyBytes limits \<and> validateValue limits v = None)"
    using assms by (auto simp: firstErr_None_iff validateFact_def split: if_splits)
  ultimately show ?thesis
    by (auto simp: validateContext_def boundedContext_def)
qed

lemma validateContext_err:
  "validateContext env limits c = Some e \<Longrightarrow> e = ErrContextLimit \<or> e = ErrInvalidValue"
  by (auto simp: validateContext_def validateAttribute_def validateFact_def orElseErr_def
      split: if_splits option.splits dest!: firstErr_SomeD dest: validateValue_err)

end
