(* ===== verification/Sha256.thy ===== *)
theory Sha256
  imports Prelude
begin

unbundle bit_operations_syntax

text \<open>
  \<^verbatim>\<open>crypto/sha256\<close> of the Go standard library (FIPS 180-4), which \<^verbatim>\<open>bucket.go\<close>,
  \<^verbatim>\<open>valkey/backend.go\<close> and \<^verbatim>\<open>fleet.go\<close> hash with: a function from byte strings to the 32 bytes of
  the digest. Writing several parts to the hash is hashing their concatenation.
\<close>

type_synonym w32 = "32 word"
type_synonym shaState = "w32 \<times> w32 \<times> w32 \<times> w32 \<times> w32 \<times> w32 \<times> w32 \<times> w32"

text \<open>
  The constants are computed from their definition in the standard: the first 32 bits of the
  fractional parts of the cube roots of the first 64 primes, and of the square roots of the first
  eight. \<open>rootBits k n b r\<close> extends the lower bound \<open>r\<close> of the \<open>k\<close>-th root of \<open>n\<close> by the bits below \<open>b\<close>.
\<close>

fun rootBits :: "nat \<Rightarrow> int \<Rightarrow> nat \<Rightarrow> int \<Rightarrow> int" where
  "rootBits k n 0 r = r"
| "rootBits k n (Suc b) r = rootBits k n b (if (r + 2 ^ b) ^ k \<le> n then r + 2 ^ b else r)"

definition fractionBits :: "nat \<Rightarrow> int \<Rightarrow> w32" where
  "fractionBits k p = of_int (rootBits k (p * 2 ^ (32 * k)) 40 0)"

definition primesBelow :: "int \<Rightarrow> int list" where
  "primesBelow n = filter (\<lambda>p. list_all (\<lambda>d. p mod d \<noteq> 0) [2..p - 1]) [2..n - 1]"

definition shaK :: "w32 list" where
  "shaK = map (fractionBits 3) (primesBelow 312)"

definition shaInit :: shaState where
  "shaInit = (fractionBits 2 2, fractionBits 2 3, fractionBits 2 5, fractionBits 2 7,
              fractionBits 2 11, fractionBits 2 13, fractionBits 2 17, fractionBits 2 19)"

definition rotr :: "nat \<Rightarrow> w32 \<Rightarrow> w32" where
  "rotr n x = drop_bit n x OR push_bit (32 - n) x"

definition smallSigma0 :: "w32 \<Rightarrow> w32" where
  "smallSigma0 x = rotr 7 x XOR rotr 18 x XOR drop_bit 3 x"

definition smallSigma1 :: "w32 \<Rightarrow> w32" where
  "smallSigma1 x = rotr 17 x XOR rotr 19 x XOR drop_bit 10 x"

definition bigSigma0 :: "w32 \<Rightarrow> w32" where
  "bigSigma0 x = rotr 2 x XOR rotr 13 x XOR rotr 22 x"

definition bigSigma1 :: "w32 \<Rightarrow> w32" where
  "bigSigma1 x = rotr 6 x XOR rotr 11 x XOR rotr 25 x"

definition shaCh :: "w32 \<Rightarrow> w32 \<Rightarrow> w32 \<Rightarrow> w32" where
  "shaCh e f g = (e AND f) XOR (NOT e AND g)"

definition shaMaj :: "w32 \<Rightarrow> w32 \<Rightarrow> w32 \<Rightarrow> w32" where
  "shaMaj a b c = (a AND b) XOR (a AND c) XOR (b AND c)"

definition shaRound :: "w32 \<Rightarrow> w32 \<Rightarrow> shaState \<Rightarrow> shaState" where
  "shaRound k w s = (case s of (a, b, c, d, e, f, g, h) \<Rightarrow>
     let t1 = h + bigSigma1 e + shaCh e f g + k + w;
         t2 = bigSigma0 a + shaMaj a b c
     in (t1 + t2, a, b, c, d + t1, e, f, g))"

text \<open>The sixteen message words still needed, shifted by one per round.\<close>

definition shaNextWord :: "w32 list \<Rightarrow> w32" where
  "shaNextWord ws = smallSigma1 (ws ! 14) + ws ! 9 + smallSigma0 (ws ! 1) + ws ! 0"

fun shaRounds :: "w32 list \<Rightarrow> w32 list \<Rightarrow> shaState \<Rightarrow> shaState" where
  "shaRounds [] ws s = s"
| "shaRounds (k # ks) ws s =
     shaRounds ks (tl ws @ [shaNextWord ws]) (shaRound k (hd ws) s)"

definition shaAdd :: "shaState \<Rightarrow> shaState \<Rightarrow> shaState" where
  "shaAdd s t = (case s of (a, b, c, d, e, f, g, h) \<Rightarrow> (case t of (a', b', c', d', e', f', g', h') \<Rightarrow>
     (a + a', b + b', c + c', d + d', e + e', f + f', g + g', h + h')))"

definition shaCompress :: "shaState \<Rightarrow> w32 list \<Rightarrow> shaState" where
  "shaCompress s ws = shaAdd s (shaRounds shaK ws s)"

fun bytesToWords :: "string \<Rightarrow> w32 list" where
  "bytesToWords (a # b # c # d # r) =
     (push_bit 24 (of_char a) OR push_bit 16 (of_char b) OR push_bit 8 (of_char c) OR of_char d)
     # bytesToWords r"
| "bytesToWords _ = []"

text \<open>The \<open>n\<close> low bytes of a number, most significant byte first.\<close>

fun bigEndianBytes :: "nat \<Rightarrow> int \<Rightarrow> string" where
  "bigEndianBytes 0 x = []"
| "bigEndianBytes (Suc n) x = bigEndianBytes n (x div 256) @ [char_of (x mod 256)]"

definition shaPadding :: "nat \<Rightarrow> string" where
  "shaPadding n =
     CHR 0x80 # replicate ((119 - n mod 64) mod 64) (CHR 0x00) @ bigEndianBytes 8 (8 * int n)"

fun shaBlocks :: "nat \<Rightarrow> shaState \<Rightarrow> w32 list \<Rightarrow> shaState" where
  "shaBlocks 0 s ws = s"
| "shaBlocks (Suc n) s ws = shaBlocks n (shaCompress s (take 16 ws)) (drop 16 ws)"

definition shaDigest :: "shaState \<Rightarrow> string" where
  "shaDigest s = (case s of (a, b, c, d, e, f, g, h) \<Rightarrow>
     concat (map (\<lambda>w. bigEndianBytes 4 (uint w)) [a, b, c, d, e, f, g, h]))"

definition sha256 :: "string \<Rightarrow> string" where
  "sha256 m =
     (let ws = bytesToWords (m @ shaPadding (length m))
      in shaDigest (shaBlocks (length ws div 16) shaInit ws))"

lemma rootBits_bound:
  "r ^ k \<le> n \<Longrightarrow> n < (r + 2 ^ b) ^ k \<Longrightarrow>
     rootBits k n b r ^ k \<le> n \<and> n < (rootBits k n b r + 1) ^ k"
proof (induction b arbitrary: r)
  case (Suc b)
  have "r + 2 ^ Suc b = (r + 2 ^ b) + 2 ^ b"
    by simp
  then show ?case
    using Suc.IH [of "r + 2 ^ b"] Suc.IH [of r] Suc.prems
    by (cases "(r + 2 ^ b) ^ k \<le> n") (simp_all add: add.commute)
qed simp

lemma length_bigEndianBytes [simp]: "length (bigEndianBytes n x) = n"
  by (induction n arbitrary: x) auto

lemma length_sha256 [simp]: "length (sha256 m) = 32"
  by (auto simp: sha256_def shaDigest_def Let_def split: prod.splits)

end
