(* ===== verification/Bucket.thy ===== *)
theory Bucket
  imports Sha256
begin

text \<open>
  \<^verbatim>\<open>bucket.go\<close>: the stable assignment of a subject to one of 100000 buckets. The state of the
  running hash is the byte string written so far.
\<close>

definition bucketPrecision :: "64 word" where
  "bucketPrecision = 100000"

definition bucketPrefix :: string where
  "bucketPrefix = ''go-feature-flags/bucket/v1''"

definition writeBucketPart :: "string \<Rightarrow> string \<Rightarrow> string" where
  "writeBucketPart written part = written @ bigEndianBytes 4 (int (length part)) @ part"

definition bucketFrame :: "string \<Rightarrow> string \<Rightarrow> string \<Rightarrow> string \<Rightarrow> string" where
  "bucketFrame seed featureKey tenant subject =
     writeBucketPart (writeBucketPart (writeBucketPart (writeBucketPart bucketPrefix
       seed) featureKey) tenant) subject"

definition bigEndianUint64 :: "string \<Rightarrow> 64 word" where
  "bigEndianUint64 bs = foldl (\<lambda>acc b. acc * 256 + of_char b) 0 bs"

definition Bucket :: "string \<Rightarrow> string \<Rightarrow> string \<Rightarrow> string \<Rightarrow> 32 word" where
  "Bucket seed featureKey tenant subject =
     (let sum = sha256 (bucketFrame seed featureKey tenant subject)
      in ucast (bigEndianUint64 (take 8 sum) mod bucketPrecision))"

section \<open>Framing\<close>

lemma bigEndianBytes_eq_iff:
  "bigEndianBytes n x = bigEndianBytes n y \<longleftrightarrow> x mod 256 ^ n = y mod 256 ^ n"
proof (induction n arbitrary: x y)
  case 0
  then show ?case by simp
next
  case (Suc n)
  have "x mod 256 ^ Suc n = 256 * (x div 256 mod 256 ^ n) + x mod 256" for x :: int
    by (simp add: zmod_zmult2_eq)
  moreover have "char_of (x mod 256) = char_of (y mod 256) \<longleftrightarrow> x mod 256 = y mod 256"
    by (simp add: char_of_eq_iff take_bit_eq_mod)
  moreover have "256 * a + x mod 256 = 256 * c + y mod 256 \<longleftrightarrow> a = c \<and> x mod 256 = y mod 256"
    for a c :: int
    using pos_mod_bound [of 256 x] pos_mod_sign [of 256 x] pos_mod_bound [of 256 y]
      pos_mod_sign [of 256 y]
    by (cases a c rule: linorder_cases) linarith+
  ultimately show ?case
    using Suc.IH [of "x div 256" "y div 256"] by simp
qed

lemma framed_part_inject:
  assumes "length p < 2 ^ 32" "length q < 2 ^ 32"
    and "bigEndianBytes 4 (int (length p)) @ p @ r = bigEndianBytes 4 (int (length q)) @ q @ t"
  shows "p = q \<and> r = t"
proof -
  from assms(3) have "bigEndianBytes 4 (int (length p)) = bigEndianBytes 4 (int (length q))"
    and rest: "p @ r = q @ t"
    by (simp_all add: append_eq_append_conv)
  then have "int (length p) mod 256 ^ 4 = int (length q) mod 256 ^ 4"
    by (simp only: bigEndianBytes_eq_iff)
  with assms(1,2) have "length p = length q"
    by simp
  with rest show ?thesis
    by simp
qed

text \<open>C10. the framing of the hashed fields is unambiguous: different quadruples of seed, feature
  key, tenant and subject, each shorter than \<open>2 ^ 32\<close> bytes, are hashed as different byte strings, so
  moving bytes from one field to the next never yields the same input.\<close>

theorem bucketFrame_inject:
  assumes "length s < 2 ^ 32" "length k < 2 ^ 32" "length t < 2 ^ 32" "length u < 2 ^ 32"
    and "length s' < 2 ^ 32" "length k' < 2 ^ 32" "length t' < 2 ^ 32" "length u' < 2 ^ 32"
    and eq: "bucketFrame s k t u = bucketFrame s' k' t' u'"
  shows "s = s' \<and> k = k' \<and> t = t' \<and> u = u'"
proof -
  let ?fr = "\<lambda>p r. bigEndianBytes 4 (int (length p)) @ p @ r"
  have "?fr s (?fr k (?fr t (?fr u []))) = ?fr s' (?fr k' (?fr t' (?fr u' [])))"
    using eq by (simp add: bucketFrame_def writeBucketPart_def)
  from framed_part_inject [OF assms(1,5) this]
  have s: "s = s'" and "?fr k (?fr t (?fr u [])) = ?fr k' (?fr t' (?fr u' []))"
    by simp_all
  from framed_part_inject [OF assms(2,6) this(2)]
  have k: "k = k'" and "?fr t (?fr u []) = ?fr t' (?fr u' [])"
    by simp_all
  from framed_part_inject [OF assms(3,7) this(2)] framed_part_inject [OF assms(4,8)]
  show ?thesis
    using s k by blast
qed

theorem bucketFrame_inject_witness:
  "bucketFrame ''a'' ''bc'' ''t'' ''u'' \<noteq> bucketFrame ''ab'' ''c'' ''t'' ''u''"
  using bucketFrame_inject [of "''a''" "''bc''" "''t''" "''u''" "''ab''" "''c''" "''t''" "''u''"]
  by auto

section \<open>Range\<close>

lemma unat_Bucket:
  "unat (Bucket seed key tenant subject) =
     unat (bigEndianUint64 (take 8 (sha256 (bucketFrame seed key tenant subject)))) mod 100000"
  by (simp add: Bucket_def Let_def bucketPrecision_def unsigned_ucast_eq take_bit_eq_mod unat_mod_distrib)

lemma Bucket_less: "unat (Bucket seed key tenant subject) < 100000"
  by (simp add: unat_Bucket)

end
