(* ===== verification/Strategies.thy ===== *)
theory Strategies
  imports Contexts Bucket
begin

text \<open>
  The evaluation policies: \<^verbatim>\<open>strategy.go\<close> (exact targets, percentage rollout), \<^verbatim>\<open>strategy_sets.go\<close>
  (allow and deny sets), \<^verbatim>\<open>strategy_time.go\<close> (time windows and weekly schedules) and
  \<^verbatim>\<open>strategy_fact.go\<close> (typed facts). The \<^verbatim>\<open>Strategy\<close> interface is open: an application may
  implement it. \<open>Custom\<close> carries such an implementation as the functions it provides, and
  \<open>NilStrategy\<close> is the nil interface value the validators reject.
\<close>

section \<open>Inputs and results\<close>

datatype Reason =
    ReasonTargetingMatch
  | ReasonRollout
  | ReasonSchedule
  | ReasonDependencyFailed
  | ReasonGroupMatch
  | ReasonDefault
  | ReasonInactive
  | ReasonDegradedFailOpen
  | ReasonDegradedDefault
  | ReasonDegradedLastKnownGood
  | NoReason
  | OtherReason string

record Diagnostic =
  dgCode :: string
  dgMessage :: string

record StrategyInput =
  siFeatureKey :: string
  siContext :: Context

record StrategyResult =
  srMatch :: bool
  srReason :: Reason
  srDiagnostics :: "Diagnostic list"

section \<open>The strategies\<close>

record ExactTargetStrategy =
  etName :: string
  etVariant :: string
  etTenants :: "string list"
  etSubjects :: "string list"
  etEnvironments :: "string list"
  etAttributes :: "string gomap"

record PercentageStrategy =
  pcName :: string
  pcVariant :: string
  pcSeed :: string
  pcThreshold :: "32 word"

record SetStrategy =
  ssName :: string
  ssVariant :: string
  ssAllowTenants :: "string list"
  ssDenyTenants :: "string list"
  ssAllowSubjects :: "string list"
  ssDenySubjects :: "string list"

record TimeWindowStrategy =
  twName :: string
  twVariant :: string
  twNotBefore :: Time
  twNotAfter :: Time

record WeeklyWindow =
  Weekday :: int
  StartMinute :: int
  EndMinute :: int

record ScheduleStrategy =
  scName :: string
  scVariant :: string
  scLocation :: string
  scWindows :: "WeeklyWindow list"

record FactStrategy =
  fsName :: string
  fsVariant :: string
  fsFact :: string
  fsEquals :: Value

record CustomStrategy =
  csName :: string
  csVariant :: string
  csValidate :: "Limits \<Rightarrow> err option"
  csEvaluate :: "StrategyInput \<Rightarrow> StrategyResult res"

datatype Strategy =
    Exact ExactTargetStrategy
  | Percentage PercentageStrategy
  | Sets SetStrategy
  | TimeWindow TimeWindowStrategy
  | Schedule ScheduleStrategy
  | Fact FactStrategy
  | Custom CustomStrategy
  | NilStrategy

fun StrategyName :: "Strategy \<Rightarrow> string" where
  "StrategyName (Exact s) = etName s"
| "StrategyName (Percentage s) = pcName s"
| "StrategyName (Sets s) = ssName s"
| "StrategyName (TimeWindow s) = twName s"
| "StrategyName (Schedule s) = scName s"
| "StrategyName (Fact s) = fsName s"
| "StrategyName (Custom s) = csName s"
| "StrategyName NilStrategy = []"

fun TargetVariant :: "Strategy \<Rightarrow> string" where
  "TargetVariant (Exact s) = etVariant s"
| "TargetVariant (Percentage s) = pcVariant s"
| "TargetVariant (Sets s) = ssVariant s"
| "TargetVariant (TimeWindow s) = twVariant s"
| "TargetVariant (Schedule s) = scVariant s"
| "TargetVariant (Fact s) = fsVariant s"
| "TargetVariant (Custom s) = csVariant s"
| "TargetVariant NilStrategy = []"

fun isNilStrategy :: "Strategy \<Rightarrow> bool" where
  "isNilStrategy NilStrategy = True"
| "isNilStrategy _ = False"

lemma isNilStrategy_iff [simp]: "isNilStrategy s \<longleftrightarrow> s = NilStrategy"
  by (cases s) simp_all

section \<open>Shared helpers\<close>

definition listed :: "string list \<Rightarrow> string \<Rightarrow> bool" where
  "listed values candidate = list_ex (\<lambda>v. v = candidate) values"

definition listedOrUnrestricted :: "string list \<Rightarrow> string \<Rightarrow> bool" where
  "listedOrUnrestricted values candidate = (if values = [] then True else listed values candidate)"

definition matchesAttributes :: "string gomap \<Rightarrow> string gomap \<Rightarrow> bool" where
  "matchesAttributes required actual =
     list_all (\<lambda>(key, val). map_of actual key = Some val) required"

definition validateTargetValue :: "Limits \<Rightarrow> string \<Rightarrow> err option" where
  "validateTargetValue limits v =
     (if v = [] \<or> len v > MaxContextValueBytes limits
      then Some (ErrMsg ''target value exceeds configured bounds'') else None)"

definition validateTargetValues :: "Limits \<Rightarrow> string list list \<Rightarrow> err option" where
  "validateTargetValues limits sets =
     orElseErr (firstErr (validateTargetValue limits) (concat sets))
       (if (\<Sum>values\<leftarrow>sets. len values) > MaxTargetValues limits
        then Some (ErrMsg ''target values exceed limit'') else None)"

lemma listed_iff: "listed values c \<longleftrightarrow> c \<in> set values"
  by (auto simp: listed_def list_ex_iff)

lemma listedOrUnrestricted_iff: "listedOrUnrestricted values c \<longleftrightarrow> values = [] \<or> c \<in> set values"
  by (simp add: listedOrUnrestricted_def listed_iff)

section \<open>Exact targets\<close>

definition validateExact :: "env \<Rightarrow> Limits \<Rightarrow> ExactTargetStrategy \<Rightarrow> err option" where
  "validateExact env limits s =
     orElseErr (validateTargetValues limits [etTenants s, etSubjects s, etEnvironments s])
       (if len (etAttributes s) > MaxAttributes limits then Some (ErrMsg ''attributes exceed limit'')
        else firstErr (\<lambda>(key, val).
               if key = [] \<or> len key > MaxContextKeyBytes limits \<or>
                  len val > MaxContextValueBytes limits
               then Some (ErrMsg ''attribute target exceeds configured bounds'') else None)
             (rng env (etAttributes s)))"

definition evaluateExact :: "ExactTargetStrategy \<Rightarrow> StrategyInput \<Rightarrow> StrategyResult res" where
  "evaluateExact s input = (let c = siContext input in
     Inr \<lparr> srMatch = listedOrUnrestricted (etTenants s) (Tenant c) \<and>
                     listedOrUnrestricted (etSubjects s) (Subject c) \<and>
                     listedOrUnrestricted (etEnvironments s) (Environment c) \<and>
                     matchesAttributes (etAttributes s) (Attributes c),
           srReason = ReasonTargetingMatch, srDiagnostics = [] \<rparr>)"

section \<open>Percentage rollout\<close>

definition validatePercentage :: "PercentageStrategy \<Rightarrow> err option" where
  "validatePercentage s =
     (if pcThreshold s > ucast bucketPrecision
      then Some (ErrMsg ''threshold exceeds precision'') else None)"

definition evaluatePercentage :: "PercentageStrategy \<Rightarrow> StrategyInput \<Rightarrow> StrategyResult res" where
  "evaluatePercentage s input = (let c = siContext input in
     if Tenant c = [] \<or> Subject c = [] then
       Inr \<lparr> srMatch = False, srReason = ReasonRollout,
             srDiagnostics = [\<lparr> dgCode = ''missing_bucketing_identity'',
               dgMessage = ''percentage rollout requires tenant and subject'' \<rparr>] \<rparr>
     else
       Inr \<lparr> srMatch = Bucket (pcSeed s) (siFeatureKey input) (Tenant c) (Subject c) < pcThreshold s,
             srReason = ReasonRollout, srDiagnostics = [] \<rparr>)"

section \<open>Allow and deny sets\<close>

definition validateSet :: "Limits \<Rightarrow> SetStrategy \<Rightarrow> err option" where
  "validateSet limits s = validateTargetValues limits
     [ssAllowTenants s, ssDenyTenants s, ssAllowSubjects s, ssDenySubjects s]"

definition evaluateSet :: "SetStrategy \<Rightarrow> StrategyInput \<Rightarrow> StrategyResult res" where
  "evaluateSet s input = (let c = siContext input;
       denied = listed (ssDenyTenants s) (Tenant c) \<or> listed (ssDenySubjects s) (Subject c);
       allowed = listedOrUnrestricted (ssAllowTenants s) (Tenant c) \<and>
                 listedOrUnrestricted (ssAllowSubjects s) (Subject c)
     in Inr \<lparr> srMatch = allowed \<and> \<not> denied, srReason = ReasonTargetingMatch, srDiagnostics = [] \<rparr>)"

section \<open>Time windows\<close>

definition validateTimeWindow :: "TimeWindowStrategy \<Rightarrow> err option" where
  "validateTimeWindow s =
     (if twNotBefore s = 0 \<and> twNotAfter s = 0
      then Some (ErrMsg ''at least one time boundary is required'')
      else if twNotBefore s \<noteq> 0 \<and> twNotAfter s \<noteq> 0 \<and> \<not> twNotBefore s < twNotAfter s
      then Some (ErrMsg ''not-before must precede not-after'')
      else None)"

definition missingTime :: "string \<Rightarrow> StrategyResult res" where
  "missingTime message =
     Inr \<lparr> srMatch = False, srReason = ReasonSchedule,
           srDiagnostics = [\<lparr> dgCode = ''missing_evaluation_time'', dgMessage = message \<rparr>] \<rparr>"

definition evaluateTimeWindow :: "TimeWindowStrategy \<Rightarrow> StrategyInput \<Rightarrow> StrategyResult res" where
  "evaluateTimeWindow s input = (let now = ctxTime (siContext input) in
     if now = 0 then missingTime ''time strategy requires explicit context time''
     else Inr \<lparr> srMatch = (twNotBefore s = 0 \<or> \<not> now < twNotBefore s) \<and>
                          (twNotAfter s = 0 \<or> now < twNotAfter s),
                srReason = ReasonSchedule, srDiagnostics = [] \<rparr>)"

section \<open>Weekly schedules\<close>

definition validateWindow :: "WeeklyWindow \<Rightarrow> err option" where
  "validateWindow w =
     (if Weekday w < 0 \<or> Weekday w > 6 then Some (ErrMsg ''window has invalid weekday'')
      else if StartMinute w < 0 \<or> StartMinute w \<ge> 24 * 60 \<or>
              EndMinute w < 0 \<or> EndMinute w > 24 * 60 \<or> StartMinute w = EndMinute w
      then Some (ErrMsg ''window has invalid minute range'')
      else None)"

definition validateSchedule :: "env \<Rightarrow> Limits \<Rightarrow> ScheduleStrategy \<Rightarrow> err option" where
  "validateSchedule env limits s =
     (if scLocation s = [] then Some (ErrMsg ''location is required'')
      else if loadLocation env (scLocation s) = None then Some (ErrMsg ''load location'')
      else if scWindows s = [] then Some (ErrMsg ''at least one weekly window is required'')
      else if len (scWindows s) > MaxScheduleWindows limits
      then Some (ErrMsg ''weekly windows exceed limit'')
      else firstErr validateWindow (scWindows s))"

definition weeklyWindowMatches :: "WeeklyWindow \<Rightarrow> int \<Rightarrow> int \<Rightarrow> bool" where
  "weeklyWindowMatches w weekday minute =
     (if StartMinute w < EndMinute w then
        weekday = Weekday w \<and> minute \<ge> StartMinute w \<and> minute < EndMinute w
      else if StartMinute w = EndMinute w then False
      else if weekday = Weekday w \<and> minute \<ge> StartMinute w then True
      else weekday = goRem (Weekday w + 1) 7 \<and> minute < EndMinute w)"

text \<open>
  Wall-clock fields of an instant in a location: the zero time is a Monday (weekday 1), and a local
  day has 86400 seconds on the shifted time line.
\<close>

definition localSeconds :: "(int \<Rightarrow> int) \<Rightarrow> Time \<Rightarrow> int" where
  "localSeconds offset t = t div nanosPerSecond + offset t"

definition localWeekday :: "(int \<Rightarrow> int) \<Rightarrow> Time \<Rightarrow> int" where
  "localWeekday offset t = (localSeconds offset t div 86400 + 1) mod 7"

definition localHour :: "(int \<Rightarrow> int) \<Rightarrow> Time \<Rightarrow> int" where
  "localHour offset t = localSeconds offset t mod 86400 div 3600"

definition localMinute :: "(int \<Rightarrow> int) \<Rightarrow> Time \<Rightarrow> int" where
  "localMinute offset t = localSeconds offset t mod 3600 div 60"

definition evaluateSchedule :: "env \<Rightarrow> ScheduleStrategy \<Rightarrow> StrategyInput \<Rightarrow> StrategyResult res" where
  "evaluateSchedule env s input = (let now = ctxTime (siContext input) in
     if now = 0 then missingTime ''schedule requires explicit context time''
     else case loadLocation env (scLocation s) of
       None \<Rightarrow> Inl (ErrMsg ''load location'')
     | Some location \<Rightarrow>
         let minute = localHour location now * 60 + localMinute location now
         in Inr \<lparr> srMatch = list_ex (\<lambda>w. weeklyWindowMatches w (localWeekday location now) minute)
                              (scWindows s),
                  srReason = ReasonSchedule, srDiagnostics = [] \<rparr>)"

section \<open>Typed facts\<close>

definition validateFactStrategy :: "Limits \<Rightarrow> FactStrategy \<Rightarrow> err option" where
  "validateFactStrategy limits s =
     (if fsFact s = [] then Some (ErrMsg ''fact name is required'')
      else if vtyp (fsEquals s) = OtherType [] then Some (ErrMsg ''fact comparison value is required'')
      else validateValue limits (fsEquals s))"

definition evaluateFact :: "FactStrategy \<Rightarrow> StrategyInput \<Rightarrow> StrategyResult res" where
  "evaluateFact s input = (case map_of (Facts (siContext input)) (fsFact s) of
     None \<Rightarrow>
       Inr \<lparr> srMatch = False, srReason = ReasonTargetingMatch,
             srDiagnostics = [\<lparr> dgCode = ''missing_fact'',
               dgMessage = ''required typed fact is absent'' \<rparr>] \<rparr>
   | Some v \<Rightarrow>
       Inr \<lparr> srMatch = equalValue v (fsEquals s), srReason = ReasonTargetingMatch,
             srDiagnostics = [] \<rparr>)"

section \<open>Dispatch through the interface\<close>

fun ValidateStrategy :: "env \<Rightarrow> Limits \<Rightarrow> Strategy \<Rightarrow> err option" where
  "ValidateStrategy env limits (Exact s) = validateExact env limits s"
| "ValidateStrategy env limits (Percentage s) = validatePercentage s"
| "ValidateStrategy env limits (Sets s) = validateSet limits s"
| "ValidateStrategy env limits (TimeWindow s) = validateTimeWindow s"
| "ValidateStrategy env limits (Schedule s) = validateSchedule env limits s"
| "ValidateStrategy env limits (Fact s) = validateFactStrategy limits s"
| "ValidateStrategy env limits (Custom s) = csValidate s limits"
| "ValidateStrategy env limits NilStrategy = Some ErrNilPanic"

fun EvaluateStrategy :: "env \<Rightarrow> Strategy \<Rightarrow> StrategyInput \<Rightarrow> StrategyResult res" where
  "EvaluateStrategy env (Exact s) input = evaluateExact s input"
| "EvaluateStrategy env (Percentage s) input = evaluatePercentage s input"
| "EvaluateStrategy env (Sets s) input = evaluateSet s input"
| "EvaluateStrategy env (TimeWindow s) input = evaluateTimeWindow s input"
| "EvaluateStrategy env (Schedule s) input = evaluateSchedule env s input"
| "EvaluateStrategy env (Fact s) input = evaluateFact s input"
| "EvaluateStrategy env (Custom s) input = csEvaluate s input"
| "EvaluateStrategy env NilStrategy input = Inl ErrNilPanic"

text \<open>
  \<^verbatim>\<open>SnapshotStrategy\<close> copies the slices, maps and values a strategy holds. A custom implementation
  must return a value that behaves as the original, so its snapshot is itself.
\<close>

fun SnapshotStrategy :: "Strategy \<Rightarrow> Strategy" where
  "SnapshotStrategy (Exact s) = Exact (s\<lparr> etTenants := etTenants s, etSubjects := etSubjects s,
     etEnvironments := etEnvironments s, etAttributes := etAttributes s \<rparr>)"
| "SnapshotStrategy (Percentage s) = Percentage s"
| "SnapshotStrategy (Sets s) = Sets (s\<lparr> ssAllowTenants := ssAllowTenants s,
     ssDenyTenants := ssDenyTenants s, ssAllowSubjects := ssAllowSubjects s,
     ssDenySubjects := ssDenySubjects s \<rparr>)"
| "SnapshotStrategy (TimeWindow s) = TimeWindow s"
| "SnapshotStrategy (Schedule s) = Schedule (s\<lparr> scWindows := scWindows s \<rparr>)"
| "SnapshotStrategy (Fact s) = Fact (s\<lparr> fsEquals := cloneValue (fsEquals s) \<rparr>)"
| "SnapshotStrategy (Custom s) = Custom s"
| "SnapshotStrategy NilStrategy = NilStrategy"

lemma SnapshotStrategy_id [simp]: "SnapshotStrategy s = s"
  by (cases s) simp_all

end
