(* ===== verification/Strategy_Laws.thy ===== *)
theory Strategy_Laws
  imports Strategies
begin

text \<open>
  What the built-in strategies guarantee: rollouts grow monotonically with their threshold, weekly
  windows are intervals of the circular week, deny lists win, and a strategy that was validated
  against the time-zone database in force never fails when it is evaluated.
\<close>

definition matched :: "StrategyResult res \<Rightarrow> bool" where
  "matched r = (case r of Inl _ \<Rightarrow> False | Inr x \<Rightarrow> srMatch x)"

section \<open>Percentage rollout\<close>

lemma matched_percentage_iff:
  "matched (evaluatePercentage s input) \<longleftrightarrow>
     Tenant (siContext input) \<noteq> [] \<and> Subject (siContext input) \<noteq> [] \<and>
     Bucket (pcSeed s) (siFeatureKey input) (Tenant (siContext input)) (Subject (siContext input))
       < pcThreshold s"
  by (simp add: matched_def evaluatePercentage_def Let_def)

lemma Bucket_word_less: "Bucket seed key tenant subject < 100000"
  using Bucket_less [of seed key tenant subject] by (simp add: word_less_nat_alt)

text \<open>
  C8. A percentage rollout selects an input exactly when it has a tenant and a subject whose bucket
  lies below the threshold. Raising the threshold therefore never removes a subject that was already
  selected, a threshold of 0 selects nobody, and a threshold of 100000 selects every input that has
  a tenant and a subject.
\<close>

theorem percentage_rollout:
  assumes "pcThreshold s \<le> t"
  shows "(matched (evaluatePercentage s input) \<longleftrightarrow>
            Tenant (siContext input) \<noteq> [] \<and> Subject (siContext input) \<noteq> [] \<and>
            Bucket (pcSeed s) (siFeatureKey input) (Tenant (siContext input))
              (Subject (siContext input)) < pcThreshold s) \<and>
         (matched (evaluatePercentage s input) \<longrightarrow>
            matched (evaluatePercentage (s\<lparr> pcThreshold := t \<rparr>) input)) \<and>
         \<not> matched (evaluatePercentage (s\<lparr> pcThreshold := 0 \<rparr>) input) \<and>
         (matched (evaluatePercentage (s\<lparr> pcThreshold := 100000 \<rparr>) input) \<longleftrightarrow>
            Tenant (siContext input) \<noteq> [] \<and> Subject (siContext input) \<noteq> [])"
  using assms Bucket_word_less by (auto simp: matched_percentage_iff)

definition exampleRollout :: "32 word \<Rightarrow> PercentageStrategy" where
  "exampleRollout t = \<lparr> pcName = ''ramp'', pcVariant = ''on'', pcSeed = ''v1'', pcThreshold = t \<rparr>"

definition exampleInput :: "Time \<Rightarrow> StrategyInput" where
  "exampleInput t = \<lparr> siFeatureKey = ''checkout'', siContext = \<lparr> Subject = ''u1'', Tenant = ''acme'',
     Environment = ''prod'', Attributes = [], Facts = [], ctxTime = t \<rparr> \<rparr>"

theorem percentage_rollout_witness:
  "matched (evaluatePercentage (exampleRollout 100000) (exampleInput 0)) \<and>
   \<not> matched (evaluatePercentage (exampleRollout 0) (exampleInput 0)) \<and>
   Bucket ''v1'' ''checkout'' ''acme'' ''u1'' < 100000"
  using percentage_rollout [of "exampleRollout 100000" 100000 "exampleInput 0"]
  by (auto simp: exampleRollout_def exampleInput_def)

section \<open>Weekly schedules\<close>

text \<open>The reference reading of a window: an interval of the circular week of 10080 minutes.\<close>

definition windowLength :: "WeeklyWindow \<Rightarrow> int" where
  "windowLength w =
     (if StartMinute w < EndMinute w then EndMinute w - StartMinute w
      else EndMinute w - StartMinute w + 1440)"

definition inWeeklyWindow :: "WeeklyWindow \<Rightarrow> int \<Rightarrow> int \<Rightarrow> bool" where
  "inWeeklyWindow w weekday minute \<longleftrightarrow>
     ((weekday * 1440 + minute) - (Weekday w * 1440 + StartMinute w)) mod 10080 < windowLength w"

lemma week_distance:
  fixes d wd m s :: int
  assumes "0 \<le> d" "d < 7" "0 \<le> wd" "wd < 7" "0 \<le> m" "m < 1440" "0 \<le> s" "s < 1440"
  shows "((d * 1440 + m) - (wd * 1440 + s)) mod 10080 =
    (if (d - wd) * 1440 + m < s then (d - wd) * 1440 + m - s + 10080 else (d - wd) * 1440 + m - s)"
proof -
  define x where "x = (d - wd) * 1440 + m - s"
  have eq: "(d * 1440 + m) - (wd * 1440 + s) = x"
    by (simp add: x_def)
  have b: "- 10080 \<le> x" "x < 10080"
    using assms by (simp_all add: x_def)
  have "x mod 10080 = (if x < 0 then x + 10080 else x)"
  proof (cases "x < 0")
    case True
    then have "x mod 10080 = (x + 10080) mod 10080" by simp
    also have "\<dots> = x + 10080" using True b by (intro mod_pos_pos_trivial) linarith+
    finally show ?thesis using True by simp
  next
    case False
    then show ?thesis using b by (simp add: mod_pos_pos_trivial)
  qed
  then show ?thesis
    unfolding eq x_def by (simp add: less_diff_eq)
qed

lemma next_weekday: "(0::int) \<le> w \<Longrightarrow> w < 7 \<Longrightarrow> (w + 1) mod 7 = (if w = 6 then 0 else w + 1)"
  by (auto simp: mod_pos_pos_trivial)

lemma week_cases:
  fixes d wd m s e :: int
  assumes "0 \<le> d" "d < 7" "0 \<le> wd" "wd < 7" "0 \<le> m" "m < 1440" "0 \<le> s" "s < 1440"
    and "0 \<le> e" "e \<le> 1440" "s \<noteq> e"
  shows "(if s < e then d = wd \<and> s \<le> m \<and> m < e
     else d = wd \<and> s \<le> m \<or> d = (if wd = 6 then 0 else wd + 1) \<and> m < e) \<longleftrightarrow>
    (if (d - wd) * 1440 + m < s then (d - wd) * 1440 + m - s + 10080
     else (d - wd) * 1440 + m - s) <
      (if s < e then e - s else e - s + 1440)"
proof -
  define k where "k = d - wd"
  have d: "d = wd + k" by (simp add: k_def)
  consider "k = 0" | "k = 1" | "k = -6" | "2 \<le> k" | "-5 \<le> k" "k \<le> -1"
    using assms unfolding k_def by linarith
  then show ?thesis
  proof cases
    case 1
    with assms show ?thesis by (simp add: d)
  next
    case 2
    with assms show ?thesis by (simp add: d)
  next
    case 3
    with assms show ?thesis by (simp add: d)
  next
    case 4
    then have "d \<noteq> wd" "d \<noteq> (if wd = 6 then 0 else wd + 1)" using d assms by auto
    moreover have "2880 \<le> k * 1440" using 4 by simp
    ultimately show ?thesis using assms unfolding k_def by auto
  next
    case 5
    then have "d \<noteq> wd" "d \<noteq> (if wd = 6 then 0 else wd + 1)" using d assms by auto
    moreover have "-7200 \<le> k * 1440" "k * 1440 \<le> - 1440" using 5 by simp_all
    ultimately show ?thesis using assms unfolding k_def by auto
  qed
qed

lemma weeklyWindowMatches_iff:
  assumes "validateWindow w = None" "0 \<le> weekday" "weekday < 7" "0 \<le> minute" "minute < 1440"
  shows "weeklyWindowMatches w weekday minute \<longleftrightarrow> inWeeklyWindow w weekday minute"
proof -
  from assms(1) have w: "0 \<le> Weekday w" "Weekday w < 7" "0 \<le> StartMinute w" "StartMinute w < 1440"
    "0 \<le> EndMinute w" "EndMinute w \<le> 1440" "StartMinute w \<noteq> EndMinute w"
    by (auto simp: validateWindow_def split: if_splits)
  have "weeklyWindowMatches w weekday minute \<longleftrightarrow>
      (if StartMinute w < EndMinute w
       then weekday = Weekday w \<and> StartMinute w \<le> minute \<and> minute < EndMinute w
       else weekday = Weekday w \<and> StartMinute w \<le> minute \<or>
         weekday = (if Weekday w = 6 then 0 else Weekday w + 1) \<and> minute < EndMinute w)"
    using w by (auto simp: weeklyWindowMatches_def goRem_nonneg next_weekday)
  also have "\<dots> \<longleftrightarrow> inWeeklyWindow w weekday minute"
    unfolding inWeeklyWindow_def windowLength_def
      week_distance [OF assms(2,3) w(1,2) assms(4,5) w(3,4)]
    by (rule week_cases [OF assms(2,3) w(1,2) assms(4,5) w(3-7)])
  finally show ?thesis .
qed

lemma localMinuteOfDay:
  "localHour off t * 60 + localMinute off t = localSeconds off t mod 86400 div 60"
proof -
  define x where "x = localSeconds off t mod 86400"
  have "localSeconds off t mod 3600 = x mod 3600"
    by (simp add: x_def mod_mod_cancel)
  moreover have "(q * 60 * 60 + r) div 60 = q * 60 + r div 60" for q r :: int
    by simp
  from this [of "x div 3600" "x mod 3600"]
  have "x div 3600 * 60 + x mod 3600 div 60 = x div 60"
    by (simp only: mult.assoc) simp
  ultimately show ?thesis
    by (simp add: localHour_def localMinute_def x_def)
qed

text \<open>C9. at a nonzero instant, a validated weekly schedule matches exactly when the local wall-clock
  time lies in one of its windows, read as half-open intervals of the circular week of 10080
  minutes that may run past midnight and past Saturday.\<close>

theorem schedule_matches_iff:
  assumes "validateSchedule env limits s = None"
    and "loadLocation env (scLocation s) = Some off"
    and "ctxTime (siContext input) \<noteq> 0"
  shows "matched (evaluateSchedule env s input) \<longleftrightarrow>
    (\<exists>w\<in>set (scWindows s). inWeeklyWindow w (localWeekday off (ctxTime (siContext input)))
       (localSeconds off (ctxTime (siContext input)) mod 86400 div 60))"
proof -
  let ?t = "ctxTime (siContext input)"
  let ?m = "localSeconds off ?t mod 86400 div 60"
  have valid: "validateWindow w = None" if "w \<in> set (scWindows s)" for w
    using assms(1) that by (auto simp: validateSchedule_def firstErr_None_iff split: if_splits)
  have m: "0 \<le> ?m" "?m < 1440"
    using pos_mod_bound [of 86400 "localSeconds off ?t"] by (simp_all add: pos_imp_zdiv_nonneg_iff)
  have d: "0 \<le> localWeekday off ?t" "localWeekday off ?t < 7"
    by (simp_all add: localWeekday_def)
  have "matched (evaluateSchedule env s input) \<longleftrightarrow>
      (\<exists>w\<in>set (scWindows s). weeklyWindowMatches w (localWeekday off ?t) ?m)"
    using assms(2,3)
    by (simp add: matched_def evaluateSchedule_def Let_def list_ex_iff localMinuteOfDay)
  then show ?thesis
    using valid d m weeklyWindowMatches_iff by blast
qed

definition exampleSchedule :: ScheduleStrategy where
  "exampleSchedule = \<lparr> scName = ''night'', scVariant = ''on'', scLocation = ''Etc/UTC'',
     scWindows = [\<lparr> Weekday = 6, StartMinute = 1380, EndMinute = 60 \<rparr>] \<rparr>"

definition exampleEnv :: env where
  "exampleEnv = \<lparr> loadLocation = (\<lambda>name. if name = ''Etc/UTC'' then Some (\<lambda>_. 0) else None),
     rangeOrder = insertionOrder \<rparr>"

lemma wfEnv_exampleEnv [simp]: "wfEnv exampleEnv"
  by (rule wfEnv_insertionOrder) (simp add: exampleEnv_def)

lemma rng_exampleEnv [simp]: "rng exampleEnv m = m"
  by (rule rng_insertionOrder) (simp add: exampleEnv_def)

text \<open>Sunday 00:30 UTC, in the window that starts on Saturday at 23:00.\<close>

theorem schedule_matches_iff_witness:
  "matched (evaluateSchedule exampleEnv exampleSchedule (exampleInput (((6 * 24) * 60 + 30) * 60 * 1000000000)))"
proof -
  have "validateSchedule exampleEnv DefaultLimits exampleSchedule = None"
    and "loadLocation exampleEnv (scLocation exampleSchedule) = Some (\<lambda>_. 0)"
    by (simp_all add: validateSchedule_def exampleSchedule_def exampleEnv_def validateWindow_def
        DefaultLimits_def)
  then show ?thesis
    by (subst schedule_matches_iff [where limits = DefaultLimits and off = "\<lambda>_. 0"])
      (simp_all add: exampleInput_def exampleSchedule_def inWeeklyWindow_def windowLength_def
        localWeekday_def localSeconds_def nanosPerSecond_def)
qed

section \<open>Allow and deny sets\<close>

lemma matched_set_iff:
  "matched (evaluateSet s input) \<longleftrightarrow>
     Tenant (siContext input) \<notin> set (ssDenyTenants s) \<and>
     Subject (siContext input) \<notin> set (ssDenySubjects s) \<and>
     (ssAllowTenants s = [] \<or> Tenant (siContext input) \<in> set (ssAllowTenants s)) \<and>
     (ssAllowSubjects s = [] \<or> Subject (siContext input) \<in> set (ssAllowSubjects s))"
  by (auto simp: matched_def evaluateSet_def Let_def listed_iff listedOrUnrestricted_iff)

section \<open>Validated strategies do not fail\<close>

fun isCustom :: "Strategy \<Rightarrow> bool" where
  "isCustom (Custom _) = True"
| "isCustom _ = False"

lemma builtin_evaluates:
  assumes "ValidateStrategy env limits s = None" "\<not> isCustom s"
  shows "\<exists>r. EvaluateStrategy env s input = Inr r"
  using assms
  by (cases s)
    (auto simp: evaluateExact_def evaluatePercentage_def evaluateSet_def evaluateTimeWindow_def
      evaluateSchedule_def evaluateFact_def missingTime_def validateSchedule_def Let_def
      split: option.splits if_splits)

end
