(* ===== verification/Definitions.thy ===== *)
theory Definitions
  imports Strategy_Laws
begin

text \<open>
  \<^verbatim>\<open>definition.go\<close>: features, their dependencies and groups, and the validation of one definition;
  with \<^verbatim>\<open>cloneDefinition\<close> of \<^verbatim>\<open>evaluate.go\<close> and \<^verbatim>\<open>cloneGroup\<close> of \<^verbatim>\<open>memory.go\<close>. A nil slice or map
  is the empty list.
\<close>

datatype Lifecycle =
    LifecycleDraft
  | LifecycleActive
  | LifecycleInactive
  | LifecycleDeprecated
  | LifecycleArchived
  | OtherLifecycle string

record Dependency =
  FeatureKey :: string
  RequiredVariant :: string

record Definition =
  dKey :: string
  dType :: Type
  dDefault :: Value
  dVariants :: "Value gomap"
  dMetadata :: "string gomap"
  dOwner :: string
  dLifecycle :: Lifecycle
  dDependencies :: "Dependency list"
  dGroups :: "string list"
  dTags :: "string list"
  dVersion :: "64 word"
  dStrategies :: "Strategy list"

record GroupDefinition =
  gKey :: string
  gParent :: string
  gMetadata :: "string gomap"
  gOwner :: string
  gTags :: "string list"
  gVersion :: "64 word"
  gStrategies :: "Strategy list"

section \<open>Validation of one definition\<close>

definition validateDependencyRef :: "Limits \<Rightarrow> Dependency \<Rightarrow> err option" where
  "validateDependencyRef limits d =
     check (FeatureKey d = [] \<or> RequiredVariant d = [] \<or>
            len (FeatureKey d) > MaxKeyBytes limits \<or> len (RequiredVariant d) > MaxKeyBytes limits)
       ''dependency requires feature key and variant''"

definition validateKeyBytes :: "Limits \<Rightarrow> string \<Rightarrow> string \<Rightarrow> err option" where
  "validateKeyBytes limits message key = check (key = [] \<or> len key > MaxKeyBytes limits) message"

definition validateVariant :: "Limits \<Rightarrow> Type \<Rightarrow> string \<times> Value \<Rightarrow> err option" where
  "validateVariant limits t nv = seqErr [
     validateKeyBytes limits ''variant name is invalid'' (fst nv),
     validateValue limits (snd nv),
     check (vtyp (snd nv) \<noteq> t) ''variant has wrong type'']"

definition validateFeatureStrategy :: "env \<Rightarrow> Limits \<Rightarrow> Value gomap \<Rightarrow> Strategy \<Rightarrow> err option" where
  "validateFeatureStrategy env limits variants s = seqErr [
     check (isNilStrategy s) ''strategy is nil'',
     validateKeyBytes limits ''strategy name is invalid'' (StrategyName s),
     check (\<not> hasKey variants (TargetVariant s)) ''strategy targets unknown variant'',
     ValidateStrategy env limits s]"

definition validateMetadataEntry :: "Limits \<Rightarrow> string \<times> string \<Rightarrow> err option" where
  "validateMetadataEntry limits kv =
     check (fst kv = [] \<or> len (fst kv) > MaxKeyBytes limits \<or> len (snd kv) > MaxStringBytes limits)
       ''metadata entry exceeds configured bounds''"

definition ValidateDefinition :: "env \<Rightarrow> Limits \<Rightarrow> Definition \<Rightarrow> err option" where
  "ValidateDefinition env limits d = seqErr [
     validateKeyBytes limits ''feature key is required and must not exceed limit'' (dKey d),
     validateValue limits (dDefault d),
     check (vtyp (dDefault d) \<noteq> dType d) ''default has wrong type'',
     check (len (dVariants d) > MaxVariants limits) ''variants exceed limit'',
     check (len (dMetadata d) > MaxMetadata limits) ''metadata entries exceed limit'',
     check (len (dOwner d) > MaxStringBytes limits) ''owner exceeds limit'',
     check (len (dTags d) > MaxTags limits) ''tags exceed limit'',
     check (len (dStrategies d) > MaxStrategies limits) ''strategies exceed limit'',
     check (len (dDependencies d) > MaxDependencies limits) ''dependencies exceed limit'',
     check (len (dGroups d) > MaxGroups limits) ''groups exceed limit'',
     firstErr (validateDependencyRef limits) (dDependencies d),
     firstErr (validateKeyBytes limits ''group exceeds configured bounds'') (dGroups d),
     firstErr (validateVariant limits (dType d)) (rng env (dVariants d)),
     firstErr (validateFeatureStrategy env limits (dVariants d)) (dStrategies d),
     firstErr (validateMetadataEntry limits) (rng env (dMetadata d)),
     firstErr (validateKeyBytes limits ''tag exceeds configured bounds'') (dTags d)]"

section \<open>Copies\<close>

definition cloneDefinition :: "Definition \<Rightarrow> Definition" where
  "cloneDefinition d = d\<lparr>
     dDefault := cloneValue (dDefault d),
     dVariants := map (\<lambda>(name, variant). (name, cloneValue variant)) (dVariants d),
     dMetadata := dMetadata d,
     dDependencies := dDependencies d,
     dGroups := dGroups d,
     dTags := dTags d,
     dStrategies := map SnapshotStrategy (dStrategies d) \<rparr>"

definition cloneGroup :: "GroupDefinition \<Rightarrow> GroupDefinition" where
  "cloneGroup g = g\<lparr>
     gMetadata := gMetadata g,
     gTags := gTags g,
     gStrategies := map SnapshotStrategy (gStrategies g) \<rparr>"

lemma cloneDefinition_id [simp]: "cloneDefinition d = d"
  by (simp add: cloneDefinition_def case_prod_beta' map_idI)

lemma cloneGroup_id [simp]: "cloneGroup g = g"
  by (simp add: cloneGroup_def map_idI)

section \<open>What validation guarantees\<close>

text \<open>The order-free content of a successful validation.\<close>

definition typedDefinition :: "Limits \<Rightarrow> Definition \<Rightarrow> bool" where
  "typedDefinition limits d \<longleftrightarrow>
     dKey d \<noteq> [] \<and> len (dKey d) \<le> MaxKeyBytes limits \<and>
     vtyp (dDefault d) = dType d \<and> validateValue limits (dDefault d) = None \<and>
     (\<forall>(n, v)\<in>set (dVariants d). n \<noteq> [] \<and> vtyp v = dType d \<and> validateValue limits v = None) \<and>
     (\<forall>dep\<in>set (dDependencies d). FeatureKey dep \<noteq> [] \<and> RequiredVariant dep \<noteq> []) \<and>
     (\<forall>g\<in>set (dGroups d). g \<noteq> [])"

definition soundStrategies :: "env \<Rightarrow> Limits \<Rightarrow> Value gomap \<Rightarrow> Strategy list \<Rightarrow> bool" where
  "soundStrategies env limits variants ss \<longleftrightarrow>
     (\<forall>s\<in>set ss. s \<noteq> NilStrategy \<and> hasKey variants (TargetVariant s) \<and>
        ValidateStrategy env limits s = None)"

lemmas validation_defs =
  validateDependencyRef_def validateKeyBytes_def validateVariant_def validateFeatureStrategy_def
  validateMetadataEntry_def

lemma ValidateDefinition_typed:
  assumes "wfEnv env" "ValidateDefinition env limits d = None"
  shows "typedDefinition limits d"
  using assms
  by (auto simp: ValidateDefinition_def typedDefinition_def seqErr_None_iff firstErr_None_iff
      validation_defs)

lemma ValidateDefinition_strategies:
  assumes "ValidateDefinition env limits d = None"
  shows "soundStrategies env limits (dVariants d) (dStrategies d)"
  using assms
  by (auto simp: ValidateDefinition_def soundStrategies_def seqErr_None_iff firstErr_None_iff
      validation_defs)

lemma ValidateDefinition_version [simp]:
  "ValidateDefinition env limits (d\<lparr> dVersion := v \<rparr>) = ValidateDefinition env limits d"
  by (simp add: ValidateDefinition_def)

lemma ValidateDefinition_lifecycle [simp]:
  "ValidateDefinition env limits (d\<lparr> dLifecycle := l \<rparr>) = ValidateDefinition env limits d"
  by (simp add: ValidateDefinition_def)

lemma typedDefinition_variant:
  assumes "typedDefinition limits d" "map_of (dVariants d) n = Some v"
  shows "n \<noteq> [] \<and> vtyp v = dType d \<and> validateValue limits v = None"
  using assms by (auto simp: typedDefinition_def dest!: map_of_SomeD)

end
