(* ===== verification/Snapshots.thy ===== *)
theory Snapshots
  imports Definitions
begin

text \<open>
  Snapshot construction of \<^verbatim>\<open>evaluate.go\<close>: \<^verbatim>\<open>NewSnapshotWithGroups\<close> with the validation of the
  dependency graph (a depth-first search that shares one \<^verbatim>\<open>visited\<close> set between all roots) and of
  the group inheritance graph.
\<close>

record Snapshot =
  snDefinitions :: "Definition gomap"
  snGroups :: "GroupDefinition gomap"
  snTenant :: string
  snLimits :: Limits

section \<open>The dependency graph\<close>

text \<open>Reading a missing key of a Go map gives the zero definition, which has no dependencies.\<close>

definition dependenciesOf :: "Definition gomap \<Rightarrow> string \<Rightarrow> Dependency list" where
  "dependenciesOf defs key = (case map_of defs key of None \<Rightarrow> [] | Some d \<Rightarrow> dDependencies d)"

definition validateDependencyTarget :: "Definition gomap \<Rightarrow> Dependency \<Rightarrow> err option" where
  "validateDependencyTarget defs dep =
     (case map_of defs (FeatureKey dep) of
        None \<Rightarrow> Some ErrNotFound
      | Some target \<Rightarrow> check (\<not> hasKey (dVariants target) (RequiredVariant dep))
          ''dependency requires unknown variant'')"

text \<open>
  The closure \<^verbatim>\<open>visit\<close>. A key is on the \<^verbatim>\<open>visiting\<close> path exactly while its dependencies are
  visited, so the path is an argument; \<^verbatim>\<open>visited\<close> only grows and is returned. An error ends the
  whole search.
\<close>

function (sequential)
  visit :: "Limits \<Rightarrow> Definition gomap \<Rightarrow> string \<Rightarrow> int \<Rightarrow> string list \<Rightarrow> string list \<Rightarrow> string list res" and
  visitDependencies ::
    "Limits \<Rightarrow> Definition gomap \<Rightarrow> Dependency list \<Rightarrow> int \<Rightarrow> string list \<Rightarrow> string list \<Rightarrow> string list res"
where
  "visit limits defs key depth visiting visited =
     (if depth > MaxEvaluationDepth limits then Inl (ErrMsg ''dependency depth exceeds limit'')
      else if key \<in> set visiting then Inl ErrDependencyCycle
      else if key \<in> set visited then Inr visited
      else rbind (visitDependencies limits defs (dependenciesOf defs key) (depth + 1)
                    (key # visiting) visited)
             (\<lambda>visited'. Inr (key # visited')))"
| "visitDependencies limits defs [] depth visiting visited = Inr visited"
| "visitDependencies limits defs (dep # deps) depth visiting visited =
     rbind (visit limits defs (FeatureKey dep) depth visiting visited)
       (visitDependencies limits defs deps depth visiting)"
  by pat_completeness auto
termination
  by (relation "measures [\<lambda>c. case c of Inl (limits, defs, key, depth, _) \<Rightarrow> nat (MaxEvaluationDepth limits + 1 - depth)
                                    | Inr (limits, defs, deps, depth, _) \<Rightarrow> nat (MaxEvaluationDepth limits + 1 - depth),
                          \<lambda>c. case c of Inl _ \<Rightarrow> 0 | Inr (limits, defs, deps, _) \<Rightarrow> Suc (length deps)]")
    auto

declare visit.simps [simp del]

fun visitRoots :: "Limits \<Rightarrow> Definition gomap \<Rightarrow> string list \<Rightarrow> string list \<Rightarrow> string list res" where
  "visitRoots limits defs [] visited = Inr visited"
| "visitRoots limits defs (key # keys) visited =
     rbind (visit limits defs key 0 [] visited) (visitRoots limits defs keys)"

definition validateDependencyGraph :: "env \<Rightarrow> Definition gomap \<Rightarrow> Limits \<Rightarrow> err option" where
  "validateDependencyGraph env defs limits =
     orElseErr
       (firstErr (\<lambda>(key, d). firstErr (validateDependencyTarget defs) (dDependencies d)) (rng env defs))
       (case visitRoots limits defs (map fst (rng env defs)) [] of
          Inl e \<Rightarrow> Some e
        | Inr _ \<Rightarrow> None)"

section \<open>Groups\<close>

definition parentOf :: "GroupDefinition gomap \<Rightarrow> string \<Rightarrow> string" where
  "parentOf groups key = (case map_of groups key of None \<Rightarrow> [] | Some g \<Rightarrow> gParent g)"

definition groupStrategiesOf :: "GroupDefinition gomap \<Rightarrow> string \<Rightarrow> Strategy list" where
  "groupStrategiesOf groups key = (case map_of groups key of None \<Rightarrow> [] | Some g \<Rightarrow> gStrategies g)"

definition validateGroupStrategy :: "env \<Rightarrow> Limits \<Rightarrow> Strategy \<Rightarrow> err option" where
  "validateGroupStrategy env limits s = seqErr [
     check (isNilStrategy s) ''strategy is nil'',
     validateKeyBytes limits ''strategy name is invalid'' (StrategyName s),
     validateKeyBytes limits ''strategy target is invalid'' (TargetVariant s),
     ValidateStrategy env limits s]"

definition validateGroup :: "env \<Rightarrow> Limits \<Rightarrow> GroupDefinition gomap \<Rightarrow> GroupDefinition \<Rightarrow> err option" where
  "validateGroup env limits cloned g = seqErr [
     validateKeyBytes limits ''group key is required and must not exceed limit'' (gKey g),
     check (len (gParent g) > MaxKeyBytes limits) ''parent exceeds configured bounds'',
     check (len (gOwner g) > MaxStringBytes limits) ''owner exceeds configured bounds'',
     check (len (gMetadata g) > MaxMetadata limits) ''metadata entries exceed limit'',
     check (len (gTags g) > MaxTags limits) ''tags exceed limit'',
     check (hasKey cloned (gKey g)) ''duplicate group'',
     check (len (gStrategies g) > MaxStrategies limits) ''strategies exceed limit'',
     firstErr (validateMetadataEntry limits) (rng env (gMetadata g)),
     firstErr (validateKeyBytes limits ''tag exceeds configured bounds'') (gTags g),
     firstErr (validateGroupStrategy env limits) (gStrategies g)]"

fun cloneGroups ::
  "env \<Rightarrow> Limits \<Rightarrow> GroupDefinition list \<Rightarrow> GroupDefinition gomap \<Rightarrow> GroupDefinition gomap res" where
  "cloneGroups env limits [] cloned = Inr cloned"
| "cloneGroups env limits (g # gs) cloned =
     guardErr (validateGroup env limits cloned g)
       (cloneGroups env limits gs (AList.update (gKey g) (cloneGroup g) cloned))"

text \<open>The walk from one group to its root in \<^verbatim>\<open>validateGroupGraph\<close>.\<close>

function groupWalk ::
  "Limits \<Rightarrow> GroupDefinition gomap \<Rightarrow> string \<Rightarrow> string list \<Rightarrow> int \<Rightarrow> err option" where
  "groupWalk limits groups current visiting depth =
     (if current = [] then None
      else if depth > MaxGroupDepth limits then Some (ErrMsg ''inheritance depth exceeds limit'')
      else if current \<in> set visiting then Some ErrGroupCycle
      else groupWalk limits groups (parentOf groups current) (current # visiting) (depth + 1))"
  by pat_completeness auto
termination
  by (relation "measure (\<lambda>(limits, groups, current, visiting, depth). nat (MaxGroupDepth limits + 1 - depth))")
    auto

declare groupWalk.simps [simp del]

definition validateGroupGraph :: "env \<Rightarrow> GroupDefinition gomap \<Rightarrow> Limits \<Rightarrow> err option" where
  "validateGroupGraph env groups limits =
     firstErr (\<lambda>(key, g). groupWalk limits groups key [] 0) (rng env groups)"

text \<open>
  The loop \<^verbatim>\<open>for current := groupKey; current != ""; current = cloned[current].Parent\<close> visits the keys of
  \<open>parentChain\<close>. The code runs it on a graph that \<^verbatim>\<open>validateGroupGraph\<close> accepted, where a
  chain has at most \<^verbatim>\<open>MaxGroupDepth\<close> + 1 groups; that is the fuel, and \<open>parentChain_stable\<close> below
  shows that more fuel gives the same list.
\<close>

fun parentChain :: "nat \<Rightarrow> GroupDefinition gomap \<Rightarrow> string \<Rightarrow> string list" where
  "parentChain 0 groups current = []"
| "parentChain (Suc n) groups current =
     (if current = [] then [] else current # parentChain n groups (parentOf groups current))"

definition validateFeatureGroup ::
  "Limits \<Rightarrow> GroupDefinition gomap \<Rightarrow> Definition \<Rightarrow> string \<Rightarrow> err option" where
  "validateFeatureGroup limits cloned d groupKey =
     (if \<not> hasKey cloned groupKey then Some ErrNotFound
      else firstErr (\<lambda>current. firstErr
               (\<lambda>s. check (\<not> hasKey (dVariants d) (TargetVariant s)) ''group strategy targets unknown variant'')
               (groupStrategiesOf cloned current))
             (parentChain (nat (MaxGroupDepth limits + 1)) cloned groupKey))"

definition cloneAndValidateGroups ::
  "env \<Rightarrow> Definition gomap \<Rightarrow> GroupDefinition list \<Rightarrow> Limits \<Rightarrow> GroupDefinition gomap res" where
  "cloneAndValidateGroups env defs groups limits =
     (if len groups > MaxGroups limits then Inl (ErrMsg ''group definitions exceed limit'')
      else rbind (cloneGroups env limits groups []) (\<lambda>cloned.
        guardErr (seqErr [
          firstErr (\<lambda>(key, g). if gParent g \<noteq> [] \<and> \<not> hasKey cloned (gParent g) then Some ErrNotFound else None)
            (rng env cloned),
          validateGroupGraph env cloned limits,
          firstErr (\<lambda>(key, d). firstErr (validateFeatureGroup limits cloned d) (dGroups d)) (rng env defs)])
          (Inr cloned)))"

section \<open>Construction\<close>

fun cloneDefinitions ::
  "env \<Rightarrow> Limits \<Rightarrow> Definition list \<Rightarrow> Definition gomap \<Rightarrow> Definition gomap res" where
  "cloneDefinitions env limits [] cloned = Inr cloned"
| "cloneDefinitions env limits (d # ds) cloned =
     guardErr (ValidateDefinition env limits d)
       (if hasKey cloned (dKey d) then Inl (ErrMsg ''duplicate feature'')
        else cloneDefinitions env limits ds (AList.update (dKey d) (cloneDefinition d) cloned))"

definition NewSnapshotWithGroups ::
  "env \<Rightarrow> Definition list \<Rightarrow> GroupDefinition list \<Rightarrow> Limits \<Rightarrow> Snapshot res" where
  "NewSnapshotWithGroups env defs groups limits =
     (if len defs > MaxFeatures limits then Inl (ErrMsg ''features exceed limit'')
      else rbind (cloneDefinitions env limits defs []) (\<lambda>cloned.
        guardErr (validateDependencyGraph env cloned limits)
          (rbind (cloneAndValidateGroups env cloned groups limits) (\<lambda>clonedGroups.
            Inr \<lparr> snDefinitions = cloned, snGroups = clonedGroups, snTenant = [], snLimits = limits \<rparr>))))"

definition NewSnapshot :: "env \<Rightarrow> Definition list \<Rightarrow> Limits \<Rightarrow> Snapshot res" where
  "NewSnapshot env defs limits = NewSnapshotWithGroups env defs [] limits"

definition bindTenant :: "Snapshot \<Rightarrow> string \<Rightarrow> Snapshot" where
  "bindTenant s t = s\<lparr> snTenant := t \<rparr>"

lemma bindTenant_simps [simp]:
  "snDefinitions (bindTenant s t) = snDefinitions s"
  "snGroups (bindTenant s t) = snGroups s"
  "snTenant (bindTenant s t) = t"
  "snLimits (bindTenant s t) = snLimits s"
  by (simp_all add: bindTenant_def)

end
