(* ===== verification/Snapshot_Laws.thy ===== *)
theory Snapshot_Laws
  imports Snapshots
begin

text \<open>
  What an accepted snapshot guarantees: every feature is well typed, every reference resolves, the
  dependency relation is acyclic, every inheritance chain ends within the configured depth and
  every strategy a feature can reach targets one of its variants.
\<close>

section \<open>The depth-first search finds a topological order\<close>

fun topological :: "Definition gomap \<Rightarrow> string list \<Rightarrow> bool" where
  "topological defs [] = True"
| "topological defs (k # ks) \<longleftrightarrow>
     k \<notin> set ks \<and> FeatureKey ` set (dependenciesOf defs k) \<subseteq> set ks \<and> topological defs ks"

lemma visit_topological:
  "visit limits defs key depth visiting visited = Inr v \<Longrightarrow> topological defs visited \<Longrightarrow>
     topological defs v \<and> key \<in> set v \<and> (\<exists>new. v = new @ visited \<and> set new \<inter> set visiting = {})"
  "visitDependencies limits defs deps depth visiting visited = Inr v \<Longrightarrow> topological defs visited \<Longrightarrow>
     topological defs v \<and> FeatureKey ` set deps \<subseteq> set v \<and>
     (\<exists>new. v = new @ visited \<and> set new \<inter> set visiting = {})"
proof (induction limits defs key depth visiting visited and limits defs deps depth visiting visited
    arbitrary: v and v rule: visit_visitDependencies.induct)
  case (1 limits defs key depth visiting visited)
  show ?case
  proof (cases "key \<in> set visited")
    case True
    then show ?thesis
      using 1(2,3) by (subst (asm) visit.simps) (auto split: if_splits)
  next
    case False
    then obtain v' where v': "visitDependencies limits defs (dependenciesOf defs key) (depth + 1)
        (key # visiting) visited = Inr v'" "v = key # v'" "\<not> MaxEvaluationDepth limits < depth"
        "key \<notin> set visiting"
      using 1(2) by (subst (asm) visit.simps) (auto simp: rbind_eq_Inr split: if_splits)
    then have "topological defs v'" "FeatureKey ` set (dependenciesOf defs key) \<subseteq> set v'"
        "\<exists>new. v' = new @ visited \<and> set new \<inter> set (key # visiting) = {}"
      using 1(1) [OF v'(3,4) False v'(1) 1(3)] by simp_all
    then show ?thesis
      using v'(2,4) False by auto
  qed
next
  case (2 limits defs depth visiting visited)
  then show ?case by simp
next
  case (3 limits defs dep deps depth visiting visited)
  then obtain w where w: "visit limits defs (FeatureKey dep) depth visiting visited = Inr w"
      "visitDependencies limits defs deps depth visiting w = Inr v"
    by (auto simp: rbind_eq_Inr)
  have v: "topological defs w" "FeatureKey dep \<in> set w"
      "\<exists>new. w = new @ visited \<and> set new \<inter> set visiting = {}"
    using 3(1) [OF w(1) 3(4)] by simp_all
  moreover have "topological defs v" "FeatureKey ` set deps \<subseteq> set v"
      "\<exists>new. v = new @ w \<and> set new \<inter> set visiting = {}"
    using 3(2) [OF w(1) w(2) v(1)] by simp_all
  ultimately show ?case by auto
qed

lemma visitRoots_topological:
  "visitRoots limits defs keys visited = Inr v \<Longrightarrow> topological defs visited \<Longrightarrow>
     topological defs v \<and> set keys \<subseteq> set v \<and> set visited \<subseteq> set v"
proof (induction keys arbitrary: visited)
  case (Cons key keys)
  then obtain w where "visit limits defs key 0 [] visited = Inr w" "visitRoots limits defs keys w = Inr v"
    by (auto simp: rbind_eq_Inr)
  with visit_topological(1) [OF this(1) Cons.prems(2)] Cons.IH [of w] show ?case
    by auto
qed simp

definition dependencyRel :: "Definition gomap \<Rightarrow> (string \<times> string) set" where
  "dependencyRel defs = {(k, FeatureKey dep) | k dep. dep \<in> set (dependenciesOf defs k)}"

fun rank :: "string list \<Rightarrow> string \<Rightarrow> nat" where
  "rank [] k = 0"
| "rank (a # order) k = (if a = k then Suc (length order) else rank order k)"

lemma rank_le: "rank order k \<le> length order"
  by (induction order) auto

lemma topological_closed:
  "topological defs order \<Longrightarrow> k \<in> set order \<Longrightarrow> (k, j) \<in> dependencyRel defs \<Longrightarrow> j \<in> set order"
  by (induction order) (auto simp: dependencyRel_def)

lemma topological_rank:
  assumes "topological defs order" "k \<in> set order" "(k, j) \<in> dependencyRel defs"
  shows "rank order j < rank order k"
  using assms
proof (induction order)
  case (Cons a order)
  then show ?case
    using rank_le [of order j] topological_closed [of defs order k j]
    by (cases "a = k") (auto simp: dependencyRel_def)
qed simp

lemma topological_wf:
  assumes "topological defs order" "fst ` set defs \<subseteq> set order"
  shows "wf ((dependencyRel defs)\<inverse>)"
proof (rule wf_subset [OF wf_measure])
  show "(dependencyRel defs)\<inverse> \<subseteq> measure (rank order)"
  proof clarify
    fix j k assume e: "(k, j) \<in> dependencyRel defs"
    then have "hasKey defs k"
      by (cases "map_of defs k") (auto simp: dependencyRel_def dependenciesOf_def hasKey_def)
    then show "(j, k) \<in> measure (rank order)"
      using topological_rank [OF assms(1) _ e] assms(2) by (auto simp: hasKey_iff)
  qed
qed

section \<open>Group chains\<close>

fun chainEnds :: "nat \<Rightarrow> GroupDefinition gomap \<Rightarrow> string \<Rightarrow> bool" where
  "chainEnds 0 groups current \<longleftrightarrow> current = []"
| "chainEnds (Suc n) groups current \<longleftrightarrow> current = [] \<or> chainEnds n groups (parentOf groups current)"

lemma groupWalk_chainEnds:
  "groupWalk limits groups current visiting depth = None \<Longrightarrow>
     chainEnds (nat (MaxGroupDepth limits + 1 - depth)) groups current"
proof (induction limits groups current visiting depth rule: groupWalk.induct)
  case (1 limits groups current visiting depth)
  show ?case
  proof (cases "current = []")
    case True
    then show ?thesis by (cases "nat (MaxGroupDepth limits + 1 - depth)") simp_all
  next
    case False
    then have *: "\<not> depth > MaxGroupDepth limits" "current \<notin> set visiting"
      "groupWalk limits groups (parentOf groups current) (current # visiting) (depth + 1) = None"
      using 1(2) False by (simp_all add: groupWalk.simps [of limits groups current] split: if_splits)
    have n: "nat (MaxGroupDepth limits + 1 - depth) = Suc (nat (MaxGroupDepth limits + 1 - (depth + 1)))"
      using *(1) by linarith
    show ?thesis
      unfolding n chainEnds.simps using 1(1) [OF False *] by blast
  qed
qed

lemma parentChain_stable:
  "chainEnds n groups k \<Longrightarrow> n \<le> m \<Longrightarrow> parentChain m groups k = parentChain n groups k"
proof (induction n arbitrary: m k)
  case 0
  then show ?case by (cases m) simp_all
next
  case (Suc n)
  then show ?case by (cases m) auto
qed

lemma parentChain_take: "\<exists>n'. parentChain n groups k = take n' (parentChain (n + m) groups k)"
proof (induction n arbitrary: k)
  case 0
  show ?case by (intro exI [of _ 0]) simp
next
  case (Suc n)
  then obtain n' where "parentChain n groups (parentOf groups k) =
      take n' (parentChain (n + m) groups (parentOf groups k))" by blast
  then show ?case by (intro exI [of _ "Suc n'"]) simp
qed

lemma set_parentChain_ends:
  assumes "chainEnds n groups k"
  shows "set (parentChain m groups k) \<subseteq> set (parentChain n groups k)"
proof (cases "n \<le> m")
  case True
  show ?thesis unfolding parentChain_stable [OF assms True] by blast
next
  case False
  then obtain n' where "parentChain m groups k = take n' (parentChain n groups k)"
    using parentChain_take [of m groups k "n - m"] by auto
  then show ?thesis by (simp add: set_take_subset)
qed

section \<open>The copies hold exactly the accepted definitions\<close>

abbreviation byKey :: "Definition list \<Rightarrow> Definition gomap" where
  "byKey ds \<equiv> map (\<lambda>d. (dKey d, d)) ds"

abbreviation groupsByKey :: "GroupDefinition list \<Rightarrow> GroupDefinition gomap" where
  "groupsByKey gs \<equiv> map (\<lambda>g. (gKey g, g)) gs"

lemma cloneDefinitions_iff:
  "cloneDefinitions env limits ds cloned = Inr cloned' \<longleftrightarrow>
     (\<forall>d\<in>set ds. ValidateDefinition env limits d = None) \<and> distinct (map dKey ds) \<and>
     dKey ` set ds \<inter> fst ` set cloned = {} \<and> cloned' = cloned @ byKey ds"
proof (induction ds arbitrary: cloned)
  case (Cons d ds)
  show ?case
  proof (cases "ValidateDefinition env limits d = None \<and> \<not> hasKey cloned (dKey d)")
    case True
    then show ?thesis
      using Cons.IH [of "cloned @ [(dKey d, d)]"] by (auto simp: hasKey_iff set_update_new)
  next
    case False
    then show ?thesis by (auto simp: hasKey_iff guardErr_Inr)
  qed
qed auto

abbreviation validGroup :: "env \<Rightarrow> Limits \<Rightarrow> GroupDefinition \<Rightarrow> bool" where
  "validGroup env limits g \<equiv> validateGroup env limits [] g = None"

lemma validateGroup_iff:
  "validateGroup env limits cloned g = None \<longleftrightarrow> validGroup env limits g \<and> \<not> hasKey cloned (gKey g)"
  by (auto simp: validateGroup_def seqErr_None_iff hasKey_def)

lemma cloneGroups_iff:
  "cloneGroups env limits gs cloned = Inr cloned' \<longleftrightarrow>
     (\<forall>g\<in>set gs. validGroup env limits g) \<and> distinct (map gKey gs) \<and>
     gKey ` set gs \<inter> fst ` set cloned = {} \<and> cloned' = cloned @ groupsByKey gs"
proof (induction gs arbitrary: cloned)
  case (Cons g gs)
  show ?case
  proof (cases "validateGroup env limits cloned g")
    case None
    then show ?thesis
      using Cons.IH [of "cloned @ [(gKey g, g)]"] validateGroup_iff [of env limits cloned g]
      by (auto simp: hasKey_iff set_update_new)
  next
    case (Some e)
    then show ?thesis
      using validateGroup_iff [of env limits cloned g] by (auto simp: hasKey_iff)
  qed
qed auto

section \<open>Well-formed snapshots\<close>

definition resolvedDependencies :: "Definition gomap \<Rightarrow> bool" where
  "resolvedDependencies defs \<longleftrightarrow>
     (\<forall>(k, d)\<in>set defs. \<forall>dep\<in>set (dDependencies d).
        \<exists>target. map_of defs (FeatureKey dep) = Some target \<and>
          hasKey (dVariants target) (RequiredVariant dep))"

definition wfDefinitions :: "env \<Rightarrow> Limits \<Rightarrow> Definition gomap \<Rightarrow> bool" where
  "wfDefinitions env limits defs \<longleftrightarrow>
     distinctKeys defs \<and>
     (\<forall>(k, d)\<in>set defs. dKey d = k \<and> typedDefinition limits d \<and>
        soundStrategies env limits (dVariants d) (dStrategies d)) \<and>
     resolvedDependencies defs \<and> wf ((dependencyRel defs)\<inverse>)"

definition wfGroups :: "Limits \<Rightarrow> GroupDefinition gomap \<Rightarrow> bool" where
  "wfGroups limits groups \<longleftrightarrow>
     distinctKeys groups \<and>
     (\<forall>(k, g)\<in>set groups. gKey g = k \<and> k \<noteq> [] \<and>
        (gParent g \<noteq> [] \<longrightarrow> hasKey groups (gParent g)) \<and>
        chainEnds (nat (MaxGroupDepth limits + 1)) groups k)"

definition wfAssignments :: "env \<Rightarrow> Limits \<Rightarrow> Definition gomap \<Rightarrow> GroupDefinition gomap \<Rightarrow> bool" where
  "wfAssignments env limits defs groups \<longleftrightarrow>
     (\<forall>(k, d)\<in>set defs. \<forall>g\<in>set (dGroups d). hasKey groups g \<and>
        (\<forall>n. \<forall>c\<in>set (parentChain n groups g).
           soundStrategies env limits (dVariants d) (groupStrategiesOf groups c)))"

definition wfSnapshot :: "env \<Rightarrow> Snapshot \<Rightarrow> bool" where
  "wfSnapshot env s \<longleftrightarrow>
     wfDefinitions env (snLimits s) (snDefinitions s) \<and>
     wfGroups (snLimits s) (snGroups s) \<and>
     wfAssignments env (snLimits s) (snDefinitions s) (snGroups s)"

lemma wfSnapshot_bindTenant [simp]: "wfSnapshot env (bindTenant s t) = wfSnapshot env s"
  by (simp add: wfSnapshot_def bindTenant_def)

lemma validateDependencyTarget_None:
  "validateDependencyTarget defs dep = None \<longleftrightarrow>
     (\<exists>target. map_of defs (FeatureKey dep) = Some target \<and>
        hasKey (dVariants target) (RequiredVariant dep))"
  by (auto simp: validateDependencyTarget_def split: option.splits)

lemma validateDependencyGraph_sound:
  assumes "wfEnv env" "validateDependencyGraph env defs limits = None"
  shows "resolvedDependencies defs \<and> wf ((dependencyRel defs)\<inverse>)"
proof
  show "resolvedDependencies defs"
    using assms
    by (auto simp: validateDependencyGraph_def resolvedDependencies_def firstErr_None_iff
        validateDependencyTarget_None)
  obtain order where "visitRoots limits defs (map fst (rng env defs)) [] = Inr order"
    using assms(2) by (auto simp: validateDependencyGraph_def split: sum.splits)
  then have "topological defs order" "fst ` set defs \<subseteq> set order"
    using visitRoots_topological [of limits defs _ "[]" order] assms(1) by fastforce+
  then show "wf ((dependencyRel defs)\<inverse>)"
    by (rule topological_wf)
qed

lemma validGroup_strategies:
  "validGroup env limits g \<Longrightarrow> s \<in> set (gStrategies g) \<Longrightarrow>
     s \<noteq> NilStrategy \<and> ValidateStrategy env limits s = None"
  by (auto simp: validateGroup_def validateGroupStrategy_def seqErr_None_iff firstErr_None_iff)

lemma groupsByKey_key:
  "map_of (groupsByKey gs) k = Some g \<Longrightarrow> g \<in> set gs \<and> gKey g = k"
  by (auto dest!: map_of_SomeD)

lemma validateFeatureGroup_sound:
  assumes "validateFeatureGroup limits groups d g = None"
    and "chainEnds (nat (MaxGroupDepth limits + 1)) groups g"
    and "\<And>c s. s \<in> set (groupStrategiesOf groups c) \<Longrightarrow>
          s \<noteq> NilStrategy \<and> ValidateStrategy env limits s = None"
  shows "hasKey groups g \<and> (\<forall>n. \<forall>c\<in>set (parentChain n groups g).
           soundStrategies env limits (dVariants d) (groupStrategiesOf groups c))"
proof -
  have "hasKey groups g" and targets: "\<And>c s. c \<in> set (parentChain (nat (MaxGroupDepth limits + 1)) groups g) \<Longrightarrow>
      s \<in> set (groupStrategiesOf groups c) \<Longrightarrow> hasKey (dVariants d) (TargetVariant s)"
    using assms(1) by (auto simp: validateFeatureGroup_def firstErr_None_iff split: if_splits)
  then show ?thesis
    using set_parentChain_ends [OF assms(2)] assms(3) by (fastforce simp: soundStrategies_def)
qed

lemma cloneAndValidateGroups_Inr:
  "cloneAndValidateGroups env defs gs limits = Inr groups \<longleftrightarrow>
     len gs \<le> MaxGroups limits \<and> groups = groupsByKey gs \<and>
     (\<forall>g\<in>set gs. validGroup env limits g) \<and> distinct (map gKey gs) \<and>
     (\<forall>(k, g)\<in>set (rng env groups). gParent g \<noteq> [] \<longrightarrow> hasKey groups (gParent g)) \<and>
     validateGroupGraph env groups limits = None \<and>
     (\<forall>(k, d)\<in>set (rng env defs). \<forall>g\<in>set (dGroups d). validateFeatureGroup limits groups d g = None)"
  by (auto simp: cloneAndValidateGroups_def rbind_eq_Inr cloneGroups_iff seqErr_None_iff
      firstErr_None_iff guardErr_Inr split: if_splits)

lemma validateGroupGraph_ends:
  assumes "wfEnv env" "validateGroupGraph env groups limits = None" "hasKey groups k"
  shows "chainEnds (nat (MaxGroupDepth limits + 1)) groups k"
proof -
  have "groupWalk limits groups k [] 0 = None"
    using assms by (auto simp: validateGroupGraph_def firstErr_None_iff hasKey_iff)
  from groupWalk_chainEnds [OF this] show ?thesis
    by simp
qed

lemma validGroups_strategies:
  assumes "\<forall>g\<in>set gs. validGroup env limits g" "s \<in> set (groupStrategiesOf (groupsByKey gs) c)"
  shows "s \<noteq> NilStrategy \<and> ValidateStrategy env limits s = None"
proof -
  obtain g where "map_of (groupsByKey gs) c = Some g" "s \<in> set (gStrategies g)"
    using assms(2)
    by (cases "map_of (groupsByKey gs) c") (simp_all add: groupStrategiesOf_def)
  then show ?thesis
    using groupsByKey_key assms(1) validGroup_strategies by blast
qed

lemma cloneAndValidateGroups_wfGroups:
  assumes "wfEnv env" "cloneAndValidateGroups env defs gs limits = Inr groups"
  shows "wfGroups limits groups"
  unfolding wfGroups_def
proof (intro conjI ballI, goal_cases)
  case 1
  then show ?case using assms(2) by (auto simp: cloneAndValidateGroups_Inr o_def)
next
  case (2 kg)
  note ok = assms(2) [unfolded cloneAndValidateGroups_Inr]
  obtain g where g: "kg = (gKey g, g)" "g \<in> set gs" "hasKey groups (gKey g)"
    using ok 2 by (force simp: hasKey_iff image_image)
  moreover have "gParent g \<noteq> [] \<longrightarrow> hasKey groups (gParent g)"
    using ok assms(1) g(2) by auto
  moreover have "validGroup env limits g"
    using ok g(2) by blast
  then have "gKey g \<noteq> []"
    by (simp add: validateGroup_def validateKeyBytes_def seqErr_None_iff)
  moreover have "chainEnds (nat (MaxGroupDepth limits + 1)) groups (gKey g)"
    using validateGroupGraph_ends [OF assms(1) _ g(3)] ok by blast
  ultimately show ?case by simp
qed

lemma cloneAndValidateGroups_wfAssignments:
  assumes "wfEnv env" "cloneAndValidateGroups env defs gs limits = Inr groups"
  shows "wfAssignments env limits defs groups"
  unfolding wfAssignments_def
proof clarify
  note ok = assms(2) [unfolded cloneAndValidateGroups_Inr]
  fix k d g assume "(k, d) \<in> set defs" "g \<in> set (dGroups d)"
  then have v: "validateFeatureGroup limits groups d g = None"
    using ok assms(1) by auto
  then have "hasKey groups g"
    by (simp add: validateFeatureGroup_def split: if_splits)
  then have "chainEnds (nat (MaxGroupDepth limits + 1)) groups g"
    using validateGroupGraph_ends [OF assms(1)] ok by blast
  then show "hasKey groups g \<and> (\<forall>n. \<forall>c\<in>set (parentChain n groups g).
      soundStrategies env limits (dVariants d) (groupStrategiesOf groups c))"
    using validateFeatureGroup_sound [OF v] validGroups_strategies ok by blast
qed

lemma NewSnapshotWithGroups_Inr:
  "NewSnapshotWithGroups env ds gs limits = Inr s \<longleftrightarrow>
     len ds \<le> MaxFeatures limits \<and>
     (\<forall>d\<in>set ds. ValidateDefinition env limits d = None) \<and> distinct (map dKey ds) \<and>
     validateDependencyGraph env (byKey ds) limits = None \<and>
     cloneAndValidateGroups env (byKey ds) gs limits = Inr (groupsByKey gs) \<and>
     s = \<lparr> snDefinitions = byKey ds, snGroups = groupsByKey gs, snTenant = [], snLimits = limits \<rparr>"
  by (auto simp: NewSnapshotWithGroups_def rbind_eq_Inr cloneDefinitions_iff
      cloneAndValidateGroups_Inr guardErr_Inr split: if_splits)

lemma NewSnapshotWithGroups_wf:
  assumes "wfEnv env" "NewSnapshotWithGroups env ds gs limits = Inr s"
  shows "wfSnapshot env s"
proof -
  note ok = assms(2) [unfolded NewSnapshotWithGroups_Inr]
  have "wfDefinitions env limits (byKey ds)"
    using ok assms(1) validateDependencyGraph_sound [of env "byKey ds" limits]
    by (auto simp: wfDefinitions_def o_def ValidateDefinition_typed ValidateDefinition_strategies)
  then show ?thesis
    using ok cloneAndValidateGroups_wfGroups [OF assms(1)]
      cloneAndValidateGroups_wfAssignments [OF assms(1)]
    by (fastforce simp: wfSnapshot_def)
qed

end
