(* ===== verification/Utf8.thy ===== *)
theory Utf8
  imports Prelude
begin

text \<open>
  \<^verbatim>\<open>utf8.ValidString\<close> of Go's standard library and \<^verbatim>\<open>truncateUTF8\<close> of \<^verbatim>\<open>evaluate.go\<close>, which cuts a
  diagnostic at a byte limit without splitting a rune.
\<close>

definition byteIn :: "nat \<Rightarrow> nat \<Rightarrow> char \<Rightarrow> bool" where
  "byteIn lo hi c \<longleftrightarrow> lo \<le> (of_char c :: nat) \<and> (of_char c :: nat) \<le> hi"

abbreviation continuation :: "char \<Rightarrow> bool" where
  "continuation \<equiv> byteIn 128 191"

text \<open>
  The lead bytes and the range each allows for the second byte: overlong forms, surrogates and
  code points above U+10FFFF are refused.
\<close>

definition lead3 :: "char \<Rightarrow> char \<Rightarrow> bool" where
  "lead3 a b \<longleftrightarrow>
     of_char a = (224::nat) \<and> byteIn 160 191 b \<or>
     (byteIn 225 236 a \<or> byteIn 238 239 a) \<and> continuation b \<or>
     of_char a = (237::nat) \<and> byteIn 128 159 b"

definition lead4 :: "char \<Rightarrow> char \<Rightarrow> bool" where
  "lead4 a b \<longleftrightarrow>
     of_char a = (240::nat) \<and> byteIn 144 191 b \<or>
     byteIn 241 243 a \<and> continuation b \<or>
     of_char a = (244::nat) \<and> byteIn 128 143 b"

fun ValidString :: "string \<Rightarrow> bool" where
  "ValidString [] = True"
| "ValidString (a # s) =
     (if byteIn 0 127 a then ValidString s
      else case s of [] \<Rightarrow> False | b # s1 \<Rightarrow>
        if byteIn 194 223 a then continuation b \<and> ValidString s1
        else case s1 of [] \<Rightarrow> False | c # s2 \<Rightarrow>
          if lead3 a b then continuation c \<and> ValidString s2
          else case s2 of [] \<Rightarrow> False | d # s3 \<Rightarrow>
            lead4 a b \<and> continuation c \<and> continuation d \<and> ValidString s3)"

fun truncateEnd :: "string \<Rightarrow> nat \<Rightarrow> nat" where
  "truncateEnd v 0 = 0"
| "truncateEnd v (Suc n) = (if \<not> ValidString (take (Suc n) v) then truncateEnd v n else Suc n)"

definition truncateUTF8 :: "string \<Rightarrow> int \<Rightarrow> string" where
  "truncateUTF8 v limit =
     (if limit < 1 then []
      else let end = min (length v) (nat limit) in
        if end = length v then v else take (truncateEnd v end) v)"

section \<open>What truncation keeps\<close>

lemma truncateEnd_le: "truncateEnd v n \<le> n"
  by (induction n) auto

lemma truncateEnd_valid: "ValidString (take (truncateEnd v n) v)"
  by (induction n) auto

lemma truncateEnd_greatest:
  "k \<le> n \<Longrightarrow> ValidString (take k v) \<Longrightarrow> k \<le> truncateEnd v n"
  by (induction n) (auto simp: le_Suc_eq)

lemma length_truncateUTF8: "int (length (truncateUTF8 v limit)) \<le> max 0 limit"
  using truncateEnd_le [of v "nat limit"]
  by (auto simp: truncateUTF8_def Let_def min_def le_nat_iff)

lemma ValidString_first_rune:
  assumes "ValidString v" "v \<noteq> []"
  shows "\<exists>p s. v = p @ s \<and> p \<noteq> [] \<and> length p \<le> 4 \<and> ValidString s \<and>
    (\<forall>t. ValidString t \<longrightarrow> ValidString (p @ t))"
proof -
  obtain a s where v: "v = a # s"
    using assms(2) by (cases v) simp_all
  show ?thesis
  proof (cases "byteIn 0 127 a")
    case True
    then show ?thesis using assms(1) v by (intro exI [of _ "[a]"] exI [of _ s]) simp
  next
    case a: False
    then obtain b s1 where s: "s = b # s1"
      using assms(1) v by (cases s) simp_all
    show ?thesis
    proof (cases "byteIn 194 223 a")
      case True
      then show ?thesis using assms(1) v s a by (intro exI [of _ "[a, b]"] exI [of _ s1]) simp
    next
      case a2: False
      then obtain c s2 where s1: "s1 = c # s2"
        using assms(1) v s a by (cases s1) simp_all
      show ?thesis
      proof (cases "lead3 a b")
        case True
        then show ?thesis using assms(1) v s s1 a a2
          by (intro exI [of _ "[a, b, c]"] exI [of _ s2]) simp
      next
        case a3: False
        then obtain d s3 where s2: "s2 = d # s3"
          using assms(1) v s s1 a a2 by (cases s2) simp_all
        then show ?thesis using assms(1) v s s1 s2 a a2 a3
          by (intro exI [of _ "[a, b, c, d]"] exI [of _ s3]) simp
      qed
    qed
  qed
qed

lemma valid_cut:
  assumes "ValidString v" "n \<le> length v"
  shows "\<exists>k\<le>n. n \<le> k + 3 \<and> ValidString (take k v)"
  using assms
proof (induction "length v" arbitrary: v n rule: less_induct)
  case less
  show ?case
  proof (cases "n \<le> 3")
    case True
    then show ?thesis by (intro exI [of _ 0]) auto
  next
    case False
    then have "v \<noteq> []" using less.prems(2) by auto
    then obtain p s where p: "v = p @ s" "p \<noteq> []" "length p \<le> 4" "ValidString s"
        "\<And>t. ValidString t \<Longrightarrow> ValidString (p @ t)"
      using ValidString_first_rune [OF less.prems(1)] by blast
    then have "length s < length v" "n - length p \<le> length s"
      using less.prems(2) by auto
    then obtain k where "k \<le> n - length p" "n - length p \<le> k + 3" "ValidString (take k s)"
      using less.hyps p(4) by blast
    then show ?thesis
      using p False by (intro exI [of _ "length p + k"]) auto
  qed
qed

lemma truncateUTF8_short: "int (length v) \<le> limit \<Longrightarrow> truncateUTF8 v limit = v"
  by (cases v) (auto simp: truncateUTF8_def Let_def min_def)

lemma truncateUTF8_valid: "ValidString v \<Longrightarrow> ValidString (truncateUTF8 v limit)"
  by (simp add: truncateUTF8_def Let_def truncateEnd_valid)

lemma truncateUTF8_prefix: "\<exists>rest. v = truncateUTF8 v limit @ rest"
  by (auto simp: truncateUTF8_def Let_def) (metis append_take_drop_id)

lemma truncateUTF8_loses_little:
  assumes "ValidString v" "0 \<le> limit" "limit < int (length v)"
  shows "limit \<le> int (length (truncateUTF8 v limit)) + 3"
proof (cases "limit < 1")
  case False
  obtain k where k: "k \<le> nat limit" "nat limit \<le> k + 3" "ValidString (take k v)"
    using valid_cut [OF assms(1), of "nat limit"] assms(3) by (auto simp: nat_le_iff)
  have "nat limit \<le> truncateEnd v (nat limit) + 3"
    using truncateEnd_greatest [OF k(1,3)] k(2) by simp
  then show ?thesis
    using False assms(3) truncateEnd_le [of v "nat limit"]
    by (auto simp: truncateUTF8_def Let_def min_def)
qed simp

text \<open>
  C15. Truncation of a diagnostic keeps a prefix of at most \<^verbatim>\<open>limit\<close> bytes, keeps valid UTF-8 valid,
  and cuts no more than it must: it returns a text that fits unchanged, and of a longer valid text
  at least \<^verbatim>\<open>limit\<close> - 3 bytes.
\<close>

theorem truncateUTF8_spec:
  "(\<exists>rest. v = truncateUTF8 v limit @ rest) \<and>
   int (length (truncateUTF8 v limit)) \<le> max 0 limit \<and>
   (int (length v) \<le> limit \<longrightarrow> truncateUTF8 v limit = v) \<and>
   (ValidString v \<longrightarrow> ValidString (truncateUTF8 v limit)) \<and>
   (ValidString v \<and> 0 \<le> limit \<and> limit < int (length v) \<longrightarrow>
      limit \<le> int (length (truncateUTF8 v limit)) + 3)"
  using truncateUTF8_prefix [of v limit] length_truncateUTF8 [of v limit] truncateUTF8_valid [of v limit]
    truncateUTF8_loses_little [of v limit] truncateUTF8_short [of v limit]
  by blast

definition euro :: string where
  "euro = [CHR 0xE2, CHR 0x82, CHR 0xAC]"

theorem truncateUTF8_spec_witness:
  "truncateUTF8 (euro @ euro) 5 = euro \<and> ValidString (truncateUTF8 (euro @ euro) 5) \<and>
   5 \<le> int (length (truncateUTF8 (euro @ euro) 5)) + 3"
proof -
  have "truncateUTF8 (euro @ euro) 5 = euro" "ValidString (euro @ euro)" "int (length (euro @ euro)) = 6"
    by code_simp+
  then show ?thesis
    using truncateUTF8_spec [of "euro @ euro" 5] by simp
qed

end
