(* ===== verification/Evaluate.thy ===== *)
theory Evaluate
  imports Snapshot_Laws Utf8
begin

text \<open>
  Evaluation of one feature in \<^verbatim>\<open>evaluate.go\<close>: dependencies first, then the groups of the feature
  from the assigned group towards its root, then the feature's own strategies; the typed entry
  points and \<^verbatim>\<open>Batch\<close>.
\<close>

record evaluationResult =
  erValue :: Value
  erVariant :: string
  erReason :: Reason
  erMatchedStrategy :: string
  erVersion :: "64 word"
  erDiagnostics :: "Diagnostic list"

record 'a Detail =
  dtValue :: 'a
  dtVariant :: string
  dtReason :: Reason
  dtMatchedStrategy :: string
  dtVersion :: "64 word"
  dtDiagnostics :: "Diagnostic list"

record EvaluationRequest =
  rqKey :: string
  rqType :: Type

record EvaluationDetail =
  edKey :: string
  edValue :: Value
  edVariant :: string
  edReason :: Reason
  edMatchedStrategy :: string
  edVersion :: "64 word"
  edDiagnostics :: "Diagnostic list"

section \<open>Results\<close>

definition boundDiagnostics :: "Diagnostic list \<Rightarrow> Limits \<Rightarrow> Diagnostic list" where
  "boundDiagnostics diagnostics limits =
     (let count = min (len diagnostics) (MaxDiagnostics limits) in
      if count \<le> 0 then []
      else map (\<lambda>d. \<lparr> dgCode = truncateUTF8 (dgCode d) (MaxDiagnosticBytes limits),
                      dgMessage = truncateUTF8 (dgMessage d) (MaxDiagnosticBytes limits) \<rparr>)
             (take (nat count) diagnostics))"

definition defaultResult :: "Definition \<Rightarrow> Reason \<Rightarrow> Diagnostic list \<Rightarrow> evaluationResult" where
  "defaultResult d reason diagnostics =
     \<lparr> erValue = dDefault d, erVariant = [], erReason = reason, erMatchedStrategy = [],
       erVersion = dVersion d, erDiagnostics = diagnostics \<rparr>"

definition variantOf :: "Definition \<Rightarrow> string \<Rightarrow> Value" where
  "variantOf d name = (case map_of (dVariants d) name of None \<Rightarrow> zeroValue | Some v \<Rightarrow> v)"

definition evaluateOneStrategy ::
  "env \<Rightarrow> Definition \<Rightarrow> Context \<Rightarrow> string \<Rightarrow> Reason \<Rightarrow> Limits \<Rightarrow> Strategy \<Rightarrow> evaluationResult option res" where
  "evaluateOneStrategy env d c pre reasonOverride limits s =
     rbind (EvaluateStrategy env s \<lparr> siFeatureKey = dKey d, siContext = c \<rparr>) (\<lambda>result.
       if \<not> srMatch result then Inr None
       else Inr (Some
         \<lparr> erValue = variantOf d (TargetVariant s),
           erVariant = TargetVariant s,
           erReason = (if reasonOverride \<noteq> NoReason then reasonOverride
                       else if srReason result = NoReason then ReasonTargetingMatch
                       else srReason result),
           erMatchedStrategy = pre @ StrategyName s,
           erVersion = dVersion d,
           erDiagnostics = boundDiagnostics (srDiagnostics result) limits \<rparr>))"

section \<open>Groups\<close>

text \<open>The set \<^verbatim>\<open>visited\<close> is shared by all groups of one feature; it is returned with the answer.\<close>

function evaluateGroup ::
  "env \<Rightarrow> Snapshot \<Rightarrow> Definition \<Rightarrow> string \<Rightarrow> Context \<Rightarrow> string list \<Rightarrow> int \<Rightarrow>
     (evaluationResult option \<times> string list) res" where
  "evaluateGroup env s d key c visited depth =
     (if depth > MaxGroupDepth (snLimits s) then Inl (ErrMsg ''inheritance depth exceeds limit'')
      else if key \<in> set visited then Inr (None, visited)
      else rbind (firstMatch (evaluateOneStrategy env d c (''group:'' @ key @ ''/'') ReasonGroupMatch (snLimits s))
                    (groupStrategiesOf (snGroups s) key)) (\<lambda>r.
        case r of
          Some result \<Rightarrow> Inr (Some result, key # visited)
        | None \<Rightarrow>
            if parentOf (snGroups s) key \<noteq> []
            then evaluateGroup env s d (parentOf (snGroups s) key) c (key # visited) (depth + 1)
            else Inr (None, key # visited)))"
  by pat_completeness auto
termination
  by (relation "measure (\<lambda>(env, s, d, key, c, visited, depth). nat (MaxGroupDepth (snLimits s) + 1 - depth))")
    auto

declare evaluateGroup.simps [simp del]

fun evaluateGroups ::
  "env \<Rightarrow> Snapshot \<Rightarrow> Definition \<Rightarrow> string list \<Rightarrow> Context \<Rightarrow> string list \<Rightarrow> evaluationResult option res" where
  "evaluateGroups env s d [] c visited = Inr None"
| "evaluateGroups env s d (key # keys) c visited =
     rbind (evaluateGroup env s d key c visited 0) (\<lambda>(r, visited').
       case r of
         Some result \<Rightarrow> Inr (Some result)
       | None \<Rightarrow> evaluateGroups env s d keys c visited')"

section \<open>One feature\<close>

text \<open>What follows the dependencies in \<^verbatim>\<open>evaluateKey\<close>: groups, strategies, default.\<close>

definition evaluatePolicies :: "env \<Rightarrow> Snapshot \<Rightarrow> Context \<Rightarrow> Definition \<Rightarrow> evaluationResult res" where
  "evaluatePolicies env s c d =
     rbind (evaluateGroups env s d (dGroups d) c []) (\<lambda>g. case g of Some result \<Rightarrow> Inr result | None \<Rightarrow>
     rbind (firstMatch (evaluateOneStrategy env d c [] NoReason (snLimits s)) (dStrategies d)) (\<lambda>r.
       case r of Some result \<Rightarrow> Inr result | None \<Rightarrow> Inr (defaultResult d ReasonDefault [])))"

definition dependencyFailed :: "Definition \<Rightarrow> evaluationResult" where
  "dependencyFailed d = defaultResult d ReasonDependencyFailed
     [\<lparr> dgCode = ''dependency_failed'', dgMessage = ''required feature variant was not selected'' \<rparr>]"

text \<open>
  \<^verbatim>\<open>evaluateKey\<close> adds the key to \<^verbatim>\<open>visiting\<close> and removes it when it returns, so the set is the path
  of the search. \<open>dependenciesHold\<close> is the loop over the dependencies: whether every required
  variant was selected, stopping at the first that was not.
\<close>

function (sequential)
  evaluateKey :: "env \<Rightarrow> Snapshot \<Rightarrow> Context \<Rightarrow> string \<Rightarrow> string list \<Rightarrow> int \<Rightarrow> evaluationResult res" and
  dependenciesHold :: "env \<Rightarrow> Snapshot \<Rightarrow> Context \<Rightarrow> Dependency list \<Rightarrow> string list \<Rightarrow> int \<Rightarrow> bool res"
where
  "evaluateKey env s c key visiting depth =
     (if depth > MaxEvaluationDepth (snLimits s) then Inl (ErrMsg ''evaluation depth exceeds limit'')
      else if key \<in> set visiting then Inl ErrDependencyCycle
      else case map_of (snDefinitions s) key of
        None \<Rightarrow> Inl ErrNotFound
      | Some d \<Rightarrow>
          if dLifecycle d \<noteq> LifecycleActive then Inr (defaultResult d ReasonInactive [])
          else rbind (dependenciesHold env s c (dDependencies d) (key # visiting) (depth + 1)) (\<lambda>ok.
            if ok then evaluatePolicies env s c d else Inr (dependencyFailed d)))"
| "dependenciesHold env s c [] visiting depth = Inr True"
| "dependenciesHold env s c (dep # deps) visiting depth =
     rbind (evaluateKey env s c (FeatureKey dep) visiting depth) (\<lambda>result.
       if erVariant result \<noteq> RequiredVariant dep then Inr False
       else dependenciesHold env s c deps visiting depth)"
  by pat_completeness auto
termination
  by (relation "measures [\<lambda>x. case x of Inl (env, s, c, key, visiting, depth) \<Rightarrow> nat (MaxEvaluationDepth (snLimits s) + 1 - depth)
                                    | Inr (env, s, c, deps, visiting, depth) \<Rightarrow> nat (MaxEvaluationDepth (snLimits s) + 1 - depth),
                          \<lambda>x. case x of Inl _ \<Rightarrow> 0 | Inr (env, s, c, deps, _) \<Rightarrow> Suc (length deps)]")
    auto

declare evaluateKey.simps [simp del]

definition evaluate :: "env \<Rightarrow> Snapshot \<Rightarrow> string \<Rightarrow> Type \<Rightarrow> Context \<Rightarrow> evaluationResult res" where
  "evaluate env s key expected c =
     (if snTenant s \<noteq> [] \<and> Tenant c \<noteq> snTenant s then Inl ErrTenantMismatch
      else guardErr (validateContext env (snLimits s) c)
        (case map_of (snDefinitions s) key of
           None \<Rightarrow> Inl ErrNotFound
         | Some d \<Rightarrow>
             if dType d \<noteq> expected then Inl (ErrMsg ''feature has another type'')
             else evaluateKey env s c key [] 0))"

section \<open>Entry points\<close>

definition detailOf :: "'a \<Rightarrow> evaluationResult \<Rightarrow> 'a Detail" where
  "detailOf v r = \<lparr> dtValue = v, dtVariant = erVariant r, dtReason = erReason r,
     dtMatchedStrategy = erMatchedStrategy r, dtVersion = erVersion r, dtDiagnostics = erDiagnostics r \<rparr>"

definition Boolean :: "env \<Rightarrow> Snapshot \<Rightarrow> string \<Rightarrow> Context \<Rightarrow> bool Detail res" where
  "Boolean env s key c = rbind (evaluate env s key TypeBoolean c)
     (\<lambda>r. Inr (detailOf (fst (booleanValue (erValue r))) r))"

definition String :: "env \<Rightarrow> Snapshot \<Rightarrow> string \<Rightarrow> Context \<Rightarrow> string Detail res" where
  "String env s key c = rbind (evaluate env s key TypeString c)
     (\<lambda>r. Inr (detailOf (fst (stringValue (erValue r) TypeString)) r))"

definition Integer :: "env \<Rightarrow> Snapshot \<Rightarrow> string \<Rightarrow> Context \<Rightarrow> 64 word Detail res" where
  "Integer env s key c = rbind (evaluate env s key TypeInteger c)
     (\<lambda>r. Inr (detailOf (fst (integerValue (erValue r))) r))"

definition Float :: "env \<Rightarrow> Snapshot \<Rightarrow> string \<Rightarrow> Context \<Rightarrow> 64 word Detail res" where
  "Float env s key c = rbind (evaluate env s key TypeFloat c)
     (\<lambda>r. Inr (detailOf (fst (floatValue (erValue r))) r))"

definition Decimal :: "env \<Rightarrow> Snapshot \<Rightarrow> string \<Rightarrow> Context \<Rightarrow> string Detail res" where
  "Decimal env s key c = rbind (evaluate env s key TypeDecimal c)
     (\<lambda>r. Inr (detailOf (fst (stringValue (erValue r) TypeDecimal)) r))"

definition Structured :: "env \<Rightarrow> Snapshot \<Rightarrow> string \<Rightarrow> Context \<Rightarrow> string Detail res" where
  "Structured env s key c = rbind (evaluate env s key TypeStructured c)
     (\<lambda>r. Inr (detailOf (fst (structuredValue (erValue r))) r))"

definition evaluateRequest ::
  "env \<Rightarrow> Snapshot \<Rightarrow> Context \<Rightarrow> EvaluationRequest \<Rightarrow> EvaluationDetail res" where
  "evaluateRequest env s c request =
     rbind (evaluate env s (rqKey request) (rqType request) c) (\<lambda>r.
       Inr \<lparr> edKey = rqKey request, edValue = cloneValue (erValue r), edVariant = erVariant r,
             edReason = erReason r, edMatchedStrategy = erMatchedStrategy r,
             edVersion = erVersion r, edDiagnostics = erDiagnostics r \<rparr>)"

definition Batch :: "env \<Rightarrow> Snapshot \<Rightarrow> Context \<Rightarrow> EvaluationRequest list \<Rightarrow> EvaluationDetail list res" where
  "Batch env s c requests =
     (if len requests > MaxBatchSize (snLimits s) then Inl ErrBatchLimit
      else mapRes (evaluateRequest env s c) requests)"

end
