(* ===== verification/Evaluate_Laws.thy ===== *)
theory Evaluate_Laws
  imports Evaluate
begin

text \<open>
  Correctness of evaluation on accepted snapshots: answers are well typed and come from the
  definition, the groups and strategies are consulted in one documented order, errors are limited
  to the listed ones, diagnostics stay bounded, and a batch agrees with single evaluations.
\<close>

section \<open>Answers\<close>

definition answers :: "Limits \<Rightarrow> Definition \<Rightarrow> evaluationResult \<Rightarrow> bool" where
  "answers limits d r \<longleftrightarrow>
     vtyp (erValue r) = dType d \<and> validateValue limits (erValue r) = None \<and> erVersion r = dVersion d \<and>
     (if erVariant r = [] then erValue r = dDefault d
      else map_of (dVariants d) (erVariant r) = Some (erValue r))"

lemma defaultResult_answers:
  "typedDefinition limits d \<Longrightarrow> answers limits d (defaultResult d reason diagnostics)"
  by (simp add: answers_def defaultResult_def typedDefinition_def)

lemma evaluateOneStrategy_answers:
  assumes "typedDefinition limits d" "soundStrategies env lim (dVariants d) ss" "s \<in> set ss"
    and "evaluateOneStrategy env d c pre over lim' s = Inr (Some r)"
  shows "answers limits d r"
proof -
  obtain v where v: "map_of (dVariants d) (TargetVariant s) = Some v"
    using assms(2,3) by (auto simp: soundStrategies_def hasKey_def)
  have "erValue r = v" "erVariant r = TargetVariant s" "erVersion r = dVersion d"
    using assms(4) v
    by (auto simp: evaluateOneStrategy_def rbind_eq_Inr variantOf_def split: if_splits)
  then show ?thesis
    using typedDefinition_variant [OF assms(1) v] v by (auto simp: answers_def)
qed

section \<open>The order of consultation\<close>

text \<open>
  A reference description of what follows the dependencies: one list of candidates, the groups in
  the order in which the inheritance chains of the assigned groups first reach them, each once,
  then the feature's own strategies; the first candidate that matches answers.
\<close>

type_synonym candidate = "string \<times> Reason \<times> Strategy"

fun firstOccurrences :: "string list \<Rightarrow> string list \<Rightarrow> string list" where
  "firstOccurrences seen [] = []"
| "firstOccurrences seen (x # xs) =
     (if x \<in> set seen then firstOccurrences seen xs else x # firstOccurrences (x # seen) xs)"

definition groupCandidates :: "GroupDefinition gomap \<Rightarrow> string \<Rightarrow> candidate list" where
  "groupCandidates groups key =
     map (\<lambda>s. (''group:'' @ key @ ''/'', ReasonGroupMatch, s)) (groupStrategiesOf groups key)"

definition inheritance :: "Limits \<Rightarrow> GroupDefinition gomap \<Rightarrow> string \<Rightarrow> string list" where
  "inheritance limits groups key = parentChain (nat (MaxGroupDepth limits + 1)) groups key"

definition candidates :: "Snapshot \<Rightarrow> Definition \<Rightarrow> candidate list" where
  "candidates s d =
     concat (map (groupCandidates (snGroups s))
       (firstOccurrences [] (concat (map (inheritance (snLimits s) (snGroups s)) (dGroups d))))) @
     map (\<lambda>st. ([], NoReason, st)) (dStrategies d)"

definition tryCandidate ::
  "env \<Rightarrow> Snapshot \<Rightarrow> Context \<Rightarrow> Definition \<Rightarrow> candidate \<Rightarrow> evaluationResult option res" where
  "tryCandidate env s c d cand =
     (case cand of (pre, over, st) \<Rightarrow> evaluateOneStrategy env d c pre over (snLimits s) st)"

lemma firstMatch_map: "firstMatch f (map g xs) = firstMatch (\<lambda>x. f (g x)) xs"
  by (induction xs) (auto cong: option.case_cong)

lemma firstMatch_append:
  "firstMatch f (xs @ ys) =
     rbind (firstMatch f xs) (\<lambda>r. case r of Some y \<Rightarrow> Inr (Some y) | None \<Rightarrow> firstMatch f ys)"
proof (induction xs)
  case (Cons x xs)
  show ?case
    by (cases "f x") (auto simp: Cons split: option.split)
qed simp

lemma option_res_cases [case_names error match none]:
  fixes r :: "'a option res"
  obtains e where "r = Inl e" | x where "r = Inr (Some x)" | "r = Inr None"
  by (cases r) (auto intro: option.exhaust)

lemma firstOccurrences_append:
  "firstOccurrences seen (xs @ ys) =
     firstOccurrences seen xs @ firstOccurrences (rev (firstOccurrences seen xs) @ seen) ys"
  by (induction xs arbitrary: seen) simp_all

lemma firstOccurrences_seen: "set xs \<subseteq> set seen \<Longrightarrow> firstOccurrences seen xs = []"
  by (induction xs) auto

text \<open>Every visited group but the one that leads to \<open>current\<close> has its parent visited too.\<close>

definition closedUpTo :: "GroupDefinition gomap \<Rightarrow> string \<Rightarrow> string list \<Rightarrow> bool" where
  "closedUpTo groups current visited \<longleftrightarrow>
     (\<forall>v\<in>set visited. parentOf groups v = [] \<or> parentOf groups v \<in> set visited \<or> parentOf groups v = current)"

lemma parentChain_root [simp]: "parentChain n groups [] = []"
  by (cases n) simp_all

lemma closedUpTo_chain:
  "closedUpTo groups [] visited \<Longrightarrow> k \<in> set visited \<Longrightarrow> set (parentChain n groups k) \<subseteq> set visited"
proof (induction n arbitrary: k)
  case (Suc n)
  show ?case
  proof (cases "parentOf groups k = []")
    case False
    then have "parentOf groups k \<in> set visited"
      using Suc.prems by (auto simp: closedUpTo_def)
    then show ?thesis
      using Suc by auto
  qed (use Suc.prems in auto)
qed simp

abbreviation fuelFrom :: "Snapshot \<Rightarrow> int \<Rightarrow> nat" where
  "fuelFrom s depth \<equiv> nat (MaxGroupDepth (snLimits s) + 1 - depth)"

definition freshGroups :: "Snapshot \<Rightarrow> string \<Rightarrow> string list \<Rightarrow> int \<Rightarrow> string list" where
  "freshGroups s key visited depth =
     firstOccurrences visited (parentChain (fuelFrom s depth) (snGroups s) key)"

definition agrees :: "'a option res \<Rightarrow> string list \<Rightarrow> ('a option \<times> string list) res \<Rightarrow> bool" where
  "agrees walk visited result \<longleftrightarrow>
     (case walk of
        Inl e \<Rightarrow> result = Inl e
      | Inr (Some r) \<Rightarrow> (\<exists>v. result = Inr (Some r, v))
      | Inr None \<Rightarrow> result = Inr (None, visited))"

lemma fuelFrom_Suc: "\<not> depth > MaxGroupDepth (snLimits s) \<Longrightarrow> fuelFrom s depth = Suc (fuelFrom s (depth + 1))"
  by linarith

lemma closedUpTo_visited:
  "closedUpTo groups key visited \<Longrightarrow> key \<in> set visited \<Longrightarrow> closedUpTo groups [] visited"
  by (auto simp: closedUpTo_def)

lemma closedUpTo_step:
  "closedUpTo groups key visited \<Longrightarrow> closedUpTo groups (parentOf groups key) (key # visited)"
  by (auto simp: closedUpTo_def)

lemma freshGroups_visited:
  "closedUpTo (snGroups s) key visited \<Longrightarrow> key \<in> set visited \<Longrightarrow> freshGroups s key visited depth = []"
  unfolding freshGroups_def
  by (intro firstOccurrences_seen closedUpTo_chain closedUpTo_visited)

lemma freshGroups_new:
  assumes "\<not> depth > MaxGroupDepth (snLimits s)" "key \<noteq> []" "key \<notin> set visited"
  shows "freshGroups s key visited depth =
    key # freshGroups s (parentOf (snGroups s) key) (key # visited) (depth + 1)"
  unfolding freshGroups_def fuelFrom_Suc [OF assms(1)] using assms(2,3) by simp

lemma freshGroups_root [simp]: "freshGroups s [] visited depth = []"
  by (simp add: freshGroups_def)

lemma firstMatch_groupCandidates:
  "firstMatch (tryCandidate env s c d) (groupCandidates groups key) =
     firstMatch (evaluateOneStrategy env d c (''group:'' @ key @ ''/'') ReasonGroupMatch (snLimits s))
       (groupStrategiesOf groups key)"
  by (simp add: groupCandidates_def firstMatch_map tryCandidate_def)

lemma evaluateGroup_walk:
  assumes "chainEnds (fuelFrom s depth) (snGroups s) key" "key \<noteq> []" "closedUpTo (snGroups s) key visited"
  shows "agrees
      (firstMatch (tryCandidate env s c d)
        (concat (map (groupCandidates (snGroups s)) (freshGroups s key visited depth))))
      (rev (freshGroups s key visited depth) @ visited)
      (evaluateGroup env s d key c visited depth)"
  using assms
proof (induction env s d key c visited depth rule: evaluateGroup.induct)
  case (1 env s d key c visited depth)
  have depth: "\<not> depth > MaxGroupDepth (snLimits s)"
    using 1(2,3) by (cases "fuelFrom s depth") auto
  show ?case
  proof (cases "key \<in> set visited")
    case True
    then show ?thesis
      using depth freshGroups_visited [OF 1(4) True, of depth]
      by (simp add: evaluateGroup.simps [of env s d key] agrees_def)
  next
    case False
    let ?own = "firstMatch (tryCandidate env s c d) (groupCandidates (snGroups s) key)"
    let ?parent = "parentOf (snGroups s) key"
    have ends: "chainEnds (fuelFrom s (depth + 1)) (snGroups s) ?parent"
      using 1(2,3) unfolding fuelFrom_Suc [OF depth] by simp
    note unfold = evaluateGroup.simps [of env s d key c visited depth] firstMatch_groupCandidates
      freshGroups_new [OF depth 1(3) False] firstMatch_append
    show ?thesis
    proof (cases ?own rule: option_res_cases)
      case none
      show ?thesis
      proof (cases "?parent = []")
        case True
        then show ?thesis
          using none depth False by (simp add: unfold agrees_def)
      next
        case parent: False
        have "agrees
          (firstMatch (tryCandidate env s c d) (concat (map (groupCandidates (snGroups s))
             (freshGroups s ?parent (key # visited) (depth + 1)))))
          (rev (freshGroups s ?parent (key # visited) (depth + 1)) @ key # visited)
          (evaluateGroup env s d ?parent c (key # visited) (depth + 1))"
          using 1(1) [OF depth False _ _ parent ends parent closedUpTo_step [OF 1(4)]] none
          by (simp add: firstMatch_groupCandidates)
        then show ?thesis
          using none depth False parent by (simp add: unfold)
      qed
    qed (use depth False in \<open>simp_all add: unfold agrees_def\<close>)
  qed
qed

lemma closedUpTo_walk:
  "chainEnds n groups key \<Longrightarrow> closedUpTo groups key visited \<Longrightarrow>
     closedUpTo groups [] (rev (firstOccurrences visited (parentChain n groups key)) @ visited)"
proof (induction n arbitrary: key visited)
  case (Suc n)
  consider "key = []" | "key \<noteq> []" "key \<in> set visited" | "key \<noteq> []" "key \<notin> set visited"
    by blast
  then show ?case
  proof cases
    case 2
    then have closed: "closedUpTo groups [] visited"
      using Suc.prems(2) by (blast intro: closedUpTo_visited)
    then show ?thesis
      unfolding firstOccurrences_seen [OF closedUpTo_chain [OF closed 2(2)]] by simp
  next
    case 3
    then show ?thesis
      using Suc.IH [OF _ closedUpTo_step [OF Suc.prems(2)]] Suc.prems(1) by simp
  qed (use Suc.prems in simp)
qed simp

lemma evaluateGroups_candidates:
  assumes "\<forall>g\<in>set keys. g \<noteq> [] \<and> chainEnds (fuelFrom s 0) (snGroups s) g"
    and "closedUpTo (snGroups s) [] visited"
  shows "evaluateGroups env s d keys c visited =
    firstMatch (tryCandidate env s c d) (concat (map (groupCandidates (snGroups s))
      (firstOccurrences visited (concat (map (inheritance (snLimits s) (snGroups s)) keys)))))"
  using assms
proof (induction keys arbitrary: visited)
  case (Cons key keys)
  let ?fresh = "firstOccurrences visited (inheritance (snLimits s) (snGroups s) key)"
  let ?own = "firstMatch (tryCandidate env s c d) (concat (map (groupCandidates (snGroups s)) ?fresh))"
  have fresh: "freshGroups s key visited 0 = ?fresh"
    by (simp add: freshGroups_def inheritance_def)
  have ends: "chainEnds (fuelFrom s 0) (snGroups s) key" "key \<noteq> []" "closedUpTo (snGroups s) key visited"
    using Cons.prems by (auto simp: closedUpTo_def)
  have walk: "agrees ?own (rev ?fresh @ visited) (evaluateGroup env s d key c visited 0)"
    using evaluateGroup_walk [OF ends] by (simp add: fresh)
  have closed: "closedUpTo (snGroups s) [] (rev ?fresh @ visited)"
    using closedUpTo_walk [OF ends(1,3)] by (simp add: inheritance_def)
  show ?case
    by (cases ?own rule: option_res_cases)
      (use walk Cons.IH [OF _ closed] Cons.prems(1) in
        \<open>auto simp: agrees_def firstOccurrences_append firstMatch_append\<close>)
qed simp

text \<open>The definitions and groups of a well-formed snapshot.\<close>

lemma wfSnapshot_definition:
  assumes "wfSnapshot env s" "map_of (snDefinitions s) key = Some d"
  shows "dKey d = key \<and> typedDefinition (snLimits s) d \<and>
    soundStrategies env (snLimits s) (dVariants d) (dStrategies d)"
  using assms by (auto simp: wfSnapshot_def wfDefinitions_def dest!: map_of_SomeD)

lemma wfSnapshot_group:
  assumes "wfSnapshot env s" "map_of (snDefinitions s) key = Some d" "g \<in> set (dGroups d)"
  shows "g \<noteq> [] \<and> chainEnds (fuelFrom s 0) (snGroups s) g"
proof -
  have "hasKey (snGroups s) g"
    using assms by (auto simp: wfSnapshot_def wfAssignments_def dest!: map_of_SomeD)
  then show ?thesis
    using assms(1) by (auto simp: wfSnapshot_def wfGroups_def hasKey_iff)
qed

lemma evaluatePolicies_candidates:
  assumes "wfSnapshot env s" "map_of (snDefinitions s) key = Some d"
  shows "evaluatePolicies env s c d =
    rbind (firstMatch (tryCandidate env s c d) (candidates s d)) (\<lambda>r.
      case r of Some result \<Rightarrow> Inr result | None \<Rightarrow> Inr (defaultResult d ReasonDefault []))"
proof -
  have groups: "\<forall>g\<in>set (dGroups d). g \<noteq> [] \<and> chainEnds (fuelFrom s 0) (snGroups s) g"
    using wfSnapshot_group [OF assms] by blast
  have "closedUpTo (snGroups s) [] []"
    by (simp add: closedUpTo_def)
  note groups' = evaluateGroups_candidates [OF groups this, of env d c]
  let ?groups = "firstMatch (tryCandidate env s c d) (concat (map (groupCandidates (snGroups s))
      (firstOccurrences [] (concat (map (inheritance (snLimits s) (snGroups s)) (dGroups d))))))"
  show ?thesis
    unfolding evaluatePolicies_def candidates_def groups'
    by (cases ?groups rule: option_res_cases)
      (simp_all add: firstMatch_append firstMatch_map tryCandidate_def)
qed

section \<open>Type soundness\<close>

lemma candidates_sound:
  assumes "wfSnapshot env s" "map_of (snDefinitions s) key = Some d" "(pre, over, st) \<in> set (candidates s d)"
  shows "soundStrategies env (snLimits s) (dVariants d) [st]"
proof -
  consider (own) "st \<in> set (dStrategies d)"
    | (group) k where "k \<in> set (firstOccurrences [] (concat (map (inheritance (snLimits s) (snGroups s)) (dGroups d))))"
        "st \<in> set (groupStrategiesOf (snGroups s) k)"
    using assms(3) by (auto simp: candidates_def groupCandidates_def)
  then show ?thesis
  proof cases
    case own
    then show ?thesis
      using wfSnapshot_definition [OF assms(1,2)] by (simp add: soundStrategies_def)
  next
    case group
    have "set (firstOccurrences seen xs) \<subseteq> set xs" for seen xs
      by (induction xs arbitrary: seen) auto
    then obtain g where "g \<in> set (dGroups d)" "k \<in> set (inheritance (snLimits s) (snGroups s) g)"
      using group(1) by fastforce
    then have "soundStrategies env (snLimits s) (dVariants d) (groupStrategiesOf (snGroups s) k)"
      using assms(1,2)
      by (fastforce simp: wfSnapshot_def wfAssignments_def inheritance_def dest!: map_of_SomeD)
    then show ?thesis
      using group(2) by (simp add: soundStrategies_def)
  qed
qed

lemma evaluatePolicies_answers:
  assumes "wfSnapshot env s" "map_of (snDefinitions s) key = Some d"
    and "evaluatePolicies env s c d = Inr r"
  shows "answers (snLimits s) d r"
proof -
  have typed: "typedDefinition (snLimits s) d"
    using wfSnapshot_definition [OF assms(1,2)] by blast
  show ?thesis
  proof (cases "firstMatch (tryCandidate env s c d) (candidates s d)" rule: option_res_cases)
    case (match x)
    then obtain pre over st where st: "(pre, over, st) \<in> set (candidates s d)"
        "evaluateOneStrategy env d c pre over (snLimits s) st = Inr (Some r)"
      using assms(3) evaluatePolicies_candidates [OF assms(1,2), of c]
      by (auto simp: tryCandidate_def dest!: firstMatch_SomeD)
    then show ?thesis
      using evaluateOneStrategy_answers [OF typed candidates_sound [OF assms(1,2) st(1)]] by simp
  qed (use assms(3) evaluatePolicies_candidates [OF assms(1,2), of c] typed in
      \<open>auto intro: defaultResult_answers\<close>)
qed

lemma evaluateKey_Inr:
  assumes "evaluateKey env s c key visiting depth = Inr r"
  obtains d where "map_of (snDefinitions s) key = Some d"
    "r = defaultResult d ReasonInactive [] \<or> r = dependencyFailed d \<or> evaluatePolicies env s c d = Inr r"
  using assms
  by (subst (asm) evaluateKey.simps)
    (auto simp: rbind_eq_Inr split: if_splits option.splits)

lemma evaluateKey_answers:
  assumes "wfSnapshot env s" "evaluateKey env s c key visiting depth = Inr r"
  obtains d where "map_of (snDefinitions s) key = Some d" "answers (snLimits s) d r"
proof -
  obtain d where d: "map_of (snDefinitions s) key = Some d"
    and r: "r = defaultResult d ReasonInactive [] \<or> r = dependencyFailed d \<or> evaluatePolicies env s c d = Inr r"
    using evaluateKey_Inr [OF assms(2)] .
  have "typedDefinition (snLimits s) d"
    using wfSnapshot_definition [OF assms(1) d] by blast
  then have "answers (snLimits s) d r"
    using r evaluatePolicies_answers [OF assms(1) d]
    by (auto simp: dependencyFailed_def intro: defaultResult_answers)
  with d show ?thesis by (rule that)
qed

lemma evaluate_Inr:
  assumes "evaluate env s key expected c = Inr r"
  obtains d where "map_of (snDefinitions s) key = Some d" "dType d = expected"
    "evaluateKey env s c key [] 0 = Inr r" "snTenant s = [] \<or> Tenant c = snTenant s"
    "validateContext env (snLimits s) c = None"
  using assms by (auto simp: evaluate_def guardErr_Inr split: if_splits option.splits)

lemma evaluate_answers:
  assumes "wfSnapshot env s" "evaluate env s key expected c = Inr r"
  obtains d where "map_of (snDefinitions s) key = Some d" "dType d = expected" "answers (snLimits s) d r"
proof -
  obtain d where d: "map_of (snDefinitions s) key = Some d" "dType d = expected"
      "evaluateKey env s c key [] 0 = Inr r"
    using evaluate_Inr [OF assms(2)] .
  then have "answers (snLimits s) d r"
    using evaluateKey_answers [OF assms(1) d(3)] by (metis option.inject)
  with d(1,2) show ?thesis by (rule that)
qed

section \<open>Errors\<close>

definition builtinOnly :: "Snapshot \<Rightarrow> bool" where
  "builtinOnly s \<longleftrightarrow>
     (\<forall>(k, d)\<in>set (snDefinitions s). \<forall>st\<in>set (dStrategies d). \<not> isCustom st) \<and>
     (\<forall>(k, g)\<in>set (snGroups s). \<forall>st\<in>set (gStrategies g). \<not> isCustom st)"

text \<open>Every chain of dependencies that starts at a feature has at most \<open>n\<close> edges.\<close>

fun depthWithin :: "nat \<Rightarrow> Definition gomap \<Rightarrow> string \<Rightarrow> bool" where
  "depthWithin 0 defs key \<longleftrightarrow> dependenciesOf defs key = []"
| "depthWithin (Suc n) defs key \<longleftrightarrow>
     list_all (\<lambda>dep. depthWithin n defs (FeatureKey dep)) (dependenciesOf defs key)"

lemma candidates_builtin:
  assumes "builtinOnly s" "map_of (snDefinitions s) key = Some d" "(pre, over, st) \<in> set (candidates s d)"
  shows "\<not> isCustom st"
proof -
  have "\<not> isCustom st" if "st \<in> set (groupStrategiesOf (snGroups s) k)" for k
    using that assms(1)
    by (cases "map_of (snGroups s) k") (auto simp: groupStrategiesOf_def builtinOnly_def dest!: map_of_SomeD)
  then show ?thesis
    using assms by (auto simp: candidates_def groupCandidates_def builtinOnly_def dest!: map_of_SomeD)
qed

lemma evaluatePolicies_total:
  assumes "wfSnapshot env s" "builtinOnly s" "map_of (snDefinitions s) key = Some d"
  shows "\<exists>r. evaluatePolicies env s c d = Inr r"
proof -
  have "\<exists>r. tryCandidate env s c d cand = Inr r" if "cand \<in> set (candidates s d)" for cand
  proof -
    obtain pre over st where cand: "cand = (pre, over, st)"
      by (cases cand) auto
    have "ValidateStrategy env (snLimits s) st = None"
      using candidates_sound [OF assms(1,3)] that cand by (fastforce simp: soundStrategies_def)
    moreover have "\<not> isCustom st"
      using candidates_builtin [OF assms(2,3)] that cand by blast
    ultimately obtain r where "EvaluateStrategy env st \<lparr> siFeatureKey = dKey d, siContext = c \<rparr> = Inr r"
      using builtin_evaluates by blast
    then show ?thesis
      by (simp add: cand tryCandidate_def evaluateOneStrategy_def)
  qed
  then have "firstMatch (tryCandidate env s c d) (candidates s d) \<noteq> Inl e" for e
    using firstMatch_InlD by (metis sum.distinct(1))
  then show ?thesis
    unfolding evaluatePolicies_candidates [OF assms(1,3)]
    by (cases "firstMatch (tryCandidate env s c d) (candidates s d)" rule: option_res_cases) auto
qed

lemma dependenciesHold_InlD:
  "dependenciesHold env s c deps visiting depth = Inl e \<Longrightarrow>
     \<exists>dep\<in>set deps. evaluateKey env s c (FeatureKey dep) visiting depth = Inl e"
  by (induction deps) (auto simp: rbind_eq_Inl split: if_splits)

lemma wfSnapshot_acyclic:
  assumes "wfSnapshot env s"
  shows "(k, k) \<notin> (dependencyRel (snDefinitions s))\<^sup>+"
proof -
  have "acyclic (dependencyRel (snDefinitions s))"
    using assms wf_acyclic [of "(dependencyRel (snDefinitions s))\<inverse>"]
    by (simp add: wfSnapshot_def wfDefinitions_def acyclic_converse)
  then show ?thesis by (simp add: acyclic_def)
qed

lemma evaluateKey_errors:
  assumes "wfSnapshot env s" "builtinOnly s" "hasKey (snDefinitions s) key"
    and "\<forall>v\<in>set visiting. (v, key) \<in> (dependencyRel (snDefinitions s))\<^sup>+"
    and "evaluateKey env s c key visiting depth = Inl e"
  shows "e = ErrMsg ''evaluation depth exceeds limit'' \<and>
    (\<forall>n. depth + int n \<le> MaxEvaluationDepth (snLimits s) \<longrightarrow> \<not> depthWithin n (snDefinitions s) key)"
  using assms(3-5)
proof (induction "nat (MaxEvaluationDepth (snLimits s) + 1 - depth)" arbitrary: key visiting depth rule: less_induct)
  case less
  let ?R = "dependencyRel (snDefinitions s)"
  obtain d where d: "map_of (snDefinitions s) key = Some d"
    using less.prems(1) by (auto simp: hasKey_def)
  note acyclic = wfSnapshot_acyclic [OF assms(1)]
  show ?case
  proof (cases "depth > MaxEvaluationDepth (snLimits s)")
    case True
    then show ?thesis
      using less.prems(3) by (simp add: evaluateKey.simps [of env s c key])
  next
    case False
    have "key \<notin> set visiting"
      using less.prems(2) acyclic by blast
    then have "dependenciesHold env s c (dDependencies d) (key # visiting) (depth + 1) = Inl e"
      using less.prems(3) d False evaluatePolicies_total [OF assms(1,2) d, of c]
      by (auto simp: evaluateKey.simps [of env s c key] rbind_eq_Inl split: if_splits)
    then obtain dep where dep: "dep \<in> set (dDependencies d)"
        "evaluateKey env s c (FeatureKey dep) (key # visiting) (depth + 1) = Inl e"
      by (auto dest: dependenciesHold_InlD)
    have edge: "(key, FeatureKey dep) \<in> ?R"
      using d dep(1) by (auto simp: dependencyRel_def dependenciesOf_def)
    have "hasKey (snDefinitions s) (FeatureKey dep)"
      using assms(1) d dep(1)
      by (fastforce simp: wfSnapshot_def wfDefinitions_def resolvedDependencies_def hasKey_def dest!: map_of_SomeD)
    moreover have "\<forall>v\<in>set (key # visiting). (v, FeatureKey dep) \<in> ?R\<^sup>+"
      using less.prems(2) edge by (auto intro: trancl_into_trancl)
    ultimately have IH: "e = ErrMsg ''evaluation depth exceeds limit''"
        "\<And>n. depth + (1 + int n) \<le> MaxEvaluationDepth (snLimits s) \<Longrightarrow>
           \<not> depthWithin n (snDefinitions s) (FeatureKey dep)"
      using less.hyps [OF _ _ _ dep(2)] False by (auto simp: add.assoc)
    have "\<not> depthWithin n (snDefinitions s) key" if "depth + int n \<le> MaxEvaluationDepth (snLimits s)" for n
      using that IH(2) d dep(1) by (cases n) (auto simp: dependenciesOf_def list_all_iff)
    with IH(1) show ?thesis by blast
  qed
qed

section \<open>Dependencies and diagnostics\<close>

lemma dependenciesHold_True_iff:
  "dependenciesHold env s c deps visiting depth = Inr True \<longleftrightarrow>
     (\<forall>dep\<in>set deps. \<exists>r. evaluateKey env s c (FeatureKey dep) visiting depth = Inr r \<and>
        erVariant r = RequiredVariant dep)"
  by (induction deps) (auto simp: rbind_eq_Inr)

definition boundedDiagnostics :: "Limits \<Rightarrow> Diagnostic list \<Rightarrow> bool" where
  "boundedDiagnostics limits ds \<longleftrightarrow>
     len ds \<le> max 0 (MaxDiagnostics limits) \<and>
     (\<forall>g\<in>set ds. len (dgCode g) \<le> max 0 (MaxDiagnosticBytes limits) \<and>
        len (dgMessage g) \<le> max 0 (MaxDiagnosticBytes limits))"

lemma boundDiagnostics_bounded: "boundedDiagnostics limits (boundDiagnostics ds limits)"
  by (auto simp: boundedDiagnostics_def boundDiagnostics_def Let_def length_truncateUTF8)

lemma evaluatePolicies_diagnostics:
  assumes "wfSnapshot env s" "map_of (snDefinitions s) key = Some d"
    and "evaluatePolicies env s c d = Inr r"
  shows "boundedDiagnostics (snLimits s) (erDiagnostics r)"
proof (cases "firstMatch (tryCandidate env s c d) (candidates s d)" rule: option_res_cases)
  case (match x)
  then obtain cand where "tryCandidate env s c d cand = Inr (Some r)"
    using assms(3) evaluatePolicies_candidates [OF assms(1,2), of c] by (auto dest!: firstMatch_SomeD)
  then show ?thesis
    by (cases cand) (auto simp: tryCandidate_def evaluateOneStrategy_def rbind_eq_Inr
        boundDiagnostics_bounded split: if_splits)
qed (use assms(3) evaluatePolicies_candidates [OF assms(1,2), of c] in
    \<open>auto simp: defaultResult_def boundedDiagnostics_def\<close>)

end
