(* ===== verification/Memory.thy ===== *)
theory Memory
  imports Evaluate_Laws
begin

text \<open>
  The in-process provider of \<^verbatim>\<open>memory.go\<close>. Every operation runs under the provider's lock, so it is a
  function from the state and the arguments to the state afterwards and the result. The argument
  \<open>ctx\<close> is the value of \<^verbatim>\<open>ctx.Err()\<close> at admission. A map that \<^verbatim>\<open>make\<close> allocates before it is
  written reads as the nil map it replaces, so the allocation is part of the first write.
\<close>

section \<open>State\<close>

datatype AuditAction =
    AuditCreate | AuditUpdate | AuditActivate | AuditDeactivate | AuditDelete | AuditRestore
  | AuditGroupCreate | AuditGroupUpdate | AuditGroupDelete | AuditAssignGroup | AuditRemoveGroup
  | AuditImportCreate | AuditImportUpdate | AuditStageUpdate | AuditApplyStage
  | OtherAuditAction string

record AuditEntry =
  aeFeatureKey :: string
  aeAction :: AuditAction
  aeActor :: string
  aeVersion :: "64 word"

record memoryRecord =
  mrDefinition :: Definition
  mrDeleted :: bool

record StagedChange =
  stID :: "64 word"
  stDefinition :: Definition
  stExpectedVersion :: "64 word"
  stApplyAt :: Time
  stActor :: string

record MemoryProvider =
  mpLimits :: Limits
  mpTenants :: "(string \<times> memoryRecord) list gomap"
  mpGroups :: "(string \<times> GroupDefinition) list gomap"
  mpAudit :: "AuditEntry list gomap"
  mpStaged :: "(64 word \<times> StagedChange) list gomap"
  mpNextStage :: "64 word gomap"

definition NewMemoryProvider :: "Limits \<Rightarrow> MemoryProvider" where
  "NewMemoryProvider limits = \<lparr> mpLimits = limits, mpTenants = [], mpGroups = [], mpAudit = [],
     mpStaged = [], mpNextStage = [] \<rparr>"

abbreviation featuresOf :: "MemoryProvider \<Rightarrow> string \<Rightarrow> memoryRecord gomap" where
  "featuresOf p tenant \<equiv> inner (mpTenants p) tenant"

abbreviation groupsOf :: "MemoryProvider \<Rightarrow> string \<Rightarrow> GroupDefinition gomap" where
  "groupsOf p tenant \<equiv> inner (mpGroups p) tenant"

abbreviation auditOf :: "MemoryProvider \<Rightarrow> string \<Rightarrow> AuditEntry list" where
  "auditOf p tenant \<equiv> inner (mpAudit p) tenant"

abbreviation stagedOf :: "MemoryProvider \<Rightarrow> string \<Rightarrow> (64 word \<times> StagedChange) list" where
  "stagedOf p tenant \<equiv> inner (mpStaged p) tenant"

definition nextStageOf :: "MemoryProvider \<Rightarrow> string \<Rightarrow> 64 word" where
  "nextStageOf p tenant = (case map_of (mpNextStage p) tenant of None \<Rightarrow> 0 | Some n \<Rightarrow> n)"

section \<open>Shared steps\<close>

definition providerInput :: "err option \<Rightarrow> string \<Rightarrow> int \<Rightarrow> err option" where
  "providerInput ctx tenant maxTenantBytes =
     (case ctx of
        Some e \<Rightarrow> Some e
      | None \<Rightarrow>
          if tenant = [] then Some ErrTenantRequired
          else if len tenant > maxTenantBytes then Some ErrContextLimit
          else None)"

text \<open>An early return leaves the state as it is.\<close>

definition guardOp :: "'s \<Rightarrow> err option \<Rightarrow> 's \<times> 'a res \<Rightarrow> 's \<times> 'a res" where
  "guardOp p c k = (case c of Some e \<Rightarrow> (p, Inl e) | None \<Rightarrow> k)"

definition bindOp :: "'s \<Rightarrow> 'a res \<Rightarrow> ('a \<Rightarrow> 's \<times> 'b res) \<Rightarrow> 's \<times> 'b res" where
  "bindOp p r k = (case r of Inl e \<Rightarrow> (p, Inl e) | Inr x \<Rightarrow> k x)"

text \<open>
  \<^verbatim>\<open>appendAudit\<close> keeps the newest \<^verbatim>\<open>MaxAuditEntries\<close> entries. A negative bound makes the slice
  expression \<^verbatim>\<open>entries[excess:]\<close> panic.
\<close>

definition appendAudit :: "MemoryProvider \<Rightarrow> string \<Rightarrow> AuditEntry \<Rightarrow> MemoryProvider res" where
  "appendAudit p tenant entry =
     (let entries = auditOf p tenant @ [entry];
          excess = len entries - MaxAuditEntries (mpLimits p)
      in if excess > len entries then Inl ErrSlicePanic
         else Inr (p\<lparr> mpAudit := AList.update tenant
                (if excess > 0 then drop (nat excess) entries else entries) (mpAudit p) \<rparr>))"

definition audited :: "MemoryProvider \<Rightarrow> string \<Rightarrow> AuditEntry \<Rightarrow> 'a \<Rightarrow> MemoryProvider \<times> 'a res" where
  "audited p tenant entry result =
     (case appendAudit p tenant entry of Inl e \<Rightarrow> (p, Inl e) | Inr p' \<Rightarrow> (p', Inr result))"

definition storeFeature :: "MemoryProvider \<Rightarrow> string \<Rightarrow> string \<Rightarrow> memoryRecord \<Rightarrow> MemoryProvider" where
  "storeFeature p tenant key r =
     p\<lparr> mpTenants := AList.update tenant (AList.update key r (featuresOf p tenant)) (mpTenants p) \<rparr>"

definition storeGroup :: "MemoryProvider \<Rightarrow> string \<Rightarrow> string \<Rightarrow> GroupDefinition \<Rightarrow> MemoryProvider" where
  "storeGroup p tenant key g =
     p\<lparr> mpGroups := AList.update tenant (AList.update key g (groupsOf p tenant)) (mpGroups p) \<rparr>"

text \<open>The checks every mutation of a live feature starts with.\<close>

definition liveRecord :: "MemoryProvider \<Rightarrow> string \<Rightarrow> string \<Rightarrow> 64 word \<Rightarrow> memoryRecord res" where
  "liveRecord p tenant key expectedVersion =
     (case map_of (featuresOf p tenant) key of
        None \<Rightarrow> Inl ErrNotFound
      | Some r \<Rightarrow>
          if mrDeleted r then Inl ErrNotFound
          else if dVersion (mrDefinition r) \<noteq> expectedVersion then Inl ErrConflict
          else Inr r)"

definition commitFeature ::
  "MemoryProvider \<Rightarrow> string \<Rightarrow> string \<Rightarrow> memoryRecord \<Rightarrow> AuditAction \<Rightarrow> string \<Rightarrow> MemoryProvider \<times> Definition res" where
  "commitFeature p tenant key r action actor =
     audited (storeFeature p tenant key r) tenant
       \<lparr> aeFeatureKey = key, aeAction = action, aeActor = actor, aeVersion = dVersion (mrDefinition r) \<rparr>
       (cloneDefinition (mrDefinition r))"

definition activeDefinitionsLocked :: "MemoryProvider \<Rightarrow> string \<Rightarrow> Definition gomap" where
  "activeDefinitionsLocked p tenant =
     map (\<lambda>(key, r). (key, cloneDefinition (mrDefinition r)))
       (filter (\<lambda>(key, r). \<not> mrDeleted r) (featuresOf p tenant))"

definition groupDefinitionsLocked :: "env \<Rightarrow> MemoryProvider \<Rightarrow> string \<Rightarrow> GroupDefinition list" where
  "groupDefinitionsLocked env p tenant = map (\<lambda>(key, g). cloneGroup g) (rng env (groupsOf p tenant))"

section \<open>Features\<close>

definition Create ::
  "env \<Rightarrow> err option \<Rightarrow> string \<Rightarrow> Definition \<Rightarrow> string \<Rightarrow> MemoryProvider \<Rightarrow> MemoryProvider \<times> Definition res" where
  "Create env ctx tenant d actor p =
     guardOp p (providerInput ctx tenant (MaxKeyBytes (mpLimits p))) (
     guardOp p (ValidateDefinition env (mpLimits p) d) (
       if hasKey (featuresOf p tenant) (dKey d) then (p, Inl ErrAlreadyExists)
       else if len (featuresOf p tenant) \<ge> MaxFeatures (mpLimits p)
       then (p, Inl (ErrMsg ''features exceed limit''))
       else commitFeature p tenant (dKey d)
              \<lparr> mrDefinition = cloneDefinition (d\<lparr> dVersion := 1 \<rparr>), mrDeleted = False \<rparr> AuditCreate actor))"

definition Update ::
  "env \<Rightarrow> err option \<Rightarrow> string \<Rightarrow> Definition \<Rightarrow> 64 word \<Rightarrow> string \<Rightarrow> MemoryProvider \<Rightarrow> MemoryProvider \<times> Definition res" where
  "Update env ctx tenant d expectedVersion actor p =
     guardOp p (providerInput ctx tenant (MaxKeyBytes (mpLimits p))) (
     guardOp p (ValidateDefinition env (mpLimits p) d) (
     bindOp p (liveRecord p tenant (dKey d) expectedVersion) (\<lambda>r.
       commitFeature p tenant (dKey d)
         \<lparr> mrDefinition = cloneDefinition (d\<lparr> dVersion := dVersion (mrDefinition r) + 1 \<rparr>),
           mrDeleted = False \<rparr> AuditUpdate actor)))"

definition setLifecycle ::
  "err option \<Rightarrow> string \<Rightarrow> string \<Rightarrow> 64 word \<Rightarrow> string \<Rightarrow> Lifecycle \<Rightarrow> AuditAction \<Rightarrow> bool \<Rightarrow>
     MemoryProvider \<Rightarrow> MemoryProvider \<times> Definition res" where
  "setLifecycle ctx tenant key expectedVersion actor lifecycle action deleted p =
     guardOp p (providerInput ctx tenant (MaxKeyBytes (mpLimits p))) (
     bindOp p (liveRecord p tenant key expectedVersion) (\<lambda>r.
       commitFeature p tenant key
         (r\<lparr> mrDefinition := (mrDefinition r)\<lparr> dLifecycle := lifecycle, dVersion := dVersion (mrDefinition r) + 1 \<rparr>,
             mrDeleted := deleted \<rparr>) action actor))"

definition Activate :: "err option \<Rightarrow> string \<Rightarrow> string \<Rightarrow> 64 word \<Rightarrow> string \<Rightarrow> MemoryProvider \<Rightarrow> MemoryProvider \<times> Definition res" where
  "Activate ctx tenant key expectedVersion actor p =
     setLifecycle ctx tenant key expectedVersion actor LifecycleActive AuditActivate False p"

definition Deactivate :: "err option \<Rightarrow> string \<Rightarrow> string \<Rightarrow> 64 word \<Rightarrow> string \<Rightarrow> MemoryProvider \<Rightarrow> MemoryProvider \<times> Definition res" where
  "Deactivate ctx tenant key expectedVersion actor p =
     setLifecycle ctx tenant key expectedVersion actor LifecycleInactive AuditDeactivate False p"

definition Delete :: "err option \<Rightarrow> string \<Rightarrow> string \<Rightarrow> 64 word \<Rightarrow> string \<Rightarrow> MemoryProvider \<Rightarrow> MemoryProvider \<times> Definition res" where
  "Delete ctx tenant key expectedVersion actor p =
     setLifecycle ctx tenant key expectedVersion actor LifecycleArchived AuditDelete True p"

definition Restore :: "err option \<Rightarrow> string \<Rightarrow> string \<Rightarrow> 64 word \<Rightarrow> string \<Rightarrow> MemoryProvider \<Rightarrow> MemoryProvider \<times> Definition res" where
  "Restore ctx tenant key expectedVersion actor p =
     guardOp p (providerInput ctx tenant (MaxKeyBytes (mpLimits p)))
       (case map_of (featuresOf p tenant) key of
          None \<Rightarrow> (p, Inl ErrNotFound)
        | Some r \<Rightarrow>
            if \<not> mrDeleted r then (p, Inl ErrNotFound)
            else if dVersion (mrDefinition r) \<noteq> expectedVersion then (p, Inl ErrConflict)
            else commitFeature p tenant key
              (r\<lparr> mrDeleted := False,
                  mrDefinition := (mrDefinition r)\<lparr> dLifecycle := LifecycleInactive,
                    dVersion := dVersion (mrDefinition r) + 1 \<rparr> \<rparr>) AuditRestore actor)"

section \<open>Snapshots and audit\<close>

definition MemorySnapshot :: "env \<Rightarrow> err option \<Rightarrow> string \<Rightarrow> MemoryProvider \<Rightarrow> Snapshot res" where
  "MemorySnapshot env ctx tenant p =
     guardErr (providerInput ctx tenant (MaxKeyBytes (mpLimits p)))
       (rbind (NewSnapshotWithGroups env
                 (map (\<lambda>(key, r). cloneDefinition (mrDefinition r))
                    (filter (\<lambda>(key, r). \<not> mrDeleted r) (rng env (featuresOf p tenant))))
                 (map (\<lambda>(key, g). cloneGroup g) (rng env (groupsOf p tenant)))
                 (mpLimits p))
          (\<lambda>s. Inr (bindTenant s tenant)))"

definition Audit :: "err option \<Rightarrow> string \<Rightarrow> string \<Rightarrow> MemoryProvider \<Rightarrow> AuditEntry list res" where
  "Audit ctx tenant key p =
     guardErr (providerInput ctx tenant (MaxKeyBytes (mpLimits p)))
       (Inr (filter (\<lambda>entry. aeFeatureKey entry = key) (auditOf p tenant)))"

section \<open>Groups\<close>

definition zeroGroup :: GroupDefinition where
  "zeroGroup = \<lparr> gKey = [], gParent = [], gMetadata = [], gOwner = [], gTags = [], gVersion = 0, gStrategies = [] \<rparr>"

definition commitGroup ::
  "MemoryProvider \<Rightarrow> string \<Rightarrow> string \<Rightarrow> GroupDefinition gomap \<Rightarrow> AuditAction \<Rightarrow> string \<Rightarrow>
     MemoryProvider \<times> GroupDefinition res" where
  "commitGroup p tenant key cloned action actor =
     (let stored = (case map_of cloned key of Some x \<Rightarrow> x | None \<Rightarrow> zeroGroup) in
      audited (storeGroup p tenant key stored) tenant
        \<lparr> aeFeatureKey = key, aeAction = action, aeActor = actor, aeVersion = gVersion stored \<rparr>
        (cloneGroup stored))"

definition CreateGroup ::
  "env \<Rightarrow> err option \<Rightarrow> string \<Rightarrow> GroupDefinition \<Rightarrow> string \<Rightarrow> MemoryProvider \<Rightarrow> MemoryProvider \<times> GroupDefinition res" where
  "CreateGroup env ctx tenant g actor p =
     guardOp p (providerInput ctx tenant (MaxKeyBytes (mpLimits p))) (
       if hasKey (groupsOf p tenant) (gKey g) then (p, Inl ErrAlreadyExists)
       else let g' = g\<lparr> gVersion := 1 \<rparr>;
                prospective = map snd (rng env (groupsOf p tenant)) @ [g']
         in bindOp p (cloneAndValidateGroups env (activeDefinitionsLocked p tenant) prospective (mpLimits p))
              (\<lambda>cloned. commitGroup p tenant (gKey g) cloned AuditGroupCreate actor))"

definition UpdateGroup ::
  "env \<Rightarrow> err option \<Rightarrow> string \<Rightarrow> GroupDefinition \<Rightarrow> 64 word \<Rightarrow> string \<Rightarrow> MemoryProvider \<Rightarrow> MemoryProvider \<times> GroupDefinition res" where
  "UpdateGroup env ctx tenant g expectedVersion actor p =
     guardOp p (providerInput ctx tenant (MaxKeyBytes (mpLimits p)))
       (case map_of (groupsOf p tenant) (gKey g) of
          None \<Rightarrow> (p, Inl ErrNotFound)
        | Some current \<Rightarrow>
            if gVersion current \<noteq> expectedVersion then (p, Inl ErrConflict)
            else let g' = g\<lparr> gVersion := gVersion current + 1 \<rparr>;
                     prospective = map (\<lambda>x. if gKey x = gKey g then g' else x) (groupDefinitionsLocked env p tenant)
              in bindOp p (cloneAndValidateGroups env (activeDefinitionsLocked p tenant) prospective (mpLimits p))
                   (\<lambda>cloned. commitGroup p tenant (gKey g) cloned AuditGroupUpdate actor))"

definition DeleteGroup ::
  "err option \<Rightarrow> string \<Rightarrow> string \<Rightarrow> 64 word \<Rightarrow> string \<Rightarrow> MemoryProvider \<Rightarrow> MemoryProvider \<times> GroupDefinition res" where
  "DeleteGroup ctx tenant groupKey expectedVersion actor p =
     guardOp p (providerInput ctx tenant (MaxKeyBytes (mpLimits p)))
       (case map_of (groupsOf p tenant) groupKey of
          None \<Rightarrow> (p, Inl ErrNotFound)
        | Some g \<Rightarrow>
            if gVersion g \<noteq> expectedVersion then (p, Inl ErrConflict)
            else if list_ex (\<lambda>(key, r). \<not> mrDeleted r \<and> listed (dGroups (mrDefinition r)) groupKey) (featuresOf p tenant)
            then (p, Inl ErrGroupInUse)
            else if list_ex (\<lambda>(key, x). gParent x = groupKey) (groupsOf p tenant)
            then (p, Inl ErrGroupInUse)
            else let g' = g\<lparr> gVersion := gVersion g + 1 \<rparr> in
              audited (p\<lparr> mpGroups := AList.update tenant (AList.delete groupKey (groupsOf p tenant)) (mpGroups p) \<rparr>)
                tenant
                \<lparr> aeFeatureKey = groupKey, aeAction = AuditGroupDelete, aeActor = actor, aeVersion = gVersion g' \<rparr>
                (cloneGroup g'))"

definition AssignGroup ::
  "env \<Rightarrow> err option \<Rightarrow> string \<Rightarrow> string \<Rightarrow> string \<Rightarrow> 64 word \<Rightarrow> string \<Rightarrow> MemoryProvider \<Rightarrow> MemoryProvider \<times> Definition res" where
  "AssignGroup env ctx tenant featureKey groupKey expectedVersion actor p =
     guardOp p (providerInput ctx tenant (MaxKeyBytes (mpLimits p))) (
       if \<not> hasKey (groupsOf p tenant) groupKey then (p, Inl ErrNotFound)
       else bindOp p (liveRecord p tenant featureKey expectedVersion) (\<lambda>r.
         if listed (dGroups (mrDefinition r)) groupKey then (p, Inr (cloneDefinition (mrDefinition r)))
         else let updated = (mrDefinition r)\<lparr> dGroups := dGroups (mrDefinition r) @ [groupKey] \<rparr> in
           bindOp p (cloneAndValidateGroups env
               (AList.update featureKey updated (activeDefinitionsLocked p tenant))
               (groupDefinitionsLocked env p tenant) (mpLimits p))
             (\<lambda>_. commitFeature p tenant featureKey
                 (r\<lparr> mrDefinition := updated\<lparr> dVersion := dVersion updated + 1 \<rparr> \<rparr>) AuditAssignGroup actor)))"

definition RemoveGroup ::
  "err option \<Rightarrow> string \<Rightarrow> string \<Rightarrow> string \<Rightarrow> 64 word \<Rightarrow> string \<Rightarrow> MemoryProvider \<Rightarrow> MemoryProvider \<times> Definition res" where
  "RemoveGroup ctx tenant featureKey groupKey expectedVersion actor p =
     guardOp p (providerInput ctx tenant (MaxKeyBytes (mpLimits p))) (
     bindOp p (liveRecord p tenant featureKey expectedVersion) (\<lambda>r.
       if \<not> listed (dGroups (mrDefinition r)) groupKey then (p, Inl ErrNotFound)
       else commitFeature p tenant featureKey
         (r\<lparr> mrDefinition := (mrDefinition r)\<lparr>
               dGroups := filter (\<lambda>candidate. candidate \<noteq> groupKey) (dGroups (mrDefinition r)),
               dVersion := dVersion (mrDefinition r) + 1 \<rparr> \<rparr>) AuditRemoveGroup actor))"

end
