(* ===== verification/Staged.thy ===== *)
theory Staged
  imports Memory
begin

text \<open>
  Staged changes (\<^verbatim>\<open>staged.go\<close>), explicit maintenance (\<^verbatim>\<open>cleanup.go\<close>) and the application of an
  import (\<^verbatim>\<open>import.go\<close>) on the memory provider. These operations work on a copy of the tenant's
  records and replace the records only when every step succeeded.
\<close>

section \<open>Staging\<close>

definition cloneStagedChange :: "StagedChange \<Rightarrow> StagedChange" where
  "cloneStagedChange change = change\<lparr> stDefinition := cloneDefinition (stDefinition change) \<rparr>"

lemma cloneStagedChange_id [simp]: "cloneStagedChange change = change"
  by (simp add: cloneStagedChange_def)

definition StageUpdate ::
  "env \<Rightarrow> err option \<Rightarrow> string \<Rightarrow> Definition \<Rightarrow> 64 word \<Rightarrow> Time \<Rightarrow> string \<Rightarrow> MemoryProvider \<Rightarrow>
     MemoryProvider \<times> StagedChange res" where
  "StageUpdate env ctx tenant d expectedVersion applyAt actor p =
     guardOp p (providerInput ctx tenant (MaxKeyBytes (mpLimits p))) (
     guardOp p (ValidateDefinition env (mpLimits p) d) (
     bindOp p (liveRecord p tenant (dKey d) expectedVersion) (\<lambda>r.
       if len (stagedOf p tenant) \<ge> MaxStagedChanges (mpLimits p)
       then (p, Inl (ErrMsg ''staged changes exceed limit''))
       else if list_ex (\<lambda>(sid, staged). dKey (stDefinition staged) = dKey d) (stagedOf p tenant)
       then (p, Inl ErrAlreadyExists)
       else let sid = nextStageOf p tenant + 1;
                change = \<lparr> stID = sid, stDefinition = cloneDefinition d, stExpectedVersion = expectedVersion,
                           stApplyAt = applyAt, stActor = actor \<rparr>
         in audited
              (p\<lparr> mpNextStage := AList.update tenant sid (mpNextStage p),
                  mpStaged := AList.update tenant (AList.update sid change (stagedOf p tenant)) (mpStaged p) \<rparr>)
              tenant
              \<lparr> aeFeatureKey = dKey d, aeAction = AuditStageUpdate, aeActor = actor, aeVersion = expectedVersion \<rparr>
              (cloneStagedChange change))))"

section \<open>Applying stages\<close>

definition cloneMemoryRecords :: "memoryRecord gomap \<Rightarrow> memoryRecord gomap" where
  "cloneMemoryRecords records =
     map (\<lambda>(key, r). (key, r\<lparr> mrDefinition := cloneDefinition (mrDefinition r) \<rparr>)) records"

lemma cloneMemoryRecords_id [simp]: "cloneMemoryRecords records = records"
  by (induction records) (auto simp: cloneMemoryRecords_def)

definition definitionsFromRecords :: "env \<Rightarrow> memoryRecord gomap \<Rightarrow> Definition list" where
  "definitionsFromRecords env records =
     map (\<lambda>(key, r). cloneDefinition (mrDefinition r)) (filter (\<lambda>(key, r). \<not> mrDeleted r) (rng env records))"

text \<open>One round of the loop over the stage ids, and the loop.\<close>

definition applyOneStage ::
  "(64 word \<times> StagedChange) list \<Rightarrow> memoryRecord gomap \<Rightarrow> 64 word \<Rightarrow> (memoryRecord gomap \<times> Definition) res" where
  "applyOneStage staged records sid =
     (case map_of staged sid of
        None \<Rightarrow> Inl ErrNotFound
      | Some change \<Rightarrow>
          (case map_of records (dKey (stDefinition change)) of
             None \<Rightarrow> Inl ErrNotFound
           | Some r \<Rightarrow>
               if mrDeleted r then Inl ErrNotFound
               else if dVersion (mrDefinition r) \<noteq> stExpectedVersion change then Inl ErrConflict
               else let updated = (cloneDefinition (stDefinition change))\<lparr> dVersion := dVersion (mrDefinition r) + 1 \<rparr>
                 in Inr (AList.update (dKey updated) (r\<lparr> mrDefinition := updated \<rparr>) records, updated)))"

fun applyStageLoop ::
  "(64 word \<times> StagedChange) list \<Rightarrow> 64 word list \<Rightarrow> memoryRecord gomap \<Rightarrow> (memoryRecord gomap \<times> Definition list) res" where
  "applyStageLoop staged [] records = Inr (records, [])"
| "applyStageLoop staged (sid # ids) records =
     rbind (applyOneStage staged records sid) (\<lambda>(records', updated).
     rbind (applyStageLoop staged ids records') (\<lambda>(records'', results).
       Inr (records'', updated # results)))"

text \<open>After the commit: every applied stage is removed and audited.\<close>

fun settleStages ::
  "string \<Rightarrow> string \<Rightarrow> (64 word \<times> Definition) list \<Rightarrow> MemoryProvider \<Rightarrow> MemoryProvider \<times> err option" where
  "settleStages tenant actor [] p = (p, None)"
| "settleStages tenant actor ((sid, result) # rest) p =
     (let p' = p\<lparr> mpStaged := AList.update tenant (AList.delete sid (stagedOf p tenant)) (mpStaged p) \<rparr> in
      case appendAudit p' tenant
             \<lparr> aeFeatureKey = dKey result, aeAction = AuditApplyStage, aeActor = actor, aeVersion = dVersion result \<rparr> of
        Inl e \<Rightarrow> (p', Some e)
      | Inr p'' \<Rightarrow> settleStages tenant actor rest p'')"

definition commitStages ::
  "string \<Rightarrow> 64 word list \<Rightarrow> string \<Rightarrow> memoryRecord gomap \<Rightarrow> Definition list \<Rightarrow> MemoryProvider \<Rightarrow>
     MemoryProvider \<times> Definition list res" where
  "commitStages tenant ids actor records results p =
     (case settleStages tenant actor (zip ids results)
             (p\<lparr> mpTenants := AList.update tenant records (mpTenants p) \<rparr>) of
        (p', Some e) \<Rightarrow> (p', Inl e)
      | (p', None) \<Rightarrow> (p', Inr results))"

definition applyStagesLocked ::
  "env \<Rightarrow> string \<Rightarrow> 64 word list \<Rightarrow> string \<Rightarrow> MemoryProvider \<Rightarrow> MemoryProvider \<times> Definition list res" where
  "applyStagesLocked env tenant ids actor p =
     bindOp p (applyStageLoop (stagedOf p tenant) ids (cloneMemoryRecords (featuresOf p tenant)))
       (\<lambda>(records, results).
     bindOp p (NewSnapshotWithGroups env (definitionsFromRecords env records)
                 (groupDefinitionsLocked env p tenant) (mpLimits p)) (\<lambda>_.
       commitStages tenant ids actor records results p))"

definition ApplyStage ::
  "env \<Rightarrow> err option \<Rightarrow> string \<Rightarrow> 64 word \<Rightarrow> string \<Rightarrow> MemoryProvider \<Rightarrow> MemoryProvider \<times> Definition res" where
  "ApplyStage env ctx tenant sid actor p =
     guardOp p (providerInput ctx tenant (MaxKeyBytes (mpLimits p)))
       (case applyStagesLocked env tenant [sid] actor p of
          (p', Inl e) \<Rightarrow> (p', Inl e)
        | (p', Inr results) \<Rightarrow> (p', Inr (hd results)))"

definition dueStages :: "env \<Rightarrow> Time \<Rightarrow> (64 word \<times> StagedChange) list \<Rightarrow> 64 word list" where
  "dueStages env now staged =
     sort (map fst (filter (\<lambda>(sid, change). stApplyAt change \<noteq> 0 \<and> \<not> stApplyAt change > now) (rng env staged)))"

definition ApplyScheduled ::
  "env \<Rightarrow> err option \<Rightarrow> string \<Rightarrow> Time \<Rightarrow> string \<Rightarrow> MemoryProvider \<Rightarrow> MemoryProvider \<times> Definition list res" where
  "ApplyScheduled env ctx tenant now actor p =
     guardOp p (providerInput ctx tenant (MaxKeyBytes (mpLimits p))) (
       if now = 0 then (p, Inl (ErrMsg ''scheduled application time is required''))
       else let ids = dueStages env now (stagedOf p tenant) in
         if ids = [] then (p, Inr []) else applyStagesLocked env tenant ids actor p)"

definition StagedChanges :: "env \<Rightarrow> err option \<Rightarrow> string \<Rightarrow> MemoryProvider \<Rightarrow> StagedChange list res" where
  "StagedChanges env ctx tenant p =
     guardErr (providerInput ctx tenant (MaxKeyBytes (mpLimits p)))
       (Inr (map (\<lambda>sid. cloneStagedChange (the (map_of (stagedOf p tenant) sid)))
          (sort (map fst (rng env (stagedOf p tenant))))))"

section \<open>Maintenance\<close>

record CleanupOptions =
  coPurgeDeleted :: bool
  coDiscardStagesBefore :: Time
  coKeepAudit :: int

record CleanupReport =
  crDeletedFeatures :: int
  crDiscardedStages :: int
  crDiscardedAudit :: int

definition discardStage :: "string list \<Rightarrow> CleanupOptions \<Rightarrow> StagedChange \<Rightarrow> bool" where
  "discardStage purgedKeys options change \<longleftrightarrow>
     dKey (stDefinition change) \<in> set purgedKeys \<or>
     (coDiscardStagesBefore options \<noteq> 0 \<and> stApplyAt change \<noteq> 0 \<and>
      stApplyAt change < coDiscardStagesBefore options)"

definition Cleanup ::
  "err option \<Rightarrow> string \<Rightarrow> CleanupOptions \<Rightarrow> MemoryProvider \<Rightarrow> MemoryProvider \<times> CleanupReport res" where
  "Cleanup ctx tenant options p =
     guardOp p (providerInput ctx tenant (MaxKeyBytes (mpLimits p))) (
       if coKeepAudit options < 0 \<or> coKeepAudit options > MaxAuditEntries (mpLimits p)
       then (p, Inl (ErrMsg ''audit retention out of range''))
       else
         let purgedKeys = (if coPurgeDeleted options
               then map fst (filter (\<lambda>(key, r). mrDeleted r) (featuresOf p tenant)) else []);
             features = filter (\<lambda>(key, r). key \<notin> set purgedKeys) (featuresOf p tenant);
             staged = filter (\<lambda>(sid, change). \<not> discardStage purgedKeys options change) (stagedOf p tenant);
             discarded = len (auditOf p tenant) - coKeepAudit options;
             p' = p\<lparr> mpTenants := AList.update tenant features (mpTenants p),
                     mpStaged := AList.update tenant staged (mpStaged p) \<rparr>;
             report = \<lparr> crDeletedFeatures = len purgedKeys,
                        crDiscardedStages = len (stagedOf p tenant) - len staged, crDiscardedAudit = 0 \<rparr>
         in if coKeepAudit options > 0 \<and> \<not> discarded < 1
            then (p'\<lparr> mpAudit := AList.update tenant (drop (nat discarded) (auditOf p tenant)) (mpAudit p') \<rparr>,
                  Inr (report\<lparr> crDiscardedAudit := discarded \<rparr>))
            else (p', Inr report))"

end
