(* ===== verification/Imports.thy ===== *)
theory Imports
  imports Staged
begin

text \<open>
  \<^verbatim>\<open>ImportDocument\<close> of \<^verbatim>\<open>import.go\<close> from the decoded document on: the plan over copies of the
  tenant's groups and features, the conflict policies, the validation of the combined graph and the
  commit. The argument \<open>decoded\<close> is the result of \<^verbatim>\<open>Import(data, p.limits)\<close> (\<^verbatim>\<open>codec.go\<close>), \<open>ctx\<close> and
  \<open>ctx'\<close> are the values of \<^verbatim>\<open>ctx.Err()\<close> at admission and after decoding.
\<close>

datatype ConflictPolicy =
    NoConflictPolicy
  | ConflictFail
  | ConflictSkip
  | ConflictReplace
  | OtherConflictPolicy string

record ImportOptions =
  ioDryRun :: bool
  ioConflictPolicy :: ConflictPolicy

record ImportConflict =
  icResource :: string
  icKey :: string
  icCurrentVersion :: "64 word"
  icIncomingVersion :: "64 word"

record ImportReport =
  irDryRun :: bool
  irCreatedFeatures :: int
  irUpdatedFeatures :: int
  irCreatedGroups :: int
  irUpdatedGroups :: int
  irSkipped :: int
  irConflicts :: "ImportConflict list"

record pendingAudit =
  paKey :: string
  paAction :: AuditAction
  paVersion :: "64 word"

definition emptyReport :: "bool \<Rightarrow> ImportReport" where
  "emptyReport dryRun = \<lparr> irDryRun = dryRun, irCreatedFeatures = 0, irUpdatedFeatures = 0,
     irCreatedGroups = 0, irUpdatedGroups = 0, irSkipped = 0, irConflicts = [] \<rparr>"

section \<open>The plan\<close>

type_synonym 'a plan = "'a gomap \<times> ImportReport \<times> pendingAudit list"

definition planGroup ::
  "ConflictPolicy \<Rightarrow> GroupDefinition \<Rightarrow> GroupDefinition plan \<Rightarrow> GroupDefinition plan" where
  "planGroup policy g plan = (case plan of (groups, report, audits) \<Rightarrow>
     (case map_of groups (gKey g) of
        Some current \<Rightarrow>
          let report' = report\<lparr> irConflicts := irConflicts report @
                [\<lparr> icResource = ''group'', icKey = gKey g, icCurrentVersion = gVersion current,
                   icIncomingVersion = gVersion g \<rparr>] \<rparr>
          in if policy = ConflictReplace then
               let g' = g\<lparr> gVersion := gVersion current + 1 \<rparr> in
               (AList.update (gKey g) (cloneGroup g') groups,
                report'\<lparr> irUpdatedGroups := irUpdatedGroups report' + 1 \<rparr>,
                audits @ [\<lparr> paKey = gKey g, paAction = AuditImportUpdate, paVersion = gVersion g' \<rparr>])
             else (groups, report'\<lparr> irSkipped := irSkipped report' + 1 \<rparr>, audits)
      | None \<Rightarrow>
          let g' = g\<lparr> gVersion := 1 \<rparr> in
          (AList.update (gKey g) (cloneGroup g') groups,
           report\<lparr> irCreatedGroups := irCreatedGroups report + 1 \<rparr>,
           audits @ [\<lparr> paKey = gKey g, paAction = AuditImportCreate, paVersion = gVersion g' \<rparr>])))"

definition planFeature ::
  "ConflictPolicy \<Rightarrow> Definition \<Rightarrow> memoryRecord plan \<Rightarrow> memoryRecord plan" where
  "planFeature policy d plan = (case plan of (records, report, audits) \<Rightarrow>
     (case map_of records (dKey d) of
        Some current \<Rightarrow>
          let report' = report\<lparr> irConflicts := irConflicts report @
                [\<lparr> icResource = ''feature'', icKey = dKey d, icCurrentVersion = dVersion (mrDefinition current),
                   icIncomingVersion = dVersion d \<rparr>] \<rparr>
          in if policy = ConflictReplace then
               let d' = d\<lparr> dVersion := dVersion (mrDefinition current) + 1 \<rparr> in
               (AList.update (dKey d) \<lparr> mrDefinition = cloneDefinition d', mrDeleted = False \<rparr> records,
                report'\<lparr> irUpdatedFeatures := irUpdatedFeatures report' + 1 \<rparr>,
                audits @ [\<lparr> paKey = dKey d, paAction = AuditImportUpdate, paVersion = dVersion d' \<rparr>])
             else (records, report'\<lparr> irSkipped := irSkipped report' + 1 \<rparr>, audits)
      | None \<Rightarrow>
          let d' = d\<lparr> dVersion := 1 \<rparr> in
          (AList.update (dKey d) \<lparr> mrDefinition = cloneDefinition d', mrDeleted = False \<rparr> records,
           report\<lparr> irCreatedFeatures := irCreatedFeatures report + 1 \<rparr>,
           audits @ [\<lparr> paKey = dKey d, paAction = AuditImportCreate, paVersion = dVersion d' \<rparr>])))"

section \<open>The operation\<close>

definition groupsFromMap :: "env \<Rightarrow> GroupDefinition gomap \<Rightarrow> GroupDefinition list" where
  "groupsFromMap env groups = map (\<lambda>(key, g). cloneGroup g) (rng env groups)"

definition cloneGroupMap :: "GroupDefinition gomap \<Rightarrow> GroupDefinition gomap" where
  "cloneGroupMap groups = map (\<lambda>(key, g). (key, cloneGroup g)) groups"

fun appendAudits :: "string \<Rightarrow> string \<Rightarrow> pendingAudit list \<Rightarrow> MemoryProvider \<Rightarrow> MemoryProvider \<times> err option" where
  "appendAudits tenant actor [] p = (p, None)"
| "appendAudits tenant actor (a # as) p =
     (case appendAudit p tenant
             \<lparr> aeFeatureKey = paKey a, aeAction = paAction a, aeActor = actor, aeVersion = paVersion a \<rparr> of
        Inl e \<Rightarrow> (p, Some e)
      | Inr p' \<Rightarrow> appendAudits tenant actor as p')"

definition planImport ::
  "ConflictPolicy \<Rightarrow> bool \<Rightarrow> Definition list \<Rightarrow> GroupDefinition list \<Rightarrow> string \<Rightarrow> MemoryProvider \<Rightarrow>
     memoryRecord gomap \<times> GroupDefinition gomap \<times> ImportReport \<times> pendingAudit list" where
  "planImport policy dryRun definitions groups tenant p =
     (case fold (planGroup policy) groups (cloneGroupMap (groupsOf p tenant), emptyReport dryRun, []) of
        (groupRecords, report, audits) \<Rightarrow>
          (case fold (planFeature policy) definitions (cloneMemoryRecords (featuresOf p tenant), report, audits) of
             (records, report', audits') \<Rightarrow> (records, groupRecords, report', audits')))"

definition ImportDocument ::
  "env \<Rightarrow> err option \<Rightarrow> err option \<Rightarrow> string \<Rightarrow> (Definition list \<times> GroupDefinition list) res \<Rightarrow>
     ImportOptions \<Rightarrow> string \<Rightarrow> MemoryProvider \<Rightarrow> MemoryProvider \<times> ImportReport \<times> err option" where
  "ImportDocument env ctx ctx' tenant decoded options actor p =
     (let failed = (\<lambda>e. (p, emptyReport False, Some e));
          policy = (if ioConflictPolicy options = NoConflictPolicy then ConflictFail else ioConflictPolicy options)
      in case providerInput ctx tenant (MaxKeyBytes (mpLimits p)) of Some e \<Rightarrow> failed e | None \<Rightarrow>
         if policy \<noteq> ConflictFail \<and> policy \<noteq> ConflictSkip \<and> policy \<noteq> ConflictReplace
         then failed (ErrMsg ''unknown conflict policy'')
         else case decoded of Inl e \<Rightarrow> failed e | Inr (definitions, groups) \<Rightarrow>
         (case ctx' of Some e \<Rightarrow> failed e | None \<Rightarrow>
         (case planImport policy (ioDryRun options) definitions groups tenant p of
            (records, groupRecords, report, audits) \<Rightarrow>
              if policy = ConflictFail \<and> irConflicts report \<noteq> [] \<and> \<not> ioDryRun options
              then (p, report, Some ErrImportConflict)
              else case NewSnapshotWithGroups env (definitionsFromRecords env records)
                     (groupsFromMap env groupRecords) (mpLimits p) of
                Inl e \<Rightarrow> (p, report, Some e)
              | Inr _ \<Rightarrow>
                  if ioDryRun options then (p, report, None)
                  else (case appendAudits tenant actor audits
                         (p\<lparr> mpTenants := AList.update tenant records (mpTenants p),
                             mpGroups := AList.update tenant groupRecords (mpGroups p) \<rparr>) of
                     (p', e) \<Rightarrow> (p', report, e)))))"

lemma cloneGroupMap_id [simp]: "cloneGroupMap groups = groups"
  by (induction groups) (auto simp: cloneGroupMap_def)

end
