(* ===== verification/Memory_Laws.thy ===== *)
theory Memory_Laws
  imports Imports
begin

text \<open>
  The memory provider as a whole: one command for every mutating method of the \<^verbatim>\<open>Provider\<close> interface
  (\<^verbatim>\<open>provider.go\<close>), the states reachable by any sequence of commands, the invariant they keep, and
  the frame of a command: it touches its tenant only, and nothing when it fails.
\<close>

section \<open>Commands\<close>

datatype command =
    DoCreate Definition
  | DoUpdate Definition "64 word"
  | DoActivate string "64 word"
  | DoDeactivate string "64 word"
  | DoDelete string "64 word"
  | DoRestore string "64 word"
  | DoCreateGroup GroupDefinition
  | DoUpdateGroup GroupDefinition "64 word"
  | DoDeleteGroup string "64 word"
  | DoAssignGroup string string "64 word"
  | DoRemoveGroup string string "64 word"
  | DoImportDocument "err option" "(Definition list \<times> GroupDefinition list) res" ImportOptions
  | DoStageUpdate Definition "64 word" Time
  | DoApplyStage "64 word"
  | DoApplyScheduled Time
  | DoCleanup CleanupOptions

definition outcome :: "MemoryProvider \<times> 'a res \<Rightarrow> MemoryProvider \<times> err option" where
  "outcome x = (case x of (p, Inl e) \<Rightarrow> (p, Some e) | (p, Inr _) \<Rightarrow> (p, None))"

fun perform ::
  "env \<Rightarrow> err option \<Rightarrow> string \<Rightarrow> string \<Rightarrow> command \<Rightarrow> MemoryProvider \<Rightarrow> MemoryProvider \<times> err option" where
  "perform env ctx t actor (DoCreate d) p = outcome (Create env ctx t d actor p)"
| "perform env ctx t actor (DoUpdate d v) p = outcome (Update env ctx t d v actor p)"
| "perform env ctx t actor (DoActivate k v) p = outcome (Activate ctx t k v actor p)"
| "perform env ctx t actor (DoDeactivate k v) p = outcome (Deactivate ctx t k v actor p)"
| "perform env ctx t actor (DoDelete k v) p = outcome (Delete ctx t k v actor p)"
| "perform env ctx t actor (DoRestore k v) p = outcome (Restore ctx t k v actor p)"
| "perform env ctx t actor (DoCreateGroup g) p = outcome (CreateGroup env ctx t g actor p)"
| "perform env ctx t actor (DoUpdateGroup g v) p = outcome (UpdateGroup env ctx t g v actor p)"
| "perform env ctx t actor (DoDeleteGroup k v) p = outcome (DeleteGroup ctx t k v actor p)"
| "perform env ctx t actor (DoAssignGroup f g v) p = outcome (AssignGroup env ctx t f g v actor p)"
| "perform env ctx t actor (DoRemoveGroup f g v) p = outcome (RemoveGroup ctx t f g v actor p)"
| "perform env ctx t actor (DoImportDocument ctx' decoded options) p =
     (case ImportDocument env ctx ctx' t decoded options actor p of (p', report, e) \<Rightarrow> (p', e))"
| "perform env ctx t actor (DoStageUpdate d v at) p = outcome (StageUpdate env ctx t d v at actor p)"
| "perform env ctx t actor (DoApplyStage i) p = outcome (ApplyStage env ctx t i actor p)"
| "perform env ctx t actor (DoApplyScheduled now) p = outcome (ApplyScheduled env ctx t now actor p)"
| "perform env ctx t actor (DoCleanup options) p = outcome (Cleanup ctx t options p)"

text \<open>Every command may see its own iteration orders; the time-zone database stays the same.\<close>

definition sameZones :: "env \<Rightarrow> env \<Rightarrow> bool" where
  "sameZones env env' \<longleftrightarrow> wfEnv env \<and> wfEnv env' \<and> loadLocation env' = loadLocation env"

inductive reachable :: "env \<Rightarrow> Limits \<Rightarrow> MemoryProvider \<Rightarrow> bool" for env limits where
  reachable_new: "reachable env limits (NewMemoryProvider limits)"
| reachable_step: "reachable env limits p \<Longrightarrow> sameZones env env' \<Longrightarrow>
    reachable env limits (fst (perform env' ctx t actor cmd p))"

section \<open>Shape of the operations\<close>

lemma outcome_simps [simp]:
  "outcome (p, Inl e) = (p, Some e)"
  "outcome (p, Inr x) = (p, None)"
  by (simp_all add: outcome_def)

lemma fst_outcome [simp]: "fst (outcome x) = fst x"
  by (cases x; cases "snd x") (auto simp: outcome_def)

lemma snd_outcome_None [simp]: "snd (outcome x) = None \<longleftrightarrow> (\<exists>y. snd x = Inr y)"
  by (cases x; cases "snd x") (auto simp: outcome_def)

lemma snd_outcome_Some [simp]: "snd (outcome x) = Some e \<longleftrightarrow> snd x = Inl e"
  by (cases x; cases "snd x") (auto simp: outcome_def)

lemma guardOp_simps [simp]:
  "guardOp p None k = k"
  "guardOp p (Some e) k = (p, Inl e)"
  by (simp_all add: guardOp_def)

lemma bindOp_simps [simp]:
  "bindOp p (Inl e) k = (p, Inl e)"
  "bindOp p (Inr x) k = k x"
  by (simp_all add: bindOp_def)

text \<open>
  Any property of outcomes that holds for early returns and for the continuation holds for a guarded
  operation.
\<close>

lemma guardOp_rule: "(\<And>e. c = Some e \<Longrightarrow> P (p, Inl e)) \<Longrightarrow> (c = None \<Longrightarrow> P k) \<Longrightarrow> P (guardOp p c k)"
  by (cases c) auto

lemma bindOp_rule: "(\<And>e. r = Inl e \<Longrightarrow> P (p, Inl e)) \<Longrightarrow> (\<And>x. r = Inr x \<Longrightarrow> P (k x)) \<Longrightarrow> P (bindOp p r k)"
  by (cases r) auto

definition newest :: "nat \<Rightarrow> 'a list \<Rightarrow> 'a list" where
  "newest n xs = drop (length xs - n) xs"

lemma length_newest: "length (newest n xs) = min n (length xs)"
  by (simp add: newest_def)

lemma trim_newest:
  "0 \<le> m \<Longrightarrow> (if len xs - m > 0 then drop (nat (len xs - m)) xs else xs) = newest (nat m) xs"
  by (auto simp: newest_def nat_diff_distrib' le_nat_iff)

lemma appendAudit_eq:
  "appendAudit p t entry =
     (if MaxAuditEntries (mpLimits p) < 0 then Inl ErrSlicePanic
      else Inr (p\<lparr> mpAudit := AList.update t
             (newest (nat (MaxAuditEntries (mpLimits p))) (auditOf p t @ [entry])) (mpAudit p) \<rparr>))"
proof (cases "MaxAuditEntries (mpLimits p) < 0")
  case False
  then show ?thesis
    unfolding appendAudit_def Let_def by (subst trim_newest) (auto simp: not_less)
qed (simp add: appendAudit_def Let_def)

section \<open>The frame\<close>

definition sameTenant :: "string \<Rightarrow> MemoryProvider \<Rightarrow> MemoryProvider \<Rightarrow> bool" where
  "sameTenant t p p' \<longleftrightarrow> featuresOf p' t = featuresOf p t \<and> groupsOf p' t = groupsOf p t \<and>
     auditOf p' t = auditOf p t \<and> stagedOf p' t = stagedOf p t \<and> nextStageOf p' t = nextStageOf p t"

text \<open>What a command of tenant \<open>t\<close> may do: keep the limits and every other tenant; keep everything on failure.\<close>

definition confined :: "string \<Rightarrow> MemoryProvider \<Rightarrow> MemoryProvider \<times> 'a res \<Rightarrow> bool" where
  "confined t p x \<longleftrightarrow>
     mpLimits (fst x) = mpLimits p \<and> (\<forall>t'. t' \<noteq> t \<longrightarrow> sameTenant t' p (fst x)) \<and>
     (\<forall>e. snd x = Inl e \<longrightarrow> 0 \<le> MaxAuditEntries (mpLimits p) \<longrightarrow> fst x = p)"

lemma confined_fail [simp, intro]: "confined t p (p, Inl e)"
  by (simp add: confined_def sameTenant_def)

lemma confined_keep [simp, intro]: "confined t p (p, Inr x)"
  by (simp add: confined_def sameTenant_def)

lemma confined_commit:
  "mpLimits p' = mpLimits p \<Longrightarrow> (\<And>t'. t' \<noteq> t \<Longrightarrow> sameTenant t' p p') \<Longrightarrow> confined t p (p', Inr x)"
  by (simp add: confined_def)

lemma confined_audited:
  assumes "mpLimits p' = mpLimits p" "\<And>t'. t' \<noteq> t \<Longrightarrow> sameTenant t' p p'"
  shows "confined t p (audited p' t entry x)"
  using assms by (auto simp: confined_def audited_def appendAudit_eq sameTenant_def nextStageOf_def)

lemma confined_commitFeature: "confined t p (commitFeature p t key r action actor)"
  unfolding commitFeature_def
  by (rule confined_audited) (simp_all add: storeFeature_def sameTenant_def nextStageOf_def)

lemma confined_commitGroup: "confined t p (commitGroup p t key cloned action actor)"
  unfolding commitGroup_def Let_def
  by (rule confined_audited) (simp_all add: storeGroup_def sameTenant_def nextStageOf_def)

lemma settleStages_frame:
  assumes "settleStages t actor work p = (p', r)"
  shows "mpLimits p' = mpLimits p \<and> mpTenants p' = mpTenants p \<and> mpGroups p' = mpGroups p \<and>
    (\<forall>t'. t' \<noteq> t \<longrightarrow> sameTenant t' p p') \<and>
    (0 \<le> MaxAuditEntries (mpLimits p) \<longrightarrow> r = None) \<and> mpNextStage p' = mpNextStage p"
  using assms
proof (induction work arbitrary: p)
  case (Cons w work)
  obtain sid result where w: "w = (sid, result)"
    by (cases w)
  show ?case
  proof (cases "MaxAuditEntries (mpLimits p) < 0")
    case True
    then show ?thesis
      using Cons.prems w by (auto simp: Let_def appendAudit_eq sameTenant_def nextStageOf_def)
  next
    case False
    let ?d = "p\<lparr> mpStaged := AList.update t (AList.delete sid (stagedOf p t)) (mpStaged p) \<rparr>"
    let ?q = "?d\<lparr> mpAudit := AList.update t (newest (nat (MaxAuditEntries (mpLimits p))) (auditOf p t @
        [\<lparr> aeFeatureKey = dKey result, aeAction = AuditApplyStage, aeActor = actor, aeVersion = dVersion result \<rparr>]))
        (mpAudit p) \<rparr>"
    have "settleStages t actor work ?q = (p', r)"
      using Cons.prems False by (simp add: w Let_def appendAudit_eq)
    from Cons.IH [OF this] show ?thesis
      by (simp add: sameTenant_def nextStageOf_def)
  qed
qed (auto simp: sameTenant_def)

lemma confined_commitStages: "confined t p (commitStages t ids actor records results p)"
proof -
  obtain p' r where s: "settleStages t actor (zip ids results)
      (p\<lparr> mpTenants := AList.update t records (mpTenants p) \<rparr>) = (p', r)"
    by fastforce
  note frame = settleStages_frame [OF s]
  have "\<forall>t'. t' \<noteq> t \<longrightarrow> sameTenant t' p p'"
    using frame by (simp add: sameTenant_def nextStageOf_def)
  then show ?thesis
    using frame by (cases r) (simp_all add: s confined_def commitStages_def)
qed

lemma confined_applyStagesLocked: "confined t p (applyStagesLocked env t ids actor p)"
  unfolding applyStagesLocked_def case_prod_unfold
  by (intro bindOp_rule [where P = "confined t p"] confined_fail confined_commitStages)

lemmas confined_intros = guardOp_rule [where P = "confined t p" for t p] bindOp_rule [where P = "confined t p" for t p]
  confined_fail confined_keep confined_commitFeature confined_commitGroup confined_applyStagesLocked

lemmas feature_op_defs = Create_def Update_def setLifecycle_def Activate_def Deactivate_def Delete_def
  Restore_def AssignGroup_def RemoveGroup_def

lemmas group_op_defs = CreateGroup_def UpdateGroup_def DeleteGroup_def

lemma confined_features:
  "confined t p (Create env ctx t d actor p)"
  "confined t p (Update env ctx t d v actor p)"
  "confined t p (setLifecycle ctx t k v actor l a b p)"
  "confined t p (Restore ctx t k v actor p)"
  "confined t p (AssignGroup env ctx t f g v actor p)"
  "confined t p (RemoveGroup ctx t f g v actor p)"
  by (auto simp: feature_op_defs Let_def intro!: confined_intros split: option.split)

lemma confined_groups:
  "confined t p (CreateGroup env ctx t g actor p)"
  "confined t p (UpdateGroup env ctx t g v actor p)"
  "confined t p (DeleteGroup ctx t k v actor p)"
  by (auto simp: group_op_defs Let_def sameTenant_def nextStageOf_def
      intro!: confined_intros confined_audited split: option.split)

lemma confined_staged:
  "confined t p (StageUpdate env ctx t d v at actor p)"
  "confined t p (ApplyScheduled env ctx t now actor p)"
  "confined t p (Cleanup ctx t options p)"
  by (auto simp: StageUpdate_def ApplyScheduled_def Cleanup_def Let_def sameTenant_def nextStageOf_def
      intro!: confined_intros confined_audited confined_commit)

lemma confined_ApplyStage: "confined t p (ApplyStage env ctx t i actor p)"
proof -
  obtain p' r where s: "applyStagesLocked env t [i] actor p = (p', r)"
    by fastforce
  have "confined t p (p', r)"
    using confined_applyStagesLocked [of t p env "[i]" actor] s by simp
  then show ?thesis
    unfolding ApplyStage_def s by (intro confined_intros) (cases r; auto simp: confined_def)
qed

lemma appendAudits_frame:
  assumes "appendAudits t actor as p = (p', r)"
  shows "mpLimits p' = mpLimits p \<and> mpTenants p' = mpTenants p \<and> mpGroups p' = mpGroups p \<and>
    mpStaged p' = mpStaged p \<and> mpNextStage p' = mpNextStage p \<and>
    (\<forall>t'. t' \<noteq> t \<longrightarrow> auditOf p' t' = auditOf p t') \<and>
    (0 \<le> MaxAuditEntries (mpLimits p) \<longrightarrow> r = None)"
  using assms
proof (induction as arbitrary: p)
  case (Cons a as)
  show ?case
  proof (cases "MaxAuditEntries (mpLimits p) < 0")
    case False
    let ?q = "p\<lparr> mpAudit := AList.update t (newest (nat (MaxAuditEntries (mpLimits p))) (auditOf p t @
        [\<lparr> aeFeatureKey = paKey a, aeAction = paAction a, aeActor = actor, aeVersion = paVersion a \<rparr>]))
        (mpAudit p) \<rparr>"
    have "appendAudits t actor as ?q = (p', r)"
      using Cons.prems False by (simp add: appendAudit_eq)
    from Cons.IH [OF this] show ?thesis
      by simp
  qed (use Cons.prems in \<open>auto simp: appendAudit_eq\<close>)
qed auto

text \<open>The import either keeps the state or commits the planned records and groups.\<close>

lemma ImportDocument_cases [consumes 1, case_names kept committed]:
  assumes "ImportDocument env ctx ctx' t decoded options actor p = (p', report, e)"
  obtains "p' = p" | ds gs policy records groupRecords audits s where
    "decoded = Inr (ds, gs)" "\<not> ioDryRun options" "providerInput ctx t (MaxKeyBytes (mpLimits p)) = None"
    "policy = (if ioConflictPolicy options = NoConflictPolicy then ConflictFail else ioConflictPolicy options)"
    "planImport policy False ds gs t p = (records, groupRecords, report, audits)"
    "policy = ConflictFail \<longrightarrow> irConflicts report = []"
    "NewSnapshotWithGroups env (definitionsFromRecords env records) (groupsFromMap env groupRecords) (mpLimits p) = Inr s"
    "appendAudits t actor audits (p\<lparr> mpTenants := AList.update t records (mpTenants p),
       mpGroups := AList.update t groupRecords (mpGroups p) \<rparr>) = (p', e)"
  using assms
  by (auto simp: ImportDocument_def Let_def split: option.splits if_splits sum.splits prod.splits)

definition confinedTo :: "string \<Rightarrow> MemoryProvider \<Rightarrow> MemoryProvider \<Rightarrow> err option \<Rightarrow> bool" where
  "confinedTo t p p' e \<longleftrightarrow>
     mpLimits p' = mpLimits p \<and> (\<forall>t'. t' \<noteq> t \<longrightarrow> sameTenant t' p p') \<and>
     (0 \<le> MaxAuditEntries (mpLimits p) \<and> e \<noteq> None \<longrightarrow> p' = p)"

lemma outcome_confined: "outcome x = (p', e) \<Longrightarrow> confined t p x \<Longrightarrow> confinedTo t p p' e"
  by (cases x; cases "snd x") (auto simp: confined_def confinedTo_def)

lemma perform_confined:
  assumes "perform env ctx t actor cmd p = (p', e)"
  shows "confinedTo t p p' e"
proof (cases cmd)
  case (DoImportDocument ctx' decoded options)
  then obtain report where import: "ImportDocument env ctx ctx' t decoded options actor p = (p', report, e)"
    using assms by (auto split: prod.splits)
  from this show ?thesis
  proof (cases rule: ImportDocument_cases)
    case committed
    then show ?thesis
      using appendAudits_frame [OF committed(8)] by (auto simp: confinedTo_def sameTenant_def nextStageOf_def)
  qed (simp add: confinedTo_def sameTenant_def)
qed (use assms in \<open>auto simp: Activate_def Deactivate_def Delete_def elim!: outcome_confined
      intro: confined_features confined_groups confined_staged confined_ApplyStage\<close>)

end
