(* ===== verification/Memory_Inv.thy ===== *)
theory Memory_Inv
  imports Memory_Laws
begin

text \<open>
  The invariant of the memory provider, kept by every command under every iteration order: stored
  definitions are well typed under their key, the group map is a valid inheritance graph, staged
  changes are well typed, few enough and at most one per feature, and the audit log is bounded.
\<close>

section \<open>Validity does not depend on the iteration order\<close>

lemma sameZones_ValidateStrategy:
  assumes "sameZones env env'"
  shows "ValidateStrategy env' limits s = None \<longleftrightarrow> ValidateStrategy env limits s = None"
  using assms
  by (cases s)
    (auto simp: sameZones_def validateExact_def validateSchedule_def firstErr_None_iff split: option.splits)

lemma sameZones_soundStrategies:
  "sameZones env env' \<Longrightarrow> soundStrategies env' limits vs ss = soundStrategies env limits vs ss"
  by (simp add: soundStrategies_def sameZones_ValidateStrategy)

lemma sameZones_validGroup:
  "sameZones env env' \<Longrightarrow> validGroup env' limits g = validGroup env limits g"
  by (simp add: validateGroup_def validateGroupStrategy_def seqErr_None_iff firstErr_None_iff
      sameZones_ValidateStrategy) (simp add: sameZones_def)

section \<open>The invariant of one tenant\<close>

definition wfRecord :: "env \<Rightarrow> Limits \<Rightarrow> string \<Rightarrow> Definition \<Rightarrow> bool" where
  "wfRecord env limits key d \<longleftrightarrow>
     dKey d = key \<and> typedDefinition limits d \<and> soundStrategies env limits (dVariants d) (dStrategies d)"

definition wfFeatures :: "env \<Rightarrow> Limits \<Rightarrow> memoryRecord gomap \<Rightarrow> bool" where
  "wfFeatures env limits features \<longleftrightarrow>
     distinctKeys features \<and>
     (\<forall>k r. map_of features k = Some r \<longrightarrow> wfRecord env limits k (mrDefinition r))"

definition wfGroupMap :: "env \<Rightarrow> Limits \<Rightarrow> GroupDefinition gomap \<Rightarrow> bool" where
  "wfGroupMap env limits groups \<longleftrightarrow>
     wfGroups limits groups \<and> (\<forall>(k, g)\<in>set groups. validGroup env limits g)"

definition wfStages :: "env \<Rightarrow> Limits \<Rightarrow> (64 word \<times> StagedChange) list \<Rightarrow> bool" where
  "wfStages env limits staged \<longleftrightarrow>
     distinctKeys staged \<and> len staged \<le> max 0 (MaxStagedChanges limits) \<and>
     (\<forall>i c. map_of staged i = Some c \<longrightarrow>
        stID c = i \<and> wfRecord env limits (dKey (stDefinition c)) (stDefinition c) \<and>
        (\<forall>j c'. map_of staged j = Some c' \<and> dKey (stDefinition c') = dKey (stDefinition c) \<longrightarrow> j = i))"

definition wfAt :: "env \<Rightarrow> string \<Rightarrow> MemoryProvider \<Rightarrow> bool" where
  "wfAt env t p \<longleftrightarrow>
     wfFeatures env (mpLimits p) (featuresOf p t) \<and>
     wfGroupMap env (mpLimits p) (groupsOf p t) \<and>
     wfStages env (mpLimits p) (stagedOf p t) \<and>
     len (auditOf p t) \<le> max 0 (MaxAuditEntries (mpLimits p))"

definition wfProvider :: "env \<Rightarrow> MemoryProvider \<Rightarrow> bool" where
  "wfProvider env p \<longleftrightarrow> (\<forall>t. wfAt env t p)"

lemma wfProvider_new: "wfProvider env (NewMemoryProvider limits)"
  by (simp add: wfProvider_def wfAt_def NewMemoryProvider_def wfFeatures_def wfGroupMap_def wfGroups_def
      wfStages_def)

lemma ValidateDefinition_wfRecord:
  assumes "sameZones env env'" "ValidateDefinition env' limits d = None"
  shows "wfRecord env limits (dKey d) d"
  using assms ValidateDefinition_typed [of env' limits d] ValidateDefinition_strategies [of env' limits d]
    sameZones_soundStrategies [OF assms(1)]
  by (simp add: wfRecord_def sameZones_def)

lemma wfRecord_version [simp]: "wfRecord env limits k (d\<lparr> dVersion := v \<rparr>) = wfRecord env limits k d"
  by (simp add: wfRecord_def typedDefinition_def)

lemma wfRecord_lifecycle [simp]: "wfRecord env limits k (d\<lparr> dLifecycle := l \<rparr>) = wfRecord env limits k d"
  by (simp add: wfRecord_def typedDefinition_def)

lemma wfRecord_groups:
  "wfRecord env limits k d \<Longrightarrow> \<forall>g\<in>set gs. g \<noteq> [] \<Longrightarrow> wfRecord env limits k (d\<lparr> dGroups := gs \<rparr>)"
  by (auto simp: wfRecord_def typedDefinition_def)

section \<open>Commits keep the invariant\<close>

lemma wfFeatures_update [inv_intros]:
  "wfFeatures env limits fs \<Longrightarrow> wfRecord env limits k (mrDefinition r) \<Longrightarrow>
     wfFeatures env limits (AList.update k r fs)"
  by (auto simp: wfFeatures_def)

lemma wfAt_appendAudit: "wfAt env t p \<Longrightarrow> appendAudit p t entry = Inr p' \<Longrightarrow> wfAt env t p'"
  by (auto simp: wfAt_def appendAudit_eq length_newest split: if_splits)

lemma wfAt_audited:
  "wfAt env t p \<Longrightarrow> wfAt env t (fst (audited p t entry x))"
  by (auto simp: audited_def wfAt_appendAudit split: sum.split)

lemma wfAt_storeFeature:
  "wfAt env t p \<Longrightarrow> wfRecord env (mpLimits p) key (mrDefinition r) \<Longrightarrow> wfAt env t (storeFeature p t key r)"
  by (simp add: wfAt_def storeFeature_def wfFeatures_update)

lemma wfAt_commitFeature:
  "wfAt env t p \<Longrightarrow> wfRecord env (mpLimits p) key (mrDefinition r) \<Longrightarrow>
     wfAt env t (fst (commitFeature p t key r action actor))"
  unfolding commitFeature_def by (intro wfAt_audited wfAt_storeFeature)

lemma wfAt_record:
  "wfAt env t p \<Longrightarrow> map_of (featuresOf p t) k = Some r \<Longrightarrow> wfRecord env (mpLimits p) k (mrDefinition r)"
  by (simp add: wfAt_def wfFeatures_def)

lemma liveRecord_Inr:
  "liveRecord p t k v = Inr r \<longleftrightarrow>
     map_of (featuresOf p t) k = Some r \<and> \<not> mrDeleted r \<and> dVersion (mrDefinition r) = v"
  by (auto simp: liveRecord_def split: option.splits)

lemma liveRecord_wf:
  "wfAt env t p \<Longrightarrow> liveRecord p t k v = Inr r \<Longrightarrow> wfRecord env (mpLimits p) k (mrDefinition r)"
  by (simp add: liveRecord_Inr wfAt_record)

lemma wfAt_groupKey: "wfAt env t p \<Longrightarrow> hasKey (groupsOf p t) k \<Longrightarrow> k \<noteq> []"
  by (auto simp: wfAt_def wfGroupMap_def wfGroups_def hasKey_iff)

section \<open>Feature operations\<close>

lemmas wfAt_rules = guardOp_rule [where P = "\<lambda>x. wfAt env t (fst x)" for env t]
  bindOp_rule [where P = "\<lambda>x. wfAt env t (fst x)" for env t]

lemma wfAt_Create:
  "sameZones env env' \<Longrightarrow> wfAt env t p \<Longrightarrow> wfAt env t (fst (Create env' ctx t d actor p))"
  unfolding Create_def
  by (intro wfAt_rules) (auto intro!: wfAt_commitFeature dest: ValidateDefinition_wfRecord)

lemma wfAt_Update:
  "sameZones env env' \<Longrightarrow> wfAt env t p \<Longrightarrow> wfAt env t (fst (Update env' ctx t d v actor p))"
  unfolding Update_def
  by (intro wfAt_rules) (auto intro!: wfAt_commitFeature dest: ValidateDefinition_wfRecord)

lemma wfAt_setLifecycle: "wfAt env t p \<Longrightarrow> wfAt env t (fst (setLifecycle ctx t k v actor l a b p))"
  unfolding setLifecycle_def
  by (intro wfAt_rules) (auto intro!: wfAt_commitFeature dest: liveRecord_wf)

lemma wfAt_Restore: "wfAt env t p \<Longrightarrow> wfAt env t (fst (Restore ctx t k v actor p))"
  unfolding Restore_def
  by (intro wfAt_rules) (auto intro!: wfAt_commitFeature dest: wfAt_record split: option.split)

lemma wfAt_AssignGroup: "wfAt env t p \<Longrightarrow> wfAt env t (fst (AssignGroup env' ctx t f g v actor p))"
  unfolding AssignGroup_def Let_def
proof (intro wfAt_rules, simp_all, intro impI wfAt_rules, simp_all, intro impI wfAt_rules, simp_all)
  fix r
  assume wf: "wfAt env t p" "hasKey (groupsOf p t) g" and r: "liveRecord p t f v = Inr r"
  have d: "wfRecord env (mpLimits p) f (mrDefinition r)"
    using liveRecord_wf [OF wf(1) r] .
  then have "wfRecord env (mpLimits p) f ((mrDefinition r)\<lparr> dGroups := dGroups (mrDefinition r) @ [g] \<rparr>)"
    using wfAt_groupKey [OF wf] by (intro wfRecord_groups) (auto simp: wfRecord_def typedDefinition_def)
  then show "wfAt env t (fst (commitFeature p t f (r\<lparr> mrDefinition := (mrDefinition r)\<lparr> dGroups := dGroups (mrDefinition r) @ [g],
      dVersion := dVersion (mrDefinition r) + 1 \<rparr> \<rparr>) AuditAssignGroup actor))"
    using wf(1) by (intro wfAt_commitFeature) simp_all
qed

lemma wfAt_RemoveGroup: "wfAt env t p \<Longrightarrow> wfAt env t (fst (RemoveGroup ctx t f g v actor p))"
  unfolding RemoveGroup_def
  by (intro wfAt_rules)
    (auto intro!: wfAt_commitFeature wfRecord_groups dest: liveRecord_wf simp: wfRecord_def typedDefinition_def)

section \<open>Group operations\<close>

lemma chainEnds_cong: "map_of groups = map_of groups' \<Longrightarrow> chainEnds n groups k = chainEnds n groups' k"
proof (induction n arbitrary: k)
  case (Suc n)
  then have "parentOf groups k = parentOf groups' k"
    by (simp add: parentOf_def)
  then show ?case
    using Suc by simp
qed simp

lemma wfGroups_cong:
  assumes "wfGroups limits groups" "set groups' = set groups" "distinctKeys groups'"
  shows "wfGroups limits groups'"
proof -
  have eq: "map_of groups' = map_of groups"
    using assms by (intro map_of_eqI_set) (auto simp: wfGroups_def)
  then have "hasKey groups' = hasKey groups"
    by (simp add: hasKey_def fun_eq_iff)
  then show ?thesis
    using assms chainEnds_cong [OF eq] by (simp add: wfGroups_def)
qed

lemma wfGroupMap_validated:
  assumes "sameZones env env'" "cloneAndValidateGroups env' defs gs limits = Inr cloned"
    and "set groups = set cloned" "distinctKeys groups"
  shows "wfGroupMap env limits groups"
proof -
  have "wfGroups limits cloned"
    using cloneAndValidateGroups_wfGroups [OF _ assms(2)] assms(1) by (simp add: sameZones_def)
  moreover have "\<forall>(k, g)\<in>set cloned. validGroup env limits g"
    using assms(2) sameZones_validGroup [OF assms(1)] by (auto simp: cloneAndValidateGroups_Inr)
  ultimately show ?thesis
    using wfGroups_cong assms(3,4) by (auto simp: wfGroupMap_def)
qed

lemma wfGroupMap_keys:
  "wfGroupMap env limits groups \<Longrightarrow> (k, g) \<in> set groups \<Longrightarrow> gKey g = k"
  by (auto simp: wfGroupMap_def wfGroups_def)

lemma set_groupsByKey_rng:
  assumes "wfEnv env'" "\<And>k g. (k, g) \<in> set groups \<Longrightarrow> gKey g = k"
  shows "set (groupsByKey (map snd (rng env' groups))) = set groups"
  using assms by (force simp: image_image)

lemma wfAt_storeGroup:
  "wfAt env t p \<Longrightarrow> wfGroupMap env (mpLimits p) (AList.update key g (groupsOf p t)) \<Longrightarrow>
     wfAt env t (storeGroup p t key g)"
  by (simp add: wfAt_def storeGroup_def)

lemma wfAt_commitGroup:
  assumes "wfAt env t p" "map_of cloned key = Some g"
    and "wfGroupMap env (mpLimits p) (AList.update key g (groupsOf p t))"
  shows "wfAt env t (fst (commitGroup p t key cloned action actor))"
  using assms by (simp add: commitGroup_def wfAt_audited wfAt_storeGroup)

lemma wfAt_groups: "wfAt env t p \<Longrightarrow> wfGroupMap env (mpLimits p) (groupsOf p t) \<and> distinctKeys (groupsOf p t)"
  by (simp add: wfAt_def wfGroupMap_def wfGroups_def)

lemma wfAt_CreateGroup:
  assumes zones: "sameZones env env'" and wf: "wfAt env t p"
  shows "wfAt env t (fst (CreateGroup env' ctx t g actor p))"
  unfolding CreateGroup_def Let_def
proof (intro wfAt_rules, simp add: wf, simp split: if_split, intro conjI impI wf wfAt_rules, simp add: wf)
  let ?g = "g\<lparr> gVersion := 1 \<rparr>"
  fix cloned
  assume new: "\<not> hasKey (groupsOf p t) (gKey g)"
    and ok: "cloneAndValidateGroups env' (activeDefinitionsLocked p t)
      (map snd (rng env' (groupsOf p t)) @ [?g]) (mpLimits p) = Inr cloned"
  note groups = wfAt_groups [OF wf]
  have cloned: "cloned = groupsByKey (map snd (rng env' (groupsOf p t)) @ [?g])" "distinctKeys cloned"
    using ok by (auto simp: cloneAndValidateGroups_Inr o_def)
  have "set (groupsByKey (map snd (rng env' (groupsOf p t)))) = set (groupsOf p t)"
    using zones groups by (intro set_groupsByKey_rng) (auto simp: sameZones_def dest: wfGroupMap_keys)
  then have set: "set cloned = insert (gKey g, ?g) (set (groupsOf p t))"
    by (simp add: cloned(1))
  have "set (AList.update (gKey g) ?g (groupsOf p t)) = set cloned"
    unfolding set using new by (simp add: set_update_new hasKey_iff)
  then have "wfGroupMap env (mpLimits p) (AList.update (gKey g) ?g (groupsOf p t))"
    using wfGroupMap_validated [OF zones ok] groups by simp
  moreover have "map_of cloned (gKey g) = Some ?g"
    using cloned(2) set by simp
  ultimately show "wfAt env t (fst (commitGroup p t (gKey g) cloned AuditGroupCreate actor))"
    by (intro wfAt_commitGroup [OF wf])
qed

lemma set_replaceGroup:
  assumes "wfEnv env'" "\<And>k g. (k, g) \<in> set groups \<Longrightarrow> gKey g = k" "distinctKeys groups"
    and "hasKey groups (gKey g)" "gKey g' = gKey g"
  shows "set (groupsByKey (map (\<lambda>x. if gKey x = gKey g then g' else x) (map snd (rng env' groups)))) =
    set (AList.update (gKey g) g' groups)" (is "?new = _")
proof -
  have "?new = (\<lambda>kv. if fst kv = gKey g then (gKey g, g') else kv) ` set groups"
    unfolding set_map set_rng [OF assms(1)] image_image
    by (rule image_cong) (use assms(2,5) in auto)
  moreover obtain x where "(gKey g, x) \<in> set groups"
    using assms(4) by (auto simp: hasKey_iff)
  ultimately have "?new = insert (gKey g, g') {kv \<in> set groups. fst kv \<noteq> gKey g}"
    by (auto intro: rev_image_eqI)
  then show ?thesis
    by (simp add: set_update_distinct [OF assms(3)])
qed

lemma wfAt_replaceGroup:
  assumes zones: "sameZones env env'" and wf: "wfAt env t p"
    and ok: "cloneAndValidateGroups env' defs
      (map (\<lambda>x. if gKey x = gKey g then g' else x) (groupDefinitionsLocked env' p t)) (mpLimits p) = Inr cloned"
    and old: "map_of (groupsOf p t) (gKey g) = Some current" and key: "gKey g' = gKey g"
  shows "wfAt env t (fst (commitGroup p t (gKey g) cloned action actor))"
proof -
  note groups = wfAt_groups [OF wf]
  have locked: "groupDefinitionsLocked env' p t = map snd (rng env' (groupsOf p t))"
    by (simp add: groupDefinitionsLocked_def case_prod_unfold)
  have cloned: "cloned = groupsByKey (map (\<lambda>x. if gKey x = gKey g then g' else x) (groupDefinitionsLocked env' p t))"
      "distinctKeys cloned"
    using ok by (auto simp: cloneAndValidateGroups_Inr o_def)
  have set: "set cloned = set (AList.update (gKey g) g' (groupsOf p t))"
    unfolding cloned(1) locked
    using zones groups old key
    by (intro set_replaceGroup) (auto simp: sameZones_def hasKey_def dest: wfGroupMap_keys)
  then have "wfGroupMap env (mpLimits p) (AList.update (gKey g) g' (groupsOf p t))"
    using wfGroupMap_validated [OF zones ok] groups by simp
  moreover have "map_of cloned (gKey g) = Some g'"
    using map_of_eqI_set [OF cloned(2) _ set] groups by simp
  ultimately show ?thesis
    by (intro wfAt_commitGroup [OF wf])
qed

lemma wfAt_UpdateGroup:
  assumes "sameZones env env'" "wfAt env t p"
  shows "wfAt env t (fst (UpdateGroup env' ctx t g v actor p))"
  unfolding UpdateGroup_def Let_def using assms
  by (intro wfAt_rules) (auto split: option.split intro!: wfAt_rules elim!: wfAt_replaceGroup)

lemma chainEnds_delete:
  assumes "\<And>j g. map_of groups j = Some g \<Longrightarrow> gParent g \<noteq> k" "k \<noteq> []"
  shows "chainEnds n groups j \<Longrightarrow> j \<noteq> k \<Longrightarrow> chainEnds n (AList.delete k groups) j"
proof (induction n arbitrary: j)
  case (Suc n)
  have "parentOf groups j \<noteq> k" "parentOf (AList.delete k groups) j = parentOf groups j"
    using assms Suc.prems(2) by (auto simp: parentOf_def split: option.splits)
  then show ?case
    using Suc by auto
qed simp

lemma hasKey_delete: "hasKey (AList.delete k m) j \<longleftrightarrow> j \<noteq> k \<and> hasKey m j"
  by (simp add: hasKey_def)

lemma wfGroupMap_delete:
  assumes "wfGroupMap env limits groups" "\<And>j g. map_of groups j = Some g \<Longrightarrow> gParent g \<noteq> k" "k \<noteq> []"
  shows "wfGroupMap env limits (AList.delete k groups)"
proof -
  have d: "distinctKeys groups"
    using assms(1) by (simp add: wfGroupMap_def wfGroups_def)
  have "gParent g \<noteq> k" if "(j, g) \<in> set groups" for j g
    using that assms(2) d by auto
  moreover have "chainEnds n (AList.delete k groups) j" if "chainEnds n groups j" "j \<noteq> k" for n j
    using chainEnds_delete [of groups k n j] assms(2,3) that by blast
  ultimately show ?thesis
    using assms(1) d unfolding wfGroupMap_def wfGroups_def set_delete_distinct [OF d] hasKey_delete
    by auto
qed

lemma wfAt_DeleteGroup: "wfAt env t p \<Longrightarrow> wfAt env t (fst (DeleteGroup ctx t k v actor p))"
  unfolding DeleteGroup_def Let_def
proof (intro wfAt_rules, simp, simp split: option.split, intro allI impI wfAt_audited)
  fix g
  assume wf: "wfAt env t p" and g: "map_of (groupsOf p t) k = Some g"
    and unused: "\<not> list_ex (\<lambda>(key, x). gParent x = k) (groupsOf p t)"
  have "wfGroupMap env (mpLimits p) (AList.delete k (groupsOf p t))"
    using wfAt_groups [OF wf] wfAt_groupKey [OF wf, of k] g unused
    by (intro wfGroupMap_delete) (auto simp: hasKey_def list_ex_iff dest!: map_of_SomeD)
  then show "wfAt env t (p\<lparr> mpGroups := AList.update t (AList.delete k (groupsOf p t)) (mpGroups p) \<rparr>)"
    using wf by (simp add: wfAt_def)
qed

section \<open>Staging and maintenance\<close>

lemma wfStages_update:
  assumes "wfStages env limits staged" "wfRecord env limits (dKey (stDefinition c)) (stDefinition c)"
    and "stID c = i" "\<not> len staged \<ge> MaxStagedChanges limits"
    and "\<not> list_ex (\<lambda>(j, x). dKey (stDefinition x) = dKey (stDefinition c)) staged"
  shows "wfStages env limits (AList.update i c staged)"
proof -
  have other: "dKey (stDefinition x) \<noteq> dKey (stDefinition c)" if "map_of staged j = Some x" for j x
    using that assms(5) by (auto simp: list_ex_iff dest!: map_of_SomeD)
  have "len (AList.update i c staged) \<le> max 0 (MaxStagedChanges limits)"
    using assms(4) by (cases "i \<in> fst ` set staged") (auto simp: length_update_new length_update_old)
  then show ?thesis
    using assms(1-3) other other [THEN not_sym] by (auto simp: wfStages_def)
qed

lemma wfStages_delete:
  assumes "wfStages env limits staged"
  shows "wfStages env limits (AList.delete i staged)"
proof -
  have "length (AList.delete i staged) \<le> length staged"
    by (simp add: AList.delete_eq)
  then show ?thesis
    using assms by (auto simp: wfStages_def)
qed

lemma map_of_filter_sub:
  "distinctKeys m \<Longrightarrow> map_of (filter P m) k = Some v \<Longrightarrow> map_of m k = Some v"
  by (auto dest!: map_of_SomeD)

lemma wfStages_filter:
  assumes "wfStages env limits staged"
  shows "wfStages env limits (filter P staged)"
proof -
  have d: "distinctKeys staged"
    using assms by (simp add: wfStages_def)
  have "len (filter P staged) \<le> len staged" "len staged \<le> max 0 (MaxStagedChanges limits)"
    using assms by (simp_all add: wfStages_def)
  then have "len (filter P staged) \<le> max 0 (MaxStagedChanges limits)"
    by linarith
  then show ?thesis
    using assms map_of_filter_sub [OF d, of P] d
    by (auto simp: wfStages_def distinct_map_filter)
qed

lemma wfFeatures_filter:
  "wfFeatures env limits features \<Longrightarrow> wfFeatures env limits (filter P features)"
  using map_of_filter_sub [of features P] by (auto simp: wfFeatures_def distinct_map_filter)

lemma wfAt_storeStage:
  "wfAt env t p \<Longrightarrow> wfStages env (mpLimits p) staged \<Longrightarrow>
     wfAt env t (p\<lparr> mpNextStage := n, mpStaged := AList.update t staged (mpStaged p) \<rparr>)"
  by (simp add: wfAt_def)

lemma wfAt_stages: "wfAt env t p \<Longrightarrow> wfStages env (mpLimits p) (stagedOf p t)"
  by (simp add: wfAt_def)

lemma wfAt_StageUpdate:
  assumes "sameZones env env'" "wfAt env t p"
  shows "wfAt env t (fst (StageUpdate env' ctx t d v at actor p))"
  unfolding StageUpdate_def Let_def using assms
  by (intro wfAt_rules)
    (auto intro!: wfAt_audited wfAt_storeStage wfStages_update wfAt_stages dest: ValidateDefinition_wfRecord)

lemma wfAt_Cleanup: "wfAt env t p \<Longrightarrow> wfAt env t (fst (Cleanup ctx t options p))"
  unfolding Cleanup_def Let_def
  by (intro wfAt_rules) (auto simp: wfAt_def intro!: wfFeatures_filter wfStages_filter)

section \<open>Applying stages\<close>

lemma applyOneStage_wf:
  assumes "wfFeatures env limits records" "wfStages env limits staged"
    and "applyOneStage staged records i = Inr (records', d)"
  shows "wfFeatures env limits records'"
  using assms
  by (auto simp: applyOneStage_def Let_def wfStages_def split: option.splits if_splits intro!: wfFeatures_update)

lemma applyStageLoop_wf:
  "wfFeatures env limits records \<Longrightarrow> wfStages env limits staged \<Longrightarrow>
     applyStageLoop staged ids records = Inr (records', results) \<Longrightarrow> wfFeatures env limits records'"
proof (induction ids arbitrary: records results)
  case (Cons i ids)
  then obtain r d rs where "applyOneStage staged records i = Inr (r, d)"
      "applyStageLoop staged ids r = Inr (records', rs)"
    by (auto simp: rbind_eq_Inr)
  then show ?case
    using Cons applyOneStage_wf by blast
qed simp

lemma wfAt_settleStages:
  "wfAt env t p \<Longrightarrow> wfAt env t (fst (settleStages t actor work p))"
proof (induction work arbitrary: p)
  case (Cons w work)
  obtain i d where w: "w = (i, d)"
    by (cases w)
  have "wfAt env t (p\<lparr> mpStaged := AList.update t (AList.delete i (stagedOf p t)) (mpStaged p) \<rparr>)"
    using Cons.prems by (simp add: wfAt_def wfStages_delete)
  then show ?case
    using Cons.IH by (auto simp: w Let_def wfAt_appendAudit split: sum.split)
qed simp

lemma wfAt_commitStages:
  assumes "wfAt env t p" "wfFeatures env (mpLimits p) records"
  shows "wfAt env t (fst (commitStages t ids actor records results p))"
proof -
  have "wfAt env t (p\<lparr> mpTenants := AList.update t records (mpTenants p) \<rparr>)"
    using assms by (simp add: wfAt_def)
  from wfAt_settleStages [OF this] show ?thesis
    by (auto simp: commitStages_def split: prod.split option.split) (metis fst_conv)+
qed

lemma wfAt_applyStagesLocked:
  assumes wf: "wfAt env t p"
  shows "wfAt env t (fst (applyStagesLocked env' t ids actor p))"
  unfolding applyStagesLocked_def case_prod_unfold
proof (intro wfAt_rules)
  fix x s
  assume "applyStageLoop (stagedOf p t) ids (cloneMemoryRecords (featuresOf p t)) = Inr x"
  then have "wfFeatures env (mpLimits p) (fst x)"
    using applyStageLoop_wf [of env "mpLimits p" "featuresOf p t" "stagedOf p t" ids "fst x" "snd x"] wf
    by (simp add: wfAt_def)
  then show "wfAt env t (fst (commitStages t ids actor (fst x) (snd x) p))"
    by (rule wfAt_commitStages [OF wf])
qed (simp_all add: wf)

lemma wfAt_ApplyStage:
  assumes "wfAt env t p"
  shows "wfAt env t (fst (ApplyStage env' ctx t i actor p))"
proof -
  obtain p' r where s: "applyStagesLocked env' t [i] actor p = (p', r)"
    by fastforce
  have "wfAt env t p'"
    using wfAt_applyStagesLocked [OF assms, of env' "[i]" actor] s by simp
  then show ?thesis
    unfolding ApplyStage_def s using assms by (intro wfAt_rules) (cases r; simp)+
qed

lemma wfAt_ApplyScheduled:
  "wfAt env t p \<Longrightarrow> wfAt env t (fst (ApplyScheduled env' ctx t now actor p))"
  unfolding ApplyScheduled_def Let_def by (intro wfAt_rules) (auto simp: wfAt_applyStagesLocked)

section \<open>Imports\<close>

lemma planFeature_map:
  assumes "map_of (fst (planFeature policy d (records, report, audits))) k = Some r"
  shows "map_of records k = Some r \<or> \<not> mrDeleted r \<and> dKey (mrDefinition r) = k"
  using assms by (auto simp: planFeature_def Let_def split: option.splits if_splits)

lemma planFeature_distinct:
  "distinctKeys records \<Longrightarrow> distinctKeys (fst (planFeature policy d (records, report, audits)))"
  by (auto simp: planFeature_def Let_def split: option.splits)

lemma planFeatures_keep:
  assumes "distinctKeys (fst plan)"
  shows "distinctKeys (fst (fold (planFeature policy) ds plan)) \<and>
    (\<forall>k r. map_of (fst (fold (planFeature policy) ds plan)) k = Some r \<longrightarrow>
       map_of (fst plan) k = Some r \<or> \<not> mrDeleted r \<and> dKey (mrDefinition r) = k)"
  using assms
proof (induction ds arbitrary: plan)
  case (Cons d ds)
  obtain records report audits where plan: "plan = (records, report, audits)"
    by (cases plan)
  have "distinctKeys (fst (planFeature policy d plan))"
    using Cons.prems by (simp add: plan planFeature_distinct)
  from Cons.IH [OF this] show ?case
    using planFeature_map [of policy d records report audits] unfolding plan fold_simps fst_conv by blast
qed simp

lemma planGroup_map:
  assumes "map_of (fst (planGroup policy g (groups, report, audits))) k = Some x"
  shows "map_of groups k = Some x \<or> gKey x = k"
  using assms by (auto simp: planGroup_def Let_def split: option.splits if_splits)

lemma planGroup_distinct:
  "distinctKeys groups \<Longrightarrow> distinctKeys (fst (planGroup policy g (groups, report, audits)))"
  by (auto simp: planGroup_def Let_def split: option.splits)

lemma planGroups_keep:
  assumes "distinctKeys (fst plan)"
  shows "distinctKeys (fst (fold (planGroup policy) gs plan)) \<and>
    (\<forall>k g. map_of (fst (fold (planGroup policy) gs plan)) k = Some g \<longrightarrow>
       map_of (fst plan) k = Some g \<or> gKey g = k)"
  using assms
proof (induction gs arbitrary: plan)
  case (Cons g gs)
  obtain groups report audits where plan: "plan = (groups, report, audits)"
    by (cases plan)
  have "distinctKeys (fst (planGroup policy g plan))"
    using Cons.prems by (simp add: plan planGroup_distinct)
  from Cons.IH [OF this] show ?case
    using planGroup_map [of policy g groups report audits] unfolding plan fold_simps fst_conv by blast
qed simp

lemma planImport_keep:
  assumes "wfAt env t p" "planImport policy dry ds gs t p = (records, groups, report, audits)"
  shows "distinctKeys records \<and> distinctKeys groups \<and>
    (\<forall>k r. map_of records k = Some r \<longrightarrow>
       map_of (featuresOf p t) k = Some r \<or> \<not> mrDeleted r \<and> dKey (mrDefinition r) = k) \<and>
    (\<forall>k g. map_of groups k = Some g \<longrightarrow> gKey g = k)"
proof -
  have f: "distinctKeys (featuresOf p t)" and g: "distinctKeys (groupsOf p t)"
    and keys: "map_of (groupsOf p t) k = Some x \<Longrightarrow> gKey x = k" for k x
    using assms(1) wfAt_groups [OF assms(1)]
    by (auto simp: wfAt_def wfFeatures_def dest: wfGroupMap_keys map_of_SomeD)
  obtain report' audits' where
    plans: "fold (planGroup policy) gs (groupsOf p t, emptyReport dry, []) = (groups, report', audits')"
      "fold (planFeature policy) ds (featuresOf p t, report', audits') = (records, report, audits)"
    using assms(2) by (auto simp: planImport_def split: prod.splits)
  show ?thesis
    using planFeatures_keep [of "(featuresOf p t, report', audits')" policy ds]
      planGroups_keep [of "(groupsOf p t, emptyReport dry, [])" policy gs] f g keys
    unfolding plans fst_conv by blast
qed

lemma wfAt_imported:
  assumes zones: "sameZones env env'" and wf: "wfAt env t p"
    and plan: "planImport policy dry ds gs t p = (records, groups, report, audits)"
    and ok: "NewSnapshotWithGroups env' (definitionsFromRecords env' records) (groupsFromMap env' groups) (mpLimits p) = Inr s"
  shows "wfFeatures env (mpLimits p) records \<and> wfGroupMap env (mpLimits p) groups"
proof
  note keep = planImport_keep [OF wf plan]
  have env': "wfEnv env'"
    using zones by (simp add: sameZones_def)
  have "wfRecord env (mpLimits p) k (mrDefinition r)" if r: "map_of records k = Some r" for k r
  proof (cases "mrDeleted r")
    case True
    then show ?thesis
      using keep r wfAt_record [OF wf] by blast
  next
    case False
    then have "mrDefinition r \<in> set (definitionsFromRecords env' records)"
      using r env' by (force simp: definitionsFromRecords_def dest: map_of_SomeD)
    then have "wfRecord env (mpLimits p) (dKey (mrDefinition r)) (mrDefinition r)"
      using ok ValidateDefinition_wfRecord [OF zones] by (auto simp: NewSnapshotWithGroups_Inr)
    moreover have "dKey (mrDefinition r) = k"
      using keep r wfAt_record [OF wf] unfolding wfRecord_def by blast
    ultimately show ?thesis by simp
  qed
  then show "wfFeatures env (mpLimits p) records"
    using keep by (simp add: wfFeatures_def)
  have list: "groupsFromMap env' groups = map snd (rng env' groups)"
    by (simp add: groupsFromMap_def case_prod_unfold)
  have valid: "cloneAndValidateGroups env' (byKey (definitionsFromRecords env' records))
      (groupsFromMap env' groups) (mpLimits p) = Inr (groupsByKey (groupsFromMap env' groups))"
    using ok by (simp add: NewSnapshotWithGroups_Inr)
  have "set (groupsByKey (groupsFromMap env' groups)) = set groups"
    unfolding list using keep env' by (intro set_groupsByKey_rng) auto
  then show "wfGroupMap env (mpLimits p) groups"
    using keep by (intro wfGroupMap_validated [OF zones valid]) simp_all
qed

section \<open>Every command\<close>

lemma wfAt_appendAudits:
  "wfAt env t p \<Longrightarrow> wfAt env t (fst (appendAudits t actor as p))"
  by (induction as arbitrary: p) (auto simp: wfAt_appendAudit split: sum.split)

lemma wfAt_ImportDocument:
  assumes zones: "sameZones env env'" and wf: "wfAt env t p"
    and import: "ImportDocument env' ctx ctx' t decoded options actor p = (p', report, e)"
  shows "wfAt env t p'"
  using import
proof (cases rule: ImportDocument_cases)
  case (committed ds gs policy records groups audits s)
  have "wfAt env t (p\<lparr> mpTenants := AList.update t records (mpTenants p),
      mpGroups := AList.update t groups (mpGroups p) \<rparr>)"
    using wf wfAt_imported [OF zones wf committed(5,7)] by (simp add: wfAt_def)
  from wfAt_appendAudits [OF this, of actor audits] show ?thesis
    by (simp add: committed(8))
qed (simp add: wf)

lemmas wfAt_operations = wfAt_Create wfAt_Update wfAt_setLifecycle wfAt_Restore wfAt_AssignGroup
  wfAt_RemoveGroup wfAt_CreateGroup wfAt_UpdateGroup wfAt_DeleteGroup wfAt_StageUpdate wfAt_Cleanup
  wfAt_ApplyStage wfAt_ApplyScheduled

lemma wfAt_perform:
  assumes "sameZones env env'" "wfAt env t p"
  shows "wfAt env t (fst (perform env' ctx t actor cmd p))"
  using assms
  by (cases cmd)
    (auto simp: Activate_def Deactivate_def Delete_def wfAt_operations split: prod.split
      dest: wfAt_ImportDocument)

lemma sameTenant_wfAt: "mpLimits p' = mpLimits p \<Longrightarrow> sameTenant t p p' \<Longrightarrow> wfAt env t p' = wfAt env t p"
  by (simp add: sameTenant_def wfAt_def)

lemma wfProvider_perform:
  assumes "sameZones env env'" "wfProvider env p"
  shows "wfProvider env (fst (perform env' ctx t actor cmd p))"
  unfolding wfProvider_def
proof
  fix t'
  obtain p' e where p': "perform env' ctx t actor cmd p = (p', e)"
    by fastforce
  show "wfAt env t' (fst (perform env' ctx t actor cmd p))"
  proof (cases "t' = t")
    case True
    then show ?thesis
      using wfAt_perform assms by (simp add: wfProvider_def)
  next
    case False
    then show ?thesis
      using perform_confined [OF p'] sameTenant_wfAt [of p' p t' env] assms(2)
      by (simp add: p' confinedTo_def wfProvider_def)
  qed
qed

lemma reachable_wfProvider:
  "reachable env limits p \<Longrightarrow> wfProvider env p \<and> mpLimits p = limits"
proof (induction rule: reachable.induct)
  case reachable_new
  then show ?case
    by (simp add: wfProvider_new) (simp add: NewMemoryProvider_def)
next
  case (reachable_step p env' ctx t actor cmd)
  obtain p' e where p': "perform env' ctx t actor cmd p = (p', e)"
    by fastforce
  have "wfProvider env (fst (perform env' ctx t actor cmd p))"
    using wfProvider_perform [OF reachable_step.hyps(2)] reachable_step.IH by blast
  moreover have "mpLimits (fst (perform env' ctx t actor cmd p)) = limits"
    using perform_confined [OF p'] reachable_step.IH by (simp add: p' confinedTo_def)
  ultimately show ?case ..
qed

end
