(* ===== verification/Store_Contracts.thy ===== *)
theory Store_Contracts
  imports Memory_Inv
begin

text \<open>
  Interfaces that several operations or components share, as locales, with their interpretations on
  the memory provider: optimistic concurrency of versioned resources (features and groups), and
  the snapshot interface that evaluation clients rely on.
\<close>

section \<open>Optimistic concurrency\<close>

text \<open>
  The contract of an expected-version mutation: it succeeds only at the stored version, then either
  changes nothing or moves the resource on to the next version or removes it; it never changes the
  version of another resource; a failure changes nothing.
\<close>

fun stateChanges :: "'s \<Rightarrow> 's list \<Rightarrow> nat" where
  "stateChanges s [] = 0"
| "stateChanges s (s' # ss) = (if s' = s then 0 else 1) + stateChanges s' ss"

locale optimistic_store =
  fixes version :: "'s \<Rightarrow> 'k \<Rightarrow> 64 word option"
    and target :: "'op \<Rightarrow> ('k \<times> 64 word) option"
    and attempt :: "'op \<Rightarrow> 's \<Rightarrow> 's \<times> err option"
    and inv :: "'s \<Rightarrow> bool"
    and admissible :: "'op \<Rightarrow> bool"
  assumes attempt_inv: "inv s \<Longrightarrow> admissible a \<Longrightarrow> inv (fst (attempt a s))"
    and attempt_success: "inv s \<Longrightarrow> admissible a \<Longrightarrow> target a = Some (k, v) \<Longrightarrow> attempt a s = (s', None) \<Longrightarrow>
      version s k = Some v \<and> (s' = s \<or> version s' k = Some (v + 1) \<or> version s' k = None)"
    and attempt_failure: "inv s \<Longrightarrow> admissible a \<Longrightarrow> attempt a s = (s', Some e) \<Longrightarrow> s' = s"
    and attempt_frame: "inv s \<Longrightarrow> admissible a \<Longrightarrow> target a = Some (k, v) \<Longrightarrow> attempt a s = (s', r) \<Longrightarrow>
      j \<noteq> k \<Longrightarrow> version s' j = version s j"
begin

lemma version_moves:
  assumes "inv s" "admissible a" "target a = Some (k, v)" "attempt a s = (s', None)" "s' \<noteq> s"
  shows "version s k = Some v \<and> version s' k \<noteq> Some v"
proof -
  have "v + 1 \<noteq> v"
    by simp
  then show ?thesis
    using attempt_success [OF assms(1-4)] assms(5) by auto
qed

text \<open>An operation that expects another version than the stored one fails and changes nothing.\<close>

lemma stale_attempt:
  assumes "inv s" "admissible a" "target a = Some (k, v)" "version s k \<noteq> Some v"
  shows "\<exists>e. attempt a s = (s, Some e)"
proof (cases "attempt a s")
  case (Pair s' r)
  then show ?thesis
    using attempt_success [OF assms(1-3)] attempt_failure [OF assms(1,2)] assms(4) by (cases r) auto
qed

text \<open>
  A race: writers that all read version \<open>v\<close> of resource \<open>k\<close> run one after the other in any order.
  \<open>race\<close> lists the states after each of them.
\<close>

fun race :: "'op list \<Rightarrow> 's \<Rightarrow> 's list" where
  "race [] s = []"
| "race (a # as) s = fst (attempt a s) # race as (fst (attempt a s))"

lemma race_stale:
  "inv s \<Longrightarrow> \<forall>a\<in>set as. admissible a \<and> target a = Some (k, v) \<Longrightarrow> version s k \<noteq> Some v \<Longrightarrow>
     stateChanges s (race as s) = 0"
proof (induction as)
  case (Cons a as)
  then obtain e where "attempt a s = (s, Some e)"
    using stale_attempt [of s a k v] by auto
  then show ?case
    using Cons by simp
qed simp

lemma race_one_winner:
  "inv s \<Longrightarrow> \<forall>a\<in>set as. admissible a \<and> target a = Some (k, v) \<Longrightarrow> stateChanges s (race as s) \<le> 1"
proof (induction as arbitrary: s)
  case (Cons a as)
  obtain s' r where s': "attempt a s = (s', r)"
    by fastforce
  have inv': "inv s'"
    using attempt_inv [OF Cons.prems(1), of a] s' Cons.prems(2) by simp
  show ?case
  proof (cases "s' = s")
    case True
    then show ?thesis
      using Cons s' by simp
  next
    case False
    then have "r = None"
      using attempt_failure [OF Cons.prems(1)] s' Cons.prems(2) by (cases r) auto
    then have "version s' k \<noteq> Some v"
      using version_moves [OF Cons.prems(1) _ _ _ False, of a k v] s' Cons.prems(2) by simp
    then show ?thesis
      using race_stale [OF inv', of as k v] Cons.prems(2) s' False by simp
  qed
qed simp

end

section \<open>Features and groups of the memory provider\<close>

type_synonym call = "env \<times> err option \<times> string \<times> command"

definition performCall :: "string \<Rightarrow> call \<Rightarrow> MemoryProvider \<Rightarrow> MemoryProvider \<times> err option" where
  "performCall t c p = (case c of (env, ctx, actor, cmd) \<Rightarrow> perform env ctx t actor cmd p)"

fun featureTarget :: "command \<Rightarrow> (string \<times> 64 word) option" where
  "featureTarget (DoUpdate d v) = Some (dKey d, v)"
| "featureTarget (DoActivate k v) = Some (k, v)"
| "featureTarget (DoDeactivate k v) = Some (k, v)"
| "featureTarget (DoDelete k v) = Some (k, v)"
| "featureTarget (DoRestore k v) = Some (k, v)"
| "featureTarget (DoAssignGroup f g v) = Some (f, v)"
| "featureTarget (DoRemoveGroup f g v) = Some (f, v)"
| "featureTarget _ = None"

fun groupTarget :: "command \<Rightarrow> (string \<times> 64 word) option" where
  "groupTarget (DoUpdateGroup g v) = Some (gKey g, v)"
| "groupTarget (DoDeleteGroup k v) = Some (k, v)"
| "groupTarget _ = None"

definition featureVersion :: "string \<Rightarrow> MemoryProvider \<Rightarrow> string \<Rightarrow> 64 word option" where
  "featureVersion t p k = map_option (\<lambda>r. dVersion (mrDefinition r)) (map_of (featuresOf p t) k)"

definition groupVersion :: "string \<Rightarrow> MemoryProvider \<Rightarrow> string \<Rightarrow> 64 word option" where
  "groupVersion t p k = map_option gVersion (map_of (groupsOf p t) k)"

definition auditable :: "MemoryProvider \<Rightarrow> bool" where
  "auditable p \<longleftrightarrow> 0 \<le> MaxAuditEntries (mpLimits p)"

lemma audited_maps [simp]:
  "mpTenants (fst (audited p t entry x)) = mpTenants p"
  "mpGroups (fst (audited p t entry x)) = mpGroups p"
  by (auto simp: audited_def appendAudit_eq)

lemma commitFeature_maps [simp]:
  "featuresOf (fst (commitFeature p t key r action actor)) t = AList.update key r (featuresOf p t)"
  "groupsOf (fst (commitFeature p t key r action actor)) t = groupsOf p t"
  by (simp_all add: commitFeature_def storeFeature_def)

lemma commitGroup_maps [simp]:
  "featuresOf (fst (commitGroup p t key cloned action actor)) t = featuresOf p t"
  by (simp add: commitGroup_def storeGroup_def Let_def)

lemma featureVersion_commit:
  "featureVersion t (fst (commitFeature p t key r action actor)) k =
     (if k = key then Some (dVersion (mrDefinition r)) else featureVersion t p k)"
  by (simp add: featureVersion_def)

lemma featureVersion_live: "liveRecord p t k v = Inr r \<Longrightarrow> featureVersion t p k = Some v \<and> dVersion (mrDefinition r) = v"
  by (simp add: featureVersion_def liveRecord_Inr)

text \<open>The success law of one operation, read off its result.\<close>

definition movesFeature :: "string \<Rightarrow> string \<Rightarrow> 64 word \<Rightarrow> MemoryProvider \<Rightarrow> MemoryProvider \<times> 'a res \<Rightarrow> bool" where
  "movesFeature t k v p x \<longleftrightarrow>
     (\<forall>y. snd x = Inr y \<longrightarrow> featureVersion t p k = Some v \<and>
        (fst x = p \<or> featureVersion t (fst x) k = Some (v + 1))) \<and>
     (\<forall>j. j \<noteq> k \<longrightarrow> featureVersion t (fst x) j = featureVersion t p j)"

lemma movesFeature_fail [simp]: "movesFeature t k v p (p, Inl e)"
  by (simp add: movesFeature_def)

lemma movesFeature_keep: "featureVersion t p k = Some v \<Longrightarrow> movesFeature t k v p (p, Inr x)"
  by (simp add: movesFeature_def)

lemma movesFeature_commit:
  "featureVersion t p k = Some v \<Longrightarrow> dVersion (mrDefinition r) = v + 1 \<Longrightarrow>
     movesFeature t k v p (commitFeature p t k r action actor)"
  by (simp add: movesFeature_def featureVersion_commit)

lemmas movesFeature_rules = guardOp_rule [where P = "movesFeature t k v p" for t k v p]
  bindOp_rule [where P = "movesFeature t k v p" for t k v p] movesFeature_fail movesFeature_keep movesFeature_commit

lemma movesFeature_operations:
  "movesFeature t (dKey d) v p (Update env ctx t d v actor p)"
  "movesFeature t k v p (setLifecycle ctx t k v actor l a b p)"
  "movesFeature t k v p (Restore ctx t k v actor p)"
  "movesFeature t f v p (AssignGroup env ctx t f g v actor p)"
  "movesFeature t f v p (RemoveGroup ctx t f g v actor p)"
  unfolding feature_op_defs Let_def
  by (auto intro!: movesFeature_rules dest!: featureVersion_live split: option.split
      simp: featureVersion_def)

lemma outcome_moves:
  "outcome x = (p', e) \<Longrightarrow> movesFeature t k v p x \<Longrightarrow>
     (e = None \<longrightarrow> featureVersion t p k = Some v \<and> (p' = p \<or> featureVersion t p' k = Some (v + 1))) \<and>
     (\<forall>j. j \<noteq> k \<longrightarrow> featureVersion t p' j = featureVersion t p j)"
  by (cases x; cases "snd x") (auto simp: movesFeature_def)

lemma feature_moves:
  assumes "featureTarget cmd = Some (k, v)" "perform env ctx t actor cmd p = (p', e)"
  shows "(e = None \<longrightarrow> featureVersion t p k = Some v \<and> (p' = p \<or> featureVersion t p' k = Some (v + 1))) \<and>
     (\<forall>j. j \<noteq> k \<longrightarrow> featureVersion t p' j = featureVersion t p j)"
  by (cases cmd)
    (use assms in \<open>simp_all add: Activate_def Deactivate_def Delete_def,
      (metis outcome_moves movesFeature_operations)+\<close>)

definition movesGroup :: "string \<Rightarrow> string \<Rightarrow> 64 word \<Rightarrow> MemoryProvider \<Rightarrow> MemoryProvider \<times> 'a res \<Rightarrow> bool" where
  "movesGroup t k v p x \<longleftrightarrow>
     (\<forall>y. snd x = Inr y \<longrightarrow> groupVersion t p k = Some v \<and>
        (groupVersion t (fst x) k = Some (v + 1) \<or> groupVersion t (fst x) k = None)) \<and>
     (\<forall>j. j \<noteq> k \<longrightarrow> groupVersion t (fst x) j = groupVersion t p j)"

lemma movesGroup_fail [simp]: "movesGroup t k v p (p, Inl e)"
  by (simp add: movesGroup_def)

lemma movesGroup_audited:
  "groupVersion t p k = Some v \<Longrightarrow> groupVersion t p' k = Some (v + 1) \<or> groupVersion t p' k = None \<Longrightarrow>
     (\<And>j. j \<noteq> k \<Longrightarrow> groupVersion t p' j = groupVersion t p j) \<Longrightarrow>
     movesGroup t k v p (audited p' t entry x)"
  by (simp add: movesGroup_def groupVersion_def)

lemma movesGroup_DeleteGroup: "movesGroup t k v p (DeleteGroup ctx t k v actor p)"
  unfolding DeleteGroup_def Let_def
  by (rule guardOp_rule [where P = "movesGroup t k v p"])
    (auto intro!: movesGroup_audited split: option.split simp: groupVersion_def)

text \<open>A validated list of groups holds the replacement under its key.\<close>

lemma replaced_group_stored:
  assumes "cloneAndValidateGroups env defs
      (map (\<lambda>x. if gKey x = gKey g then g' else x) (groupDefinitionsLocked env p t)) limits = Inr cloned"
    and "wfEnv env" "(k, current) \<in> set (groupsOf p t)" "gKey current = gKey g" "gKey g' = gKey g"
  shows "map_of cloned (gKey g) = Some g'"
proof -
  have "cloned = groupsByKey (map (\<lambda>x. if gKey x = gKey g then g' else x) (groupDefinitionsLocked env p t))"
      "distinctKeys cloned"
    using assms(1) by (auto simp: cloneAndValidateGroups_Inr o_def)
  moreover have "current \<in> set (groupDefinitionsLocked env p t)"
    using assms(2,3) by (force simp: groupDefinitionsLocked_def)
  ultimately have "(gKey g, g') \<in> set cloned"
    using assms(4,5) by force
  then show ?thesis
    using \<open>distinctKeys cloned\<close> by simp
qed

lemma movesGroup_commit:
  "groupVersion t p k = Some v \<Longrightarrow> map_of cloned k = Some g \<Longrightarrow> gVersion g = v + 1 \<Longrightarrow>
     movesGroup t k v p (commitGroup p t k cloned action actor)"
  unfolding commitGroup_def Let_def
  by (rule movesGroup_audited) (simp_all add: groupVersion_def storeGroup_def)

lemma movesGroup_UpdateGroup:
  assumes "wfEnv env" "wfAt env0 t p"
  shows "movesGroup t (gKey g) v p (UpdateGroup env ctx t g v actor p)"
proof -
  let ?P = "movesGroup t (gKey g) v p"
  have "?P (case map_of (groupsOf p t) (gKey g) of
      None \<Rightarrow> (p, Inl ErrNotFound)
    | Some current \<Rightarrow>
        if gVersion current \<noteq> v then (p, Inl ErrConflict)
        else bindOp p (cloneAndValidateGroups env (activeDefinitionsLocked p t)
            (map (\<lambda>x. if gKey x = gKey g then g\<lparr> gVersion := gVersion current + 1 \<rparr> else x)
              (groupDefinitionsLocked env p t)) (mpLimits p))
          (\<lambda>cloned. commitGroup p t (gKey g) cloned AuditGroupUpdate actor))"
  proof (cases "map_of (groupsOf p t) (gKey g)")
    case (Some current)
    have key: "(gKey g, current) \<in> set (groupsOf p t)" "gKey current = gKey g"
      using map_of_SomeD [OF Some] wfAt_groups [OF assms(2)] wfGroupMap_keys by blast+
    show ?thesis
    proof (cases "gVersion current = v")
      case True
      have "?P (commitGroup p t (gKey g) cloned AuditGroupUpdate actor)"
        if "cloneAndValidateGroups env (activeDefinitionsLocked p t)
            (map (\<lambda>x. if gKey x = gKey g then g\<lparr> gVersion := gVersion current + 1 \<rparr> else x)
              (groupDefinitionsLocked env p t)) (mpLimits p) = Inr cloned" for cloned
        using replaced_group_stored [OF that assms(1) key] Some True
        by (intro movesGroup_commit [where g = "g\<lparr> gVersion := gVersion current + 1 \<rparr>"])
          (simp_all add: groupVersion_def)
      then show ?thesis
        using Some True by (auto intro!: bindOp_rule [where P = "movesGroup t (gKey g) (gVersion current) p"])
    qed (simp add: Some)
  qed simp
  then show ?thesis
    unfolding UpdateGroup_def Let_def by (intro guardOp_rule [where P = ?P]) simp_all
qed

lemma outcome_movesGroup:
  "outcome x = (p', e) \<Longrightarrow> movesGroup t k v p x \<Longrightarrow>
     (e = None \<longrightarrow> groupVersion t p k = Some v \<and> (groupVersion t p' k = Some (v + 1) \<or> groupVersion t p' k = None)) \<and>
     (\<forall>j. j \<noteq> k \<longrightarrow> groupVersion t p' j = groupVersion t p j)"
  by (cases x; cases "snd x") (auto simp: movesGroup_def)

lemma group_moves:
  assumes "groupTarget cmd = Some (k, v)" "perform env ctx t actor cmd p = (p', e)"
    and "wfEnv env" "wfAt env0 t p"
  shows "(e = None \<longrightarrow> groupVersion t p k = Some v \<and> (groupVersion t p' k = Some (v + 1) \<or> groupVersion t p' k = None)) \<and>
     (\<forall>j. j \<noteq> k \<longrightarrow> groupVersion t p' j = groupVersion t p j)"
proof (cases cmd)
  case (DoUpdateGroup g w)
  then have out: "outcome (UpdateGroup env ctx t g w actor p) = (p', e)" "k = gKey g" "v = w"
    using assms(1,2) by simp_all
  show ?thesis
    unfolding out(2,3) by (rule outcome_movesGroup [OF out(1) movesGroup_UpdateGroup [OF assms(3,4)]])
next
  case (DoDeleteGroup j w)
  then have out: "outcome (DeleteGroup ctx t k v actor p) = (p', e)"
    using assms(1,2) by simp
  show ?thesis
    by (rule outcome_movesGroup [OF out movesGroup_DeleteGroup])
qed (use assms(1) in simp_all)

section \<open>Interpretations\<close>

text \<open>
  Calls are admissible when their environment agrees with the provider's time zones; the laws hold on
  the states that satisfy the invariant of the provider.
\<close>

lemma performCall_wf:
  assumes "wfProvider env p \<and> auditable p" "sameZones env (fst c)"
  shows "wfProvider env (fst (performCall t c p)) \<and> auditable (fst (performCall t c p))"
proof -
  obtain env' ctx actor cmd where c: "c = (env', ctx, actor, cmd)"
    by (cases c)
  obtain p' e where p': "perform env' ctx t actor cmd p = (p', e)"
    by fastforce
  show ?thesis
    using wfProvider_perform [of env env' p ctx t actor cmd] perform_confined [OF p'] assms p'
    by (simp add: performCall_def c confinedTo_def auditable_def)
qed

lemma performCall_failure:
  "auditable p \<Longrightarrow> performCall t c p = (p', Some e) \<Longrightarrow> p' = p"
  using perform_confined by (fastforce simp: performCall_def case_prod_unfold confinedTo_def auditable_def)

abbreviation callCommand :: "call \<Rightarrow> command" where
  "callCommand c \<equiv> snd (snd (snd c))"

lemma performCall_feature:
  assumes "featureTarget (callCommand c) = Some (k, v)" "performCall t c p = (p', e)"
  shows "(e = None \<longrightarrow> featureVersion t p k = Some v \<and> (p' = p \<or> featureVersion t p' k = Some (v + 1))) \<and>
     (\<forall>j. j \<noteq> k \<longrightarrow> featureVersion t p' j = featureVersion t p j)"
  using assms by (intro feature_moves) (auto simp: performCall_def case_prod_unfold)

lemma performCall_group:
  assumes "groupTarget (callCommand c) = Some (k, v)" "performCall t c p = (p', e)"
    and "wfProvider env p" "sameZones env (fst c)"
  shows "(e = None \<longrightarrow> groupVersion t p k = Some v \<and> (groupVersion t p' k = Some (v + 1) \<or> groupVersion t p' k = None)) \<and>
     (\<forall>j. j \<noteq> k \<longrightarrow> groupVersion t p' j = groupVersion t p j)"
  using assms
  by (intro group_moves [of "callCommand c" k v "fst c" _ t])
    (auto simp: performCall_def case_prod_unfold wfProvider_def sameZones_def)

interpretation feature_store: optimistic_store "featureVersion t" "\<lambda>c. featureTarget (callCommand c)"
  "performCall t" "\<lambda>p. wfProvider env p \<and> auditable p" "\<lambda>c. sameZones env (fst c)" for env t
proof (unfold_locales, goal_cases)
  case (1 p c)
  then show ?case by (intro performCall_wf)
next
  case (2 p c k v p')
  then show ?case using performCall_feature [of c k v t p p' None] by blast
next
  case (3 p c p' e)
  then show ?case using performCall_failure by blast
next
  case (4 p c k v p' r j)
  then show ?case using performCall_feature [of c k v t p p' r] by blast
qed

interpretation group_store: optimistic_store "groupVersion t" "\<lambda>c. groupTarget (callCommand c)"
  "performCall t" "\<lambda>p. wfProvider env p \<and> auditable p" "\<lambda>c. sameZones env (fst c)" for env t
proof (unfold_locales, goal_cases)
  case (1 p c)
  then show ?case by (intro performCall_wf)
next
  case (2 p c k v p')
  then show ?case using performCall_group [of c k v t p p' None env] by simp
next
  case (3 p c p' e)
  then show ?case using performCall_failure by blast
next
  case (4 p c k v p' r j)
  then show ?case using performCall_group [of c k v t p p' r env] by simp
qed

end
