(* ===== verification/Evaluate_Props.thy ===== *)
theory Evaluate_Props
  imports Evaluate_Laws
begin

text \<open>
  The properties of snapshots and evaluation, with a small snapshot at which they are applied:
  a checkout feature that depends on a beta feature and inherits from a group of staff members.
\<close>

section \<open>An example snapshot\<close>

definition plainDefinition :: "string \<Rightarrow> Definition" where
  "plainDefinition key = \<lparr> dKey = key, dType = TypeBoolean, dDefault = BooleanValue False,
     dVariants = [(''on'', BooleanValue True)], dMetadata = [], dOwner = [],
     dLifecycle = LifecycleActive, dDependencies = [], dGroups = [], dTags = [], dVersion = 1,
     dStrategies = [] \<rparr>"

definition subjectTarget :: "string \<Rightarrow> string \<Rightarrow> Strategy" where
  "subjectTarget name subject = Exact \<lparr> etName = name, etVariant = ''on'', etTenants = [],
     etSubjects = [subject], etEnvironments = [], etAttributes = [] \<rparr>"

definition exampleBeta :: Definition where
  "exampleBeta = (plainDefinition ''beta'')\<lparr> dStrategies := [subjectTarget ''b'' ''ann''] \<rparr>"

definition exampleCheckout :: Definition where
  "exampleCheckout = (plainDefinition ''checkout'')\<lparr>
     dDependencies := [\<lparr> FeatureKey = ''beta'', RequiredVariant = ''on'' \<rparr>],
     dGroups := [''staff''], dVersion := 7, dStrategies := [subjectTarget ''c'' ''bob''] \<rparr>"

definition exampleGroups :: "GroupDefinition list" where
  "exampleGroups = [
     \<lparr> gKey = ''staff'', gParent = ''all'', gMetadata = [], gOwner = [], gTags = [], gVersion = 1,
       gStrategies = [subjectTarget ''s'' ''eve''] \<rparr>,
     \<lparr> gKey = ''all'', gParent = [], gMetadata = [], gOwner = [], gTags = [], gVersion = 1,
       gStrategies = [subjectTarget ''a'' ''ann''] \<rparr>]"

definition exampleSnapshot :: Snapshot where
  "exampleSnapshot = \<lparr> snDefinitions = byKey [exampleCheckout, exampleBeta],
     snGroups = groupsByKey exampleGroups, snTenant = [], snLimits = DefaultLimits \<rparr>"

definition exampleContext :: "string \<Rightarrow> Context" where
  "exampleContext subject = \<lparr> Subject = subject, Tenant = ''acme'', Environment = [],
     Attributes = [], Facts = [], ctxTime = 0 \<rparr>"

text \<open>Four features in a chain of three dependencies, under a depth limit of two.\<close>

definition gapFeature :: "string \<Rightarrow> string list \<Rightarrow> Definition" where
  "gapFeature key deps = (plainDefinition key)\<lparr>
     dDependencies := map (\<lambda>k. \<lparr> FeatureKey = k, RequiredVariant = ''on'' \<rparr>) deps,
     dStrategies := [subjectTarget ''x'' ''ann''] \<rparr>"

definition gapFeatures :: "Definition list" where
  "gapFeatures = [gapFeature ''a'' [''c'', ''b''], gapFeature ''b'' [''c''], gapFeature ''c'' [''d''],
     gapFeature ''d'' []]"

definition gapLimits :: Limits where
  "gapLimits = DefaultLimits\<lparr> MaxEvaluationDepth := 2 \<rparr>"

text \<open>A feature with a custom strategy that reports more than the limits allow.\<close>

definition chattyStrategy :: Strategy where
  "chattyStrategy = Custom \<lparr> csName = ''chatty'', csVariant = ''on'', csValidate = (\<lambda>l. None),
     csEvaluate = (\<lambda>input. Inr \<lparr> srMatch = True, srReason = NoReason,
       srDiagnostics = replicate 3 \<lparr> dgCode = ''code'', dgMessage = ''message'' \<rparr> \<rparr>) \<rparr>"

definition chattyFeature :: Definition where
  "chattyFeature = (plainDefinition ''chatty'')\<lparr> dStrategies := [chattyStrategy] \<rparr>"

definition chattyLimits :: Limits where
  "chattyLimits = DefaultLimits\<lparr> MaxDiagnostics := 1, MaxDiagnosticBytes := 4 \<rparr>"

lemma accepted_snapshot:
  "\<not> isl (NewSnapshotWithGroups env ds gs limits) \<Longrightarrow>
     NewSnapshotWithGroups env ds gs limits =
       Inr \<lparr> snDefinitions = byKey ds, snGroups = groupsByKey gs, snTenant = [], snLimits = limits \<rparr>"
  by (cases "NewSnapshotWithGroups env ds gs limits") (auto simp: NewSnapshotWithGroups_Inr)

lemma exampleSnapshot_accepted:
  "NewSnapshotWithGroups exampleEnv [exampleCheckout, exampleBeta] exampleGroups DefaultLimits =
     Inr exampleSnapshot"
proof -
  have "\<not> isl (NewSnapshotWithGroups exampleEnv [exampleCheckout, exampleBeta] exampleGroups DefaultLimits)"
    by code_simp
  then show ?thesis
    unfolding exampleSnapshot_def by (rule accepted_snapshot)
qed

section \<open>Accepted snapshots\<close>

text \<open>
  C2. A snapshot that \<^verbatim>\<open>NewSnapshotWithGroups\<close> returns, for any iteration order of the maps, holds
  exactly the given definitions and groups under their keys, has no tenant, and is well formed: every
  definition is well typed, every dependency names an existing feature and one of its variants, no
  feature depends on itself through any chain, every group chain ends within \<^verbatim>\<open>MaxGroupDepth\<close>, and
  every strategy a feature can reach (its own or inherited) is valid and targets one of its variants.
\<close>

theorem accepted_snapshot_wf:
  assumes "wfEnv env" "NewSnapshotWithGroups env ds gs limits = Inr s"
  shows "snDefinitions s = byKey ds \<and> snGroups s = groupsByKey gs \<and> snTenant s = [] \<and>
    wfSnapshot env s \<and> (\<forall>k. (k, k) \<notin> (dependencyRel (snDefinitions s))\<^sup>+)"
  using NewSnapshotWithGroups_wf [OF assms] wfSnapshot_acyclic [of env s]
    assms(2) [unfolded NewSnapshotWithGroups_Inr]
  by simp

theorem accepted_snapshot_wf_witness:
  "wfSnapshot exampleEnv exampleSnapshot \<and>
   (''checkout'', ''beta'') \<in> dependencyRel (snDefinitions exampleSnapshot) \<and>
   (''beta'', ''beta'') \<notin> (dependencyRel (snDefinitions exampleSnapshot))\<^sup>+"
  using accepted_snapshot_wf [OF wfEnv_exampleEnv exampleSnapshot_accepted]
  by (simp add: dependencyRel_def dependenciesOf_def exampleSnapshot_def exampleCheckout_def
      exampleBeta_def plainDefinition_def)

section \<open>Evaluation\<close>

text \<open>
  C1. Type soundness: when an accepted snapshot, bound to any tenant, answers an evaluation, the
  feature exists and has the requested type, and the answer is a valid value of that type which the
  definition holds: its default with an empty variant name, or the variant named in the answer.
  The version reported is the definition's.
\<close>

theorem evaluate_type_sound:
  assumes "wfEnv env" "NewSnapshotWithGroups env ds gs limits = Inr s"
    and "evaluate env (bindTenant s t) key expected c = Inr r"
  shows "\<exists>d\<in>set ds. dKey d = key \<and> dType d = expected \<and> vtyp (erValue r) = expected \<and>
    validateValue limits (erValue r) = None \<and> erVersion r = dVersion d \<and>
    (if erVariant r = [] then erValue r = dDefault d
     else map_of (dVariants d) (erVariant r) = Some (erValue r))"
proof -
  have s: "snDefinitions s = byKey ds" "snLimits s = limits"
    using assms(2) by (simp_all add: NewSnapshotWithGroups_Inr)
  have "wfSnapshot env (bindTenant s t)"
    using NewSnapshotWithGroups_wf [OF assms(1,2)] by simp
  then obtain d where "map_of (byKey ds) key = Some d" "dType d = expected" "answers limits d r"
    using evaluate_answers [OF _ assms(3)] s by (metis bindTenant_simps)
  then show ?thesis
    by (auto simp: answers_def dest!: map_of_SomeD)
qed

theorem evaluate_type_sound_witness:
  "\<exists>d\<in>set [exampleCheckout, exampleBeta]. dKey d = ''checkout'' \<and>
     map_of (dVariants d) ''on'' = Some (BooleanValue True)"
proof -
  have "evaluate exampleEnv (bindTenant exampleSnapshot ''acme'') ''checkout'' TypeBoolean (exampleContext ''ann'') =
      Inr \<lparr> erValue = BooleanValue True, erVariant = ''on'', erReason = ReasonGroupMatch,
            erMatchedStrategy = ''group:all/a'', erVersion = 7, erDiagnostics = [] \<rparr>"
    by code_simp
  from evaluate_type_sound [OF wfEnv_exampleEnv exampleSnapshot_accepted this] show ?thesis
    by auto
qed

text \<open>
  C3. Totality: on an accepted snapshot whose strategies are built in, with a bounded context of the
  bound tenant, an existing feature of the requested type whose dependency chains have at most
  \<^verbatim>\<open>MaxEvaluationDepth\<close> edges always gets an answer; no cycle, missing feature, group depth or
  strategy error can occur. Without the chain bound the only possible error is the depth error.
\<close>

theorem evaluate_total:
  assumes "wfEnv env" "NewSnapshotWithGroups env ds gs limits = Inr s" "builtinOnly s"
    and "t = [] \<or> Tenant c = t" "validateContext env limits c = None"
    and "d \<in> set ds"
  shows "(\<forall>e. evaluate env (bindTenant s t) (dKey d) (dType d) c = Inl e \<longrightarrow>
      e = ErrMsg ''evaluation depth exceeds limit'') \<and>
    (0 \<le> MaxEvaluationDepth limits \<and> depthWithin (nat (MaxEvaluationDepth limits)) (byKey ds) (dKey d) \<longrightarrow>
      (\<exists>r. evaluate env (bindTenant s t) (dKey d) (dType d) c = Inr r))"
proof -
  let ?s = "bindTenant s t"
  have s: "snDefinitions s = byKey ds" "snLimits s = limits" "distinct (map dKey ds)"
    using assms(2) by (simp_all add: NewSnapshotWithGroups_Inr)
  have wf: "wfSnapshot env ?s"
    using NewSnapshotWithGroups_wf [OF assms(1,2)] by simp
  have d: "map_of (snDefinitions ?s) (dKey d) = Some d"
    using assms(6) s by (auto simp: o_def intro: map_of_is_SomeI)
  then have "evaluate env ?s (dKey d) (dType d) c = evaluateKey env ?s c (dKey d) [] 0"
    using assms(4,5) s by (auto simp: evaluate_def)
  moreover have "e = ErrMsg ''evaluation depth exceeds limit'' \<and>
      \<not> (0 \<le> MaxEvaluationDepth limits \<and> depthWithin (nat (MaxEvaluationDepth limits)) (byKey ds) (dKey d))"
    if "evaluateKey env ?s c (dKey d) [] 0 = Inl e" for e
    using evaluateKey_errors [OF wf _ _ _ that] assms(3) d s
    by (fastforce simp: builtinOnly_def hasKey_def)
  ultimately show ?thesis
    by (cases "evaluateKey env ?s c (dKey d) [] 0") auto
qed

theorem evaluate_total_witness:
  "\<exists>r. evaluate exampleEnv (bindTenant exampleSnapshot ''acme'') ''checkout'' TypeBoolean (exampleContext ''zoe'') = Inr r"
proof -
  have "builtinOnly exampleSnapshot"
    by (simp add: builtinOnly_def exampleSnapshot_def exampleCheckout_def exampleBeta_def
        plainDefinition_def subjectTarget_def exampleGroups_def)
  moreover have "validateContext exampleEnv DefaultLimits (exampleContext ''zoe'') = None"
    by code_simp
  moreover have "exampleCheckout \<in> set [exampleCheckout, exampleBeta]"
    by simp
  ultimately have "0 \<le> MaxEvaluationDepth DefaultLimits \<and>
      depthWithin (nat (MaxEvaluationDepth DefaultLimits)) (byKey [exampleCheckout, exampleBeta]) (dKey exampleCheckout) \<longrightarrow>
      (\<exists>r. evaluate exampleEnv (bindTenant exampleSnapshot ''acme'') (dKey exampleCheckout) (dType exampleCheckout)
        (exampleContext ''zoe'') = Inr r)"
    using evaluate_total [OF wfEnv_exampleEnv exampleSnapshot_accepted, of "''acme''" "exampleContext ''zoe''"]
    by (simp add: exampleContext_def)
  moreover have "0 \<le> MaxEvaluationDepth DefaultLimits \<and>
      depthWithin (nat (MaxEvaluationDepth DefaultLimits)) (byKey [exampleCheckout, exampleBeta]) (dKey exampleCheckout)"
    by code_simp
  ultimately show ?thesis
    by (simp add: exampleCheckout_def plainDefinition_def)
qed

text \<open>
  C4. The order of decision: an inactive feature answers its default; otherwise the dependencies
  decide first; when all of them selected their required variants, the answer is that of the first
  matching candidate, where the candidates are the strategies of the groups (each group once, in
  the order in which the chains of the assigned groups reach them, child before parent) followed by
  the feature's own strategies, and the default when nothing matches.
\<close>

theorem evaluation_order:
  assumes "wfEnv env" "NewSnapshotWithGroups env ds gs limits = Inr s" "d \<in> set ds"
    and "t = [] \<or> Tenant c = t" "validateContext env limits c = None" "0 \<le> MaxEvaluationDepth limits"
  shows "evaluate env (bindTenant s t) (dKey d) (dType d) c =
    (if dLifecycle d \<noteq> LifecycleActive then Inr (defaultResult d ReasonInactive [])
     else rbind (dependenciesHold env (bindTenant s t) c (dDependencies d) [dKey d] 1) (\<lambda>ok.
       if \<not> ok then Inr (dependencyFailed d)
       else rbind (firstMatch (tryCandidate env s c d) (candidates s d)) (\<lambda>r.
         case r of Some result \<Rightarrow> Inr result | None \<Rightarrow> Inr (defaultResult d ReasonDefault []))))"
proof -
  let ?s = "bindTenant s t"
  have s: "snDefinitions s = byKey ds" "snLimits s = limits" "distinct (map dKey ds)"
    using assms(2) by (simp_all add: NewSnapshotWithGroups_Inr)
  have wf: "wfSnapshot env ?s"
    using NewSnapshotWithGroups_wf [OF assms(1,2)] by simp
  have d: "map_of (snDefinitions ?s) (dKey d) = Some d"
    using assms(3) s by (auto simp: o_def intro: map_of_is_SomeI)
  have same: "candidates ?s d = candidates s d" "tryCandidate env ?s c d = tryCandidate env s c d"
    by (auto simp: candidates_def tryCandidate_def)
  show ?thesis
    using assms(4-6) s d evaluatePolicies_candidates [OF wf d, of c, unfolded same]
    by (auto simp: evaluate_def evaluateKey.simps [of env ?s c "dKey d"] intro!: arg_cong2 [of _ _ _ _ rbind])
qed

theorem evaluation_order_witness:
  "map (\<lambda>(pre, over, st). pre @ StrategyName st) (candidates exampleSnapshot exampleCheckout) =
     [''group:staff/s'', ''group:all/a'', ''c''] \<and>
   evaluate exampleEnv (bindTenant exampleSnapshot ''acme'') ''checkout'' TypeBoolean (exampleContext ''bob'') =
     Inr (dependencyFailed exampleCheckout)"
proof
  show "map (\<lambda>(pre, over, st). pre @ StrategyName st) (candidates exampleSnapshot exampleCheckout) =
      [''group:staff/s'', ''group:all/a'', ''c'']"
    by code_simp
  have "dependenciesHold exampleEnv (bindTenant exampleSnapshot ''acme'') (exampleContext ''bob'')
      (dDependencies exampleCheckout) [dKey exampleCheckout] 1 = Inr False"
    by code_simp
  moreover have "validateContext exampleEnv DefaultLimits (exampleContext ''bob'') = None"
    by code_simp
  ultimately show "evaluate exampleEnv (bindTenant exampleSnapshot ''acme'') ''checkout'' TypeBoolean (exampleContext ''bob'') =
      Inr (dependencyFailed exampleCheckout)"
    using evaluation_order [OF wfEnv_exampleEnv exampleSnapshot_accepted, of exampleCheckout "''acme''" "exampleContext ''bob''"]
    by (simp add: exampleContext_def exampleCheckout_def plainDefinition_def DefaultLimits_def)
qed

text \<open>
  C12. The depth bound is not enforced when a snapshot is built: with \<^verbatim>\<open>MaxEvaluationDepth\<close> 2 the
  four features below form a chain of three dependencies, a to b to c to d, and the snapshot is
  accepted, because the search reaches c first through the shorter path and does not measure it again;
  evaluating a then fails with the depth error.
\<close>

theorem depth_bound_gap:
  "\<exists>s. NewSnapshot exampleEnv gapFeatures gapLimits = Inr s \<and>
     \<not> depthWithin (nat (MaxEvaluationDepth gapLimits)) (snDefinitions s) ''a'' \<and>
     evaluate exampleEnv s ''a'' TypeBoolean (exampleContext ''ann'') =
       Inl (ErrMsg ''evaluation depth exceeds limit'')"
proof -
  let ?s = "\<lparr> snDefinitions = byKey gapFeatures, snGroups = groupsByKey [], snTenant = [], snLimits = gapLimits \<rparr>"
  have "\<not> isl (NewSnapshotWithGroups exampleEnv gapFeatures [] gapLimits)"
    by code_simp
  then have "NewSnapshot exampleEnv gapFeatures gapLimits = Inr ?s"
    unfolding NewSnapshot_def by (rule accepted_snapshot)
  moreover have "\<not> depthWithin (nat (MaxEvaluationDepth gapLimits)) (snDefinitions ?s) ''a''"
    by code_simp
  moreover have "evaluate exampleEnv ?s ''a'' TypeBoolean (exampleContext ''ann'') =
      Inl (ErrMsg ''evaluation depth exceeds limit'')"
    by code_simp
  ultimately show ?thesis by blast
qed

text \<open>
  C13. Diagnostics are bounded: an answer of an accepted snapshot is either the answer for a failed
  dependency, with its one constant diagnostic, or carries at most \<^verbatim>\<open>MaxDiagnostics\<close> diagnostics
  whose code and message have at most \<^verbatim>\<open>MaxDiagnosticBytes\<close> bytes each, whatever a custom strategy
  returned.
\<close>

theorem diagnostics_bounded:
  assumes "wfEnv env" "NewSnapshotWithGroups env ds gs limits = Inr s"
    and "evaluate env (bindTenant s t) key expected c = Inr r"
  shows "(\<exists>d\<in>set ds. r = dependencyFailed d) \<or> boundedDiagnostics limits (erDiagnostics r)"
proof -
  let ?s = "bindTenant s t"
  have s: "snDefinitions s = byKey ds" "snLimits s = limits"
    using assms(2) by (simp_all add: NewSnapshotWithGroups_Inr)
  have wf: "wfSnapshot env ?s"
    using NewSnapshotWithGroups_wf [OF assms(1,2)] by simp
  have "evaluateKey env ?s c key [] 0 = Inr r"
    using evaluate_Inr [OF assms(3)] .
  then obtain d where d: "map_of (snDefinitions ?s) key = Some d"
    and r: "r = defaultResult d ReasonInactive [] \<or> r = dependencyFailed d \<or> evaluatePolicies env ?s c d = Inr r"
    using evaluateKey_Inr by blast
  have "d \<in> set ds"
    using d s by (auto dest!: map_of_SomeD)
  then show ?thesis
    using r evaluatePolicies_diagnostics [OF wf d] s
    by (auto simp: defaultResult_def boundedDiagnostics_def)
qed

theorem diagnostics_bounded_witness:
  "boundedDiagnostics chattyLimits [\<lparr> dgCode = ''code'', dgMessage = ''mess'' \<rparr>]"
proof -
  let ?s = "\<lparr> snDefinitions = byKey [chattyFeature], snGroups = groupsByKey [], snTenant = [], snLimits = chattyLimits \<rparr>"
  have "\<not> isl (NewSnapshotWithGroups exampleEnv [chattyFeature] [] chattyLimits)"
    by code_simp
  then have accepted: "NewSnapshotWithGroups exampleEnv [chattyFeature] [] chattyLimits = Inr ?s"
    by (rule accepted_snapshot)
  have "evaluate exampleEnv (bindTenant ?s []) ''chatty'' TypeBoolean (exampleContext ''ann'') =
      Inr \<lparr> erValue = BooleanValue True, erVariant = ''on'', erReason = ReasonTargetingMatch,
            erMatchedStrategy = ''chatty'', erVersion = 1,
            erDiagnostics = [\<lparr> dgCode = ''code'', dgMessage = ''mess'' \<rparr>] \<rparr>"
    by code_simp
  from diagnostics_bounded [OF wfEnv_exampleEnv accepted this] show ?thesis
    by (auto simp: dependencyFailed_def defaultResult_def)
qed

text \<open>
  C14. A batch is all or nothing and agrees with single evaluations: it succeeds exactly when it is
  within \<^verbatim>\<open>MaxBatchSize\<close> and every request has an answer, and then holds these answers in the order of
  the requests; one failing request fails it with that request's error.
\<close>

theorem batch_pointwise:
  "(Batch env s c requests = Inr details \<longleftrightarrow>
      len requests \<le> MaxBatchSize (snLimits s) \<and>
      list_all2 (\<lambda>q e. \<exists>r. evaluate env s (rqKey q) (rqType q) c = Inr r \<and>
        e = \<lparr> edKey = rqKey q, edValue = erValue r, edVariant = erVariant r, edReason = erReason r,
              edMatchedStrategy = erMatchedStrategy r, edVersion = erVersion r,
              edDiagnostics = erDiagnostics r \<rparr>) requests details) \<and>
   (Batch env s c requests = Inl e \<longrightarrow>
      e = ErrBatchLimit \<and> len requests > MaxBatchSize (snLimits s) \<or>
      (\<exists>q\<in>set requests. evaluate env s (rqKey q) (rqType q) c = Inl e))"
proof
  have request: "evaluateRequest env s c q = Inr e \<longleftrightarrow>
      (\<exists>r. evaluate env s (rqKey q) (rqType q) c = Inr r \<and>
        e = \<lparr> edKey = rqKey q, edValue = erValue r, edVariant = erVariant r, edReason = erReason r,
              edMatchedStrategy = erMatchedStrategy r, edVersion = erVersion r,
              edDiagnostics = erDiagnostics r \<rparr>)" for q e
    by (auto simp: evaluateRequest_def rbind_eq_Inr)
  show "Batch env s c requests = Inr details \<longleftrightarrow>
      len requests \<le> MaxBatchSize (snLimits s) \<and>
      list_all2 (\<lambda>q e. \<exists>r. evaluate env s (rqKey q) (rqType q) c = Inr r \<and>
        e = \<lparr> edKey = rqKey q, edValue = erValue r, edVariant = erVariant r, edReason = erReason r,
              edMatchedStrategy = erMatchedStrategy r, edVersion = erVersion r,
              edDiagnostics = erDiagnostics r \<rparr>) requests details"
    by (simp add: Batch_def mapRes_Inr_iff request)
  show "Batch env s c requests = Inl e \<longrightarrow>
      e = ErrBatchLimit \<and> len requests > MaxBatchSize (snLimits s) \<or>
      (\<exists>q\<in>set requests. evaluate env s (rqKey q) (rqType q) c = Inl e)"
    by (auto simp: Batch_def evaluateRequest_def rbind_eq_Inl dest!: mapRes_InlD)
qed

theorem batch_pointwise_witness:
  "Batch exampleEnv exampleSnapshot (exampleContext ''ann'') [\<lparr> rqKey = ''none'', rqType = TypeBoolean \<rparr>] = Inl ErrNotFound \<and>
   (\<exists>q\<in>set [\<lparr> rqKey = ''none'', rqType = TypeBoolean \<rparr>].
      evaluate exampleEnv exampleSnapshot (rqKey q) (rqType q) (exampleContext ''ann'') = Inl ErrNotFound)"
proof -
  have failed: "Batch exampleEnv exampleSnapshot (exampleContext ''ann'')
      [\<lparr> rqKey = ''none'', rqType = TypeBoolean \<rparr>] = Inl ErrNotFound"
    by code_simp
  then have "ErrNotFound = ErrBatchLimit \<and>
        len [\<lparr> rqKey = ''none'', rqType = TypeBoolean \<rparr>] > MaxBatchSize (snLimits exampleSnapshot) \<or>
      (\<exists>q\<in>set [\<lparr> rqKey = ''none'', rqType = TypeBoolean \<rparr>].
        evaluate exampleEnv exampleSnapshot (rqKey q) (rqType q) (exampleContext ''ann'') = Inl ErrNotFound)"
    using batch_pointwise [of exampleEnv exampleSnapshot "exampleContext ''ann''"] by blast
  with failed show ?thesis by simp
qed

end
