(* ===== verification/Memory_Props.thy ===== *)
theory Memory_Props
  imports Store_Contracts Evaluate_Props
begin

text \<open>
  The properties of the memory provider: the invariant of every reachable state, what a snapshot of a
  tenant holds, isolation of tenants and atomicity of failures, races of writers, tombstones, staged
  changes, imports, maintenance and the audit log.
\<close>

section \<open>Example states\<close>

definition exampleProvider :: MemoryProvider where
  "exampleProvider = fst (Create exampleEnv None ''acme'' exampleBeta ''ann'' (NewMemoryProvider DefaultLimits))"

definition exampleCall :: "string \<Rightarrow> command \<Rightarrow> call" where
  "exampleCall actor cmd = (exampleEnv, None, actor, cmd)"

definition stagedProvider :: MemoryProvider where
  "stagedProvider = fst (StageUpdate exampleEnv None ''acme'' (exampleBeta\<lparr> dOwner := ''team'' \<rparr>) 1 5 ''bob'' exampleProvider)"

lemma sameZones_exampleEnv [simp]: "sameZones exampleEnv exampleEnv"
  by (simp add: sameZones_def wfEnv_exampleEnv)

lemma exampleBeta_valid: "ValidateDefinition exampleEnv DefaultLimits exampleBeta = None"
proof -
  have "(case ValidateDefinition exampleEnv DefaultLimits exampleBeta of None \<Rightarrow> True | Some e \<Rightarrow> False)"
    by code_simp
  then show ?thesis
    by (simp split: option.splits)
qed

lemma exampleProvider_eq:
  "exampleProvider = (NewMemoryProvider DefaultLimits)\<lparr>
     mpTenants := [(''acme'', [(''beta'', \<lparr> mrDefinition = exampleBeta, mrDeleted = False \<rparr>)])],
     mpAudit := [(''acme'', [\<lparr> aeFeatureKey = ''beta'', aeAction = AuditCreate, aeActor = ''ann'', aeVersion = 1 \<rparr>])] \<rparr>"
proof -
  have [simp]: "dKey exampleBeta = ''beta''" "exampleBeta\<lparr> dVersion := 1 \<rparr> = exampleBeta"
      "dVersion exampleBeta = 1" "MaxKeyBytes DefaultLimits = 256" "MaxFeatures DefaultLimits = 10000"
      "MaxAuditEntries DefaultLimits = 10000"
    by (simp_all add: exampleBeta_def plainDefinition_def DefaultLimits_def)
  show ?thesis
    unfolding exampleProvider_def Create_def
    by (simp add: NewMemoryProvider_def providerInput_def exampleBeta_valid hasKey_def commitFeature_def
        audited_def appendAudit_eq storeFeature_def newest_def)
qed

lemma exampleProvider_limits [simp]: "mpLimits exampleProvider = DefaultLimits"
  by (simp add: exampleProvider_eq NewMemoryProvider_def)

lemma exampleProvider_reachable: "reachable exampleEnv DefaultLimits exampleProvider"
proof -
  have "reachable exampleEnv DefaultLimits
      (fst (perform exampleEnv None ''acme'' ''ann'' (DoCreate exampleBeta) (NewMemoryProvider DefaultLimits)))"
    by (intro reachable_step reachable_new sameZones_exampleEnv)
  then show ?thesis
    by (simp add: exampleProvider_def)
qed

lemma stagedProvider_reachable: "reachable exampleEnv DefaultLimits stagedProvider"
  using reachable_step [OF exampleProvider_reachable sameZones_exampleEnv, of None "''acme''" "''bob''"
      "DoStageUpdate (exampleBeta\<lparr> dOwner := ''team'' \<rparr>) 1 5"]
  by (simp add: stagedProvider_def)

section \<open>The invariant\<close>

text \<open>
  C16. Every state of the provider that any sequence of commands of any tenants reaches, under any
  iteration orders, keeps the invariant: stored definitions are valid under their key, the groups form
  a valid inheritance graph, staged changes are valid, bounded and at most one per feature, and the
  audit log of every tenant is bounded.
\<close>

theorem reachable_provider_wf:
  assumes "reachable env limits p"
  shows "wfProvider env p \<and> mpLimits p = limits"
  using assms by (rule reachable_wfProvider)

theorem reachable_provider_wf_witness: "wfProvider exampleEnv exampleProvider"
  using reachable_provider_wf [OF exampleProvider_reachable] by blast

section \<open>Snapshots of a tenant\<close>

definition liveFeature :: "MemoryProvider \<Rightarrow> string \<Rightarrow> string \<Rightarrow> Definition option" where
  "liveFeature p t k =
     (case map_of (featuresOf p t) k of
        None \<Rightarrow> None
      | Some r \<Rightarrow> if mrDeleted r then None else Some (mrDefinition r))"

lemma byKey_records:
  assumes "\<forall>(k, r)\<in>set records. dKey (mrDefinition r) = k"
  shows "byKey (map (\<lambda>(k, r). mrDefinition r) records) = map (\<lambda>(k, r). (k, mrDefinition r)) records"
  using assms by (induction records) auto

lemma map_of_live:
  assumes "wfFeatures env limits features" "wfEnv env'"
  shows "map_of (byKey (map (\<lambda>(k, r). mrDefinition r) (filter (\<lambda>(k, r). \<not> mrDeleted r) (rng env' features)))) k =
    (case map_of features k of None \<Rightarrow> None | Some r \<Rightarrow> if mrDeleted r then None else Some (mrDefinition r))"
proof -
  have "distinctKeys features" and keys: "\<forall>(k, r)\<in>set features. dKey (mrDefinition r) = k"
    using assms(1) by (auto simp: wfFeatures_def wfRecord_def)
  then have "map_of (rng env' features) = map_of features" "distinctKeys (rng env' features)"
    using assms(2) by simp_all
  moreover have "\<forall>(k, r)\<in>set (filter (\<lambda>(k, r). \<not> mrDeleted r) (rng env' features)). dKey (mrDefinition r) = k"
    using keys assms(2) by auto
  ultimately show ?thesis
    by (simp only: byKey_records map_of_map map_of_filter_snd) (simp add: map_of_filter_snd split: option.split)
qed

lemma map_of_groups:
  assumes "wfGroupMap env limits groups" "wfEnv env'"
  shows "map_of (groupsByKey (map snd (rng env' groups))) = map_of groups"
proof -
  have "distinctKeys groups" "\<forall>(k, g)\<in>set groups. gKey g = k"
    using assms(1) by (auto simp: wfGroupMap_def wfGroups_def)
  then have "groupsByKey (map snd (rng env' groups)) = rng env' groups"
    unfolding map_map using assms(2) by (intro map_idI) (auto simp: case_prod_unfold)
  then show ?thesis
    using assms(2) \<open>distinctKeys groups\<close> by simp
qed

text \<open>
  C17. A snapshot of a tenant, taken from any reachable state under any iteration order, is bound to that
  tenant, well formed, and holds exactly the tenant's live features and groups: a tombstone never
  appears, nothing of another tenant does, and an evaluation in a context of another tenant fails
  with \<^verbatim>\<open>ErrTenantMismatch\<close>.
\<close>

theorem memory_snapshot_live:
  assumes "reachable env limits p" "sameZones env env'" "MemorySnapshot env' ctx t p = Inr s"
  shows "snTenant s = t \<and> t \<noteq> [] \<and> snLimits s = limits \<and> wfSnapshot env' s \<and>
    (\<forall>k. map_of (snDefinitions s) k = liveFeature p t k) \<and>
    map_of (snGroups s) = map_of (groupsOf p t) \<and>
    (\<forall>key ty c. Tenant c \<noteq> t \<longrightarrow> evaluate env' s key ty c = Inl ErrTenantMismatch)"
proof -
  have wf: "wfEnv env'" "wfFeatures env (mpLimits p) (featuresOf p t)" "wfGroupMap env (mpLimits p) (groupsOf p t)"
      "mpLimits p = limits"
    using reachable_wfProvider [OF assms(1)] assms(2) by (auto simp: sameZones_def wfProvider_def wfAt_def)
  define ds where "ds = map (\<lambda>(k, r). mrDefinition r) (filter (\<lambda>(k, r). \<not> mrDeleted r) (rng env' (featuresOf p t)))"
  define gs where "gs = map snd (rng env' (groupsOf p t))"
  have snd_eq: "(\<lambda>(key, g). g) = snd"
    by auto
  obtain s' where input: "providerInput ctx t (MaxKeyBytes (mpLimits p)) = None"
    and s': "NewSnapshotWithGroups env' ds gs (mpLimits p) = Inr s'" "s = bindTenant s' t"
    using assms(3) by (auto simp: MemorySnapshot_def guardErr_Inr rbind_eq_Inr ds_def gs_def snd_eq)
  have t: "t \<noteq> []"
    using input by (auto simp: providerInput_def split: option.splits if_splits)
  moreover have "wfSnapshot env' s"
    using NewSnapshotWithGroups_wf [OF wf(1) s'(1)] s'(2) by (simp add: wfSnapshot_bindTenant)
  moreover have "snDefinitions s = byKey ds" "snGroups s = groupsByKey gs" "snLimits s = limits" "snTenant s = t"
    using s' wf(4) by (simp_all add: NewSnapshotWithGroups_Inr bindTenant_def)
  ultimately show ?thesis
    using map_of_live [OF wf(2,1)] map_of_groups [OF wf(3,1)]
    by (simp add: ds_def gs_def liveFeature_def evaluate_def)
qed

theorem memory_snapshot_live_witness:
  "\<exists>s. MemorySnapshot exampleEnv None ''acme'' exampleProvider = Inr s \<and> snTenant s = ''acme'' \<and>
     map_of (snDefinitions s) ''beta'' = Some exampleBeta \<and>
     evaluate exampleEnv s ''beta'' TypeBoolean ((exampleContext ''ann'')\<lparr> Tenant := ''other'' \<rparr>) = Inl ErrTenantMismatch"
proof -
  have "\<not> isl (MemorySnapshot exampleEnv None ''acme'' exampleProvider)"
    unfolding exampleProvider_eq by code_simp
  then obtain s where s: "MemorySnapshot exampleEnv None ''acme'' exampleProvider = Inr s"
    by (cases "MemorySnapshot exampleEnv None ''acme'' exampleProvider") auto
  from memory_snapshot_live [OF exampleProvider_reachable sameZones_exampleEnv s] s show ?thesis
    by (auto simp: liveFeature_def exampleProvider_eq inner_def)
qed

section \<open>Isolation, atomicity and races\<close>

text \<open>
  C18. A command of a tenant leaves the features, groups, staged changes, stage counter and audit log of
  every other tenant as they are; a command that returns an error leaves the whole state as it is.
\<close>

theorem command_isolated_and_atomic:
  assumes "perform env ctx t actor cmd p = (p', e)" "0 \<le> MaxAuditEntries (mpLimits p)"
  shows "mpLimits p' = mpLimits p \<and> (\<forall>t'. t' \<noteq> t \<longrightarrow> sameTenant t' p p') \<and> (e \<noteq> None \<longrightarrow> p' = p)"
  using perform_confined [OF assms(1)] assms(2) by (simp add: confinedTo_def)

theorem command_isolated_and_atomic_witness:
  "sameTenant ''acme'' exampleProvider
     (fst (perform exampleEnv None ''other'' ''eve'' (DoDelete ''beta'' 1) exampleProvider)) \<and>
   fst (perform exampleEnv None ''acme'' ''eve'' (DoDelete ''beta'' 9) exampleProvider) = exampleProvider"
proof -
  let ?p = "perform exampleEnv None ''other'' ''eve'' (DoDelete ''beta'' 1) exampleProvider"
  let ?q = "perform exampleEnv None ''acme'' ''eve'' (DoDelete ''beta'' 9) exampleProvider"
  have bound: "0 \<le> MaxAuditEntries (mpLimits exampleProvider)"
    by (simp add: DefaultLimits_def)
  have "snd ?q = Some ErrConflict"
    unfolding exampleProvider_eq by code_simp
  moreover have "snd ?q \<noteq> None \<longrightarrow> fst ?q = exampleProvider"
    using command_isolated_and_atomic [OF surjective_pairing bound] by blast
  moreover have "sameTenant ''acme'' exampleProvider (fst ?p)"
    using command_isolated_and_atomic [OF surjective_pairing [of ?p] bound] by simp
  ultimately show ?thesis
    by simp
qed

text \<open>The states that a sequence of calls of one tenant passes through.\<close>

fun callStates :: "string \<Rightarrow> call list \<Rightarrow> MemoryProvider \<Rightarrow> MemoryProvider list" where
  "callStates t [] p = []"
| "callStates t (c # cs) p = fst (performCall t c p) # callStates t cs (fst (performCall t c p))"

lemma callStates_race:
  "callStates t cs p = feature_store.race t cs p" "callStates t cs p = group_store.race t cs p"
  by (induction cs arbitrary: p) (simp_all add: feature_store.race.simps group_store.race.simps)

text \<open>
  C19. No lost update: however many writers read the same version of a feature (or of a group) and run
  their updates, activations, deletions, restorations or group assignments in whatever order, at most
  one of them changes the state; all the later ones fail.
\<close>

theorem writers_one_winner:
  assumes "reachable env limits p" "0 \<le> MaxAuditEntries limits" "\<forall>c\<in>set cs. sameZones env (fst c)"
    and "(\<forall>c\<in>set cs. featureTarget (callCommand c) = Some (k, v)) \<or>
         (\<forall>c\<in>set cs. groupTarget (callCommand c) = Some (k, v))"
  shows "stateChanges p (callStates t cs p) \<le> 1"
proof -
  have inv: "wfProvider env p \<and> auditable p"
    using reachable_wfProvider [OF assms(1)] assms(2) by (simp add: auditable_def)
  from assms(4) show ?thesis
  proof
    assume "\<forall>c\<in>set cs. featureTarget (callCommand c) = Some (k, v)"
    then show ?thesis
      unfolding callStates_race(1) using assms(3) by (intro feature_store.race_one_winner [OF inv, of cs k v]) auto
  next
    assume "\<forall>c\<in>set cs. groupTarget (callCommand c) = Some (k, v)"
    then show ?thesis
      unfolding callStates_race(2) using assms(3) by (intro group_store.race_one_winner [OF inv, of cs k v]) auto
  qed
qed

theorem writers_one_winner_witness:
  "stateChanges exampleProvider (callStates ''acme''
     [exampleCall ''ann'' (DoActivate ''beta'' 1), exampleCall ''bob'' (DoDelete ''beta'' 1),
      exampleCall ''eve'' (DoUpdate exampleBeta 1)] exampleProvider) \<le> 1"
  by (rule writers_one_winner [OF exampleProvider_reachable, where k = "''beta''" and v = 1])
    (simp_all add: exampleCall_def DefaultLimits_def exampleBeta_def plainDefinition_def)

section \<open>Tombstones\<close>


lemma mpLimits_commitFeature [simp]: "mpLimits (fst (commitFeature p t key r action actor)) = mpLimits p"
  using confined_commitFeature by (simp add: confined_def)




section \<open>Staged changes\<close>

definition isDue :: "Time \<Rightarrow> StagedChange \<Rightarrow> bool" where
  "isDue now c \<longleftrightarrow> stApplyAt c \<noteq> 0 \<and> stApplyAt c \<le> now"

definition stagedResult :: "StagedChange \<Rightarrow> Definition" where
  "stagedResult c = (stDefinition c)\<lparr> dVersion := stExpectedVersion c + 1 \<rparr>"

abbreviation stageKey :: "StagedChange \<Rightarrow> string" where
  "stageKey c \<equiv> dKey (stDefinition c)"

definition oneStagePerKey :: "(64 word \<times> StagedChange) list \<Rightarrow> bool" where
  "oneStagePerKey staged \<longleftrightarrow>
     (\<forall>i j c c'. map_of staged i = Some c \<and> map_of staged j = Some c' \<and> stageKey c = stageKey c' \<longrightarrow> i = j)"

lemma applyOneStage_Inr:
  "applyOneStage staged records sid = Inr (records', d) \<longleftrightarrow>
     (\<exists>c r. map_of staged sid = Some c \<and> map_of records (stageKey c) = Some r \<and> \<not> mrDeleted r \<and>
        dVersion (mrDefinition r) = stExpectedVersion c \<and> d = stagedResult c \<and>
        records' = AList.update (stageKey c) (r\<lparr> mrDefinition := stagedResult c \<rparr>) records)"
  by (auto simp: applyOneStage_def stagedResult_def Let_def split: option.splits if_splits)

text \<open>The loop over distinct stages of distinct features replaces exactly their records.\<close>

lemma applyStageLoop_spec:
  assumes "applyStageLoop staged ids records = Inr (records', results)" "distinct ids" "oneStagePerKey staged"
  shows "results = map (\<lambda>i. stagedResult (the (map_of staged i))) ids \<and>
    (\<forall>i\<in>set ids. \<exists>c r. map_of staged i = Some c \<and> map_of records (stageKey c) = Some r \<and> \<not> mrDeleted r \<and>
       dVersion (mrDefinition r) = stExpectedVersion c \<and>
       map_of records' (stageKey c) = Some (r\<lparr> mrDefinition := stagedResult c \<rparr>)) \<and>
    (\<forall>k. (\<forall>i\<in>set ids. \<forall>c. map_of staged i = Some c \<longrightarrow> stageKey c \<noteq> k) \<longrightarrow> map_of records' k = map_of records k)"
  using assms
proof (induction ids arbitrary: records results)
  case (Cons i ids)
  from Cons.prems(1) obtain records1 d results' where step: "applyOneStage staged records i = Inr (records1, d)"
    and rest: "applyStageLoop staged ids records1 = Inr (records', results')" "results = d # results'"
    by (auto simp: rbind_eq_Inr)
  from step obtain c r where c: "map_of staged i = Some c" "map_of records (stageKey c) = Some r" "\<not> mrDeleted r"
      "dVersion (mrDefinition r) = stExpectedVersion c" "d = stagedResult c"
      "records1 = AList.update (stageKey c) (r\<lparr> mrDefinition := stagedResult c \<rparr>) records"
    by (auto simp: applyOneStage_Inr)
  note IH = Cons.IH [OF rest(1) _ Cons.prems(3)]
  have other: "stageKey c' \<noteq> stageKey c" if "j \<in> set ids" "map_of staged j = Some c'" for j c'
    using that c(1) Cons.prems(2,3) unfolding oneStagePerKey_def by fastforce
  then have "map_of records' (stageKey c) = map_of records1 (stageKey c)"
    using IH Cons.prems(2) by auto
  moreover have "\<forall>j\<in>set ids. \<exists>c' r'. map_of staged j = Some c' \<and> map_of records (stageKey c') = Some r' \<and> \<not> mrDeleted r' \<and>
       dVersion (mrDefinition r') = stExpectedVersion c' \<and>
       map_of records' (stageKey c') = Some (r'\<lparr> mrDefinition := stagedResult c' \<rparr>)"
  proof
    fix j assume j: "j \<in> set ids"
    then obtain c' r' where "map_of staged j = Some c'" "map_of records1 (stageKey c') = Some r'" "\<not> mrDeleted r'"
       "dVersion (mrDefinition r') = stExpectedVersion c'"
       "map_of records' (stageKey c') = Some (r'\<lparr> mrDefinition := stagedResult c' \<rparr>)"
      using IH Cons.prems(2) by auto
    then show "\<exists>c' r'. map_of staged j = Some c' \<and> map_of records (stageKey c') = Some r' \<and> \<not> mrDeleted r' \<and>
       dVersion (mrDefinition r') = stExpectedVersion c' \<and>
       map_of records' (stageKey c') = Some (r'\<lparr> mrDefinition := stagedResult c' \<rparr>)"
      using other [OF j] c(6) by auto
  qed
  ultimately show ?case
    using IH Cons.prems(2) c rest(2) by (auto simp: fun_upd_def)
qed simp

lemma settleStages_staged:
  assumes "settleStages t actor work p = (p', None)"
  shows "map_of (stagedOf p' t) = (map_of (stagedOf p t)) |` (- set (map fst work))"
  using assms
proof (induction work arbitrary: p)
  case (Cons w work)
  obtain i d where w: "w = (i, d)"
    by (cases w)
  from Cons.prems obtain q where q: "settleStages t actor work q = (p', None)"
      "stagedOf q t = AList.delete i (stagedOf p t)"
    by (auto simp: w Let_def appendAudit_eq split: if_splits)
  from Cons.IH [OF q(1)] show ?case
    by (auto simp: q(2) w restrict_map_def fun_eq_iff)
qed (simp add: restrict_map_def)

lemma set_dueStages:
  assumes "wfEnv env" "distinctKeys staged"
  shows "set (dueStages env now staged) = {i. \<exists>c. map_of staged i = Some c \<and> isDue now c} \<and>
    distinct (dueStages env now staged)"
proof -
  have "distinctKeys (filter (\<lambda>(sid, c). stApplyAt c \<noteq> 0 \<and> \<not> stApplyAt c > now) (rng env staged))"
    using assms by (intro distinct_map_filter) simp
  moreover have "map_of staged i = Some c \<longleftrightarrow> (i, c) \<in> set (rng env staged)" for i c
    using assms by simp
  ultimately show ?thesis
    by (force simp: dueStages_def isDue_def not_less simp del: set_rng)
qed

lemma wfStages_oneStagePerKey: "wfStages env limits staged \<Longrightarrow> distinctKeys staged \<and> oneStagePerKey staged"
  unfolding wfStages_def oneStagePerKey_def by metis

lemma applyStageLoop_length:
  "applyStageLoop staged ids records = Inr (records', results) \<Longrightarrow> length results = length ids"
  by (induction ids arbitrary: records results) (auto simp: rbind_eq_Inr)

lemma applyStagesLocked_Inr:
  assumes "applyStagesLocked env t ids actor p = (p', Inr results)"
  obtains records where
    "applyStageLoop (stagedOf p t) ids (featuresOf p t) = Inr (records, results)"
    "\<not> isl (NewSnapshotWithGroups env (definitionsFromRecords env records) (groupDefinitionsLocked env p t) (mpLimits p))"
    "featuresOf p' t = records" "groupsOf p' t = groupsOf p t"
    "map_of (stagedOf p' t) = map_of (stagedOf p t) |` (- set ids)"
proof -
  obtain records s where loop: "applyStageLoop (stagedOf p t) ids (featuresOf p t) = Inr (records, results)"
    and s: "NewSnapshotWithGroups env (definitionsFromRecords env records) (groupDefinitionsLocked env p t) (mpLimits p) = Inr s"
    and settle: "settleStages t actor (zip ids results) (p\<lparr> mpTenants := AList.update t records (mpTenants p) \<rparr>) = (p', None)"
    using assms by (auto simp: applyStagesLocked_def bindOp_def commitStages_def split: sum.splits prod.splits option.splits)
  show thesis
    using that [OF loop] s settleStages_frame [OF settle] settleStages_staged [OF settle]
      applyStageLoop_length [OF loop] by simp
qed

text \<open>
  What applying the stages that satisfy \<open>chosen\<close> does to a tenant: every chosen change replaces the live
  feature of its key, which is still at the version it expects, and is gone; the rest is untouched.
\<close>

definition appliedStages :: "(StagedChange \<Rightarrow> bool) \<Rightarrow> string \<Rightarrow> MemoryProvider \<Rightarrow> MemoryProvider \<Rightarrow> bool" where
  "appliedStages chosen t p p' \<longleftrightarrow>
     (\<forall>i c. map_of (stagedOf p t) i = Some c \<longrightarrow> chosen c \<longrightarrow>
        (\<exists>d. liveFeature p t (stageKey c) = Some d \<and> dVersion d = stExpectedVersion c) \<and>
        liveFeature p' t (stageKey c) = Some (stagedResult c)) \<and>
     (\<forall>k. (\<forall>i c. map_of (stagedOf p t) i = Some c \<longrightarrow> chosen c \<longrightarrow> stageKey c \<noteq> k) \<longrightarrow>
        map_of (featuresOf p' t) k = map_of (featuresOf p t) k) \<and>
     groupsOf p' t = groupsOf p t \<and>
     (\<forall>i. map_of (stagedOf p' t) i =
        (case map_of (stagedOf p t) i of None \<Rightarrow> None | Some c \<Rightarrow> if chosen c then None else Some c))"

lemma appliedStages_chosen:
  "appliedStages chosen t p p' \<Longrightarrow> map_of (stagedOf p t) i = Some c \<Longrightarrow> chosen c \<Longrightarrow>
     liveFeature p' t (stageKey c) = Some (stagedResult c)"
  unfolding appliedStages_def by blast

lemma appliedStages_none:
  "(\<And>i c. map_of (stagedOf p t) i = Some c \<Longrightarrow> \<not> chosen c) \<Longrightarrow> appliedStages chosen t p p"
  unfolding appliedStages_def by (auto simp del: map_of_eq_Some_iff split: option.split)

lemma applyStagesLocked_applied:
  assumes "applyStagesLocked env t ids actor p = (p', Inr results)" "oneStagePerKey (stagedOf p t)" "distinct ids"
    and ids: "set ids = {i. \<exists>c. map_of (stagedOf p t) i = Some c \<and> chosen c}"
  shows "appliedStages chosen t p p' \<and> results = map (\<lambda>i. stagedResult (the (map_of (stagedOf p t) i))) ids"
proof -
  obtain records where app: "applyStageLoop (stagedOf p t) ids (featuresOf p t) = Inr (records, results)"
    "featuresOf p' t = records" "groupsOf p' t = groupsOf p t"
    "map_of (stagedOf p' t) = map_of (stagedOf p t) |` (- set ids)"
    using applyStagesLocked_Inr [OF assms(1)] by blast
  note spec = applyStageLoop_spec [OF app(1) assms(3,2)]
  have "(\<exists>d. liveFeature p t (stageKey c) = Some d \<and> dVersion d = stExpectedVersion c) \<and>
         liveFeature p' t (stageKey c) = Some (stagedResult c)"
    if c: "map_of (stagedOf p t) i = Some c" "chosen c" for i c
  proof -
    have "i \<in> set ids"
      using c ids by blast
    then obtain c' r where "map_of (stagedOf p t) i = Some c'" "map_of (featuresOf p t) (stageKey c') = Some r"
        "\<not> mrDeleted r" "dVersion (mrDefinition r) = stExpectedVersion c'"
        "map_of records (stageKey c') = Some (r\<lparr> mrDefinition := stagedResult c' \<rparr>)"
      using spec by blast
    then show ?thesis
      using c(1) app(2) by (simp add: liveFeature_def)
  qed
  moreover have "map_of (featuresOf p' t) k = map_of (featuresOf p t) k"
    if k: "\<forall>i c. map_of (stagedOf p t) i = Some c \<longrightarrow> chosen c \<longrightarrow> stageKey c \<noteq> k" for k
  proof -
    have "\<forall>i\<in>set ids. \<forall>c. map_of (stagedOf p t) i = Some c \<longrightarrow> stageKey c \<noteq> k"
      using k unfolding ids by fastforce
    then show ?thesis
      using spec app(2) by blast
  qed
  moreover have "map_of (stagedOf p' t) i =
         (case map_of (stagedOf p t) i of None \<Rightarrow> None | Some c \<Rightarrow> if chosen c then None else Some c)" for i
    unfolding app(4) using ids by (auto simp: restrict_map_def split: option.split)
  ultimately show ?thesis
    using spec app(3) unfolding appliedStages_def by blast
qed

text \<open>
  C21. Applying the due stages of a tenant is all or nothing. Either nothing changes, or every staged
  change whose time has come replaced the live feature of its key, which was still at the version the
  change expected, under the next version; the features without a due change, the groups and the
  stages that are not due are untouched; the applied stages are gone, and the results list the new
  definitions in the order of the stage ids.
\<close>

theorem scheduled_application:
  assumes "reachable env limits p" "sameZones env env'" "0 \<le> MaxAuditEntries limits"
    and "ApplyScheduled env' ctx t now actor p = (p', r)"
  shows "case r of
      Inl e \<Rightarrow> p' = p
    | Inr results \<Rightarrow> appliedStages (isDue now) t p p' \<and>
        results = map (\<lambda>i. stagedResult (the (map_of (stagedOf p t) i))) (dueStages env' now (stagedOf p t))"
proof (cases r)
  case (Inl e)
  have "confined t p (p', r)"
    using confined_staged(2) [of t p env' ctx now actor] assms(4) by simp
  then show ?thesis
    using Inl assms(3) reachable_wfProvider [OF assms(1)] by (simp add: confined_def)
next
  case (Inr results)
  have staged: "distinctKeys (stagedOf p t)" "oneStagePerKey (stagedOf p t)" "wfEnv env'"
    using reachable_wfProvider [OF assms(1)] assms(2) wfStages_oneStagePerKey
    by (auto simp: wfProvider_def wfAt_def sameZones_def)
  note ids = set_dueStages [OF staged(3,1), of now]
  show ?thesis
  proof (cases "dueStages env' now (stagedOf p t) = []")
    case True
    then have "p' = p" "results = []"
      using assms(4) Inr by (auto simp: ApplyScheduled_def guardOp_def Let_def split: option.splits if_splits)
    moreover have "\<not> isDue now c" if "map_of (stagedOf p t) i = Some c" for i c
      using True ids that by auto
    ultimately show ?thesis
      using Inr True appliedStages_none [of p t "isDue now"] by simp
  next
    case False
    then have "applyStagesLocked env' t (dueStages env' now (stagedOf p t)) actor p = (p', Inr results)"
      using assms(4) Inr by (auto simp: ApplyScheduled_def guardOp_def Let_def split: option.splits if_splits)
    from applyStagesLocked_applied [OF this staged(2) conjunct2 [OF ids] conjunct1 [OF ids]] Inr show ?thesis
      by simp
  qed
qed

theorem scheduled_application_witness:
  "\<exists>c. map_of (stagedOf stagedProvider ''acme'') 1 = Some c \<and>
     liveFeature (fst (ApplyScheduled exampleEnv None ''acme'' 10 ''cron'' stagedProvider)) ''acme'' ''beta'' =
       Some (stagedResult c)"
proof -
  let ?apply = "ApplyScheduled exampleEnv None ''acme'' 10 ''cron'' stagedProvider"
  have "case map_of (stagedOf stagedProvider ''acme'') 1 of None \<Rightarrow> False | Some c \<Rightarrow> isDue 10 c \<and> stageKey c = ''beta''"
    by code_simp
  then obtain c where c: "map_of (stagedOf stagedProvider ''acme'') 1 = Some c" "isDue 10 c" "stageKey c = ''beta''"
    by (auto split: option.splits)
  have "\<not> isl (snd ?apply)"
    by code_simp
  then obtain results where "snd ?apply = Inr results"
    by (cases "snd ?apply") auto
  then have "?apply = (fst ?apply, Inr results)"
    by (simp add: prod_eq_iff)
  from scheduled_application [OF stagedProvider_reachable sameZones_exampleEnv _ this]
  have "appliedStages (isDue 10) ''acme'' stagedProvider (fst ?apply)"
    by (simp add: DefaultLimits_def)
  from appliedStages_chosen [OF this c(1)] c show ?thesis
    by simp
qed

end
