(* ===== verification/Maintenance_Props.thy ===== *)
theory Maintenance_Props
  imports Memory_Props
begin

text \<open>
  What imports, maintenance and the audit log do to a tenant: the conflict policies as a function of
  the incoming document and the stored records, the effect of a cleanup, and one audit entry for
  every change.
\<close>

section \<open>Imports\<close>

text \<open>
  The reference: the record of a key after an import, from the incoming resource and the stored one,
  where \<open>stamp\<close> gives the incoming resource its version.
\<close>

definition merged :: "ConflictPolicy \<Rightarrow> ('b \<Rightarrow> 64 word \<Rightarrow> 'a) \<Rightarrow> ('a \<Rightarrow> 64 word) \<Rightarrow> 'b option \<Rightarrow> 'a option \<Rightarrow> 'a option" where
  "merged policy stamp version incoming stored =
     (case incoming of
        None \<Rightarrow> stored
      | Some x \<Rightarrow>
          (case stored of
             None \<Rightarrow> Some (stamp x 1)
           | Some y \<Rightarrow> if policy = ConflictReplace then Some (stamp x (version y + 1)) else Some y))"

definition stampFeature :: "Definition \<Rightarrow> 64 word \<Rightarrow> memoryRecord" where
  "stampFeature d v = \<lparr> mrDefinition = d\<lparr> dVersion := v \<rparr>, mrDeleted = False \<rparr>"

definition stampGroup :: "GroupDefinition \<Rightarrow> 64 word \<Rightarrow> GroupDefinition" where
  "stampGroup g v = g\<lparr> gVersion := v \<rparr>"

definition recordVersion :: "memoryRecord \<Rightarrow> 64 word" where
  "recordVersion r = dVersion (mrDefinition r)"

definition featureConflicts :: "Definition list \<Rightarrow> memoryRecord gomap \<Rightarrow> ImportConflict list" where
  "featureConflicts ds records =
     [\<lparr> icResource = ''feature'', icKey = dKey d, icCurrentVersion = recordVersion (the (map_of records (dKey d))),
        icIncomingVersion = dVersion d \<rparr>. d \<leftarrow> ds, hasKey records (dKey d)]"

definition groupConflicts :: "GroupDefinition list \<Rightarrow> GroupDefinition gomap \<Rightarrow> ImportConflict list" where
  "groupConflicts gs groups =
     [\<lparr> icResource = ''group'', icKey = gKey g, icCurrentVersion = gVersion (the (map_of groups (gKey g))),
        icIncomingVersion = gVersion g \<rparr>. g \<leftarrow> gs, hasKey groups (gKey g)]"

lemma planFeature_effect:
  assumes "planFeature policy d (records, report, audits) = (records', report', audits')"
  shows "map_of records' = (map_of records)(dKey d :=
      merged policy stampFeature recordVersion (Some d) (map_of records (dKey d))) \<and>
    irConflicts report' = irConflicts report @ featureConflicts [d] records"
  using assms
  by (auto simp: planFeature_def merged_def stampFeature_def recordVersion_def featureConflicts_def hasKey_def
      Let_def fun_eq_iff split: option.splits if_splits)

lemma planGroup_effect:
  assumes "planGroup policy g (groups, report, audits) = (groups', report', audits')"
  shows "map_of groups' = (map_of groups)(gKey g :=
      merged policy stampGroup gVersion (Some g) (map_of groups (gKey g))) \<and>
    irConflicts report' = irConflicts report @ groupConflicts [g] groups"
  using assms
  by (auto simp: planGroup_def merged_def stampGroup_def groupConflicts_def hasKey_def
      Let_def fun_eq_iff split: option.splits if_splits)

lemma featureConflicts_cong:
  "(\<And>d. d \<in> set ds \<Longrightarrow> map_of records (dKey d) = map_of records' (dKey d)) \<Longrightarrow>
     featureConflicts ds records = featureConflicts ds records'"
  by (induction ds) (auto simp: featureConflicts_def hasKey_def)

lemma groupConflicts_cong:
  "(\<And>g. g \<in> set gs \<Longrightarrow> map_of groups (gKey g) = map_of groups' (gKey g)) \<Longrightarrow>
     groupConflicts gs groups = groupConflicts gs groups'"
  by (induction gs) (auto simp: groupConflicts_def hasKey_def)

lemma planFeatures_effect:
  assumes "fold (planFeature policy) ds (records, report, audits) = (records', report', audits')" "distinct (map dKey ds)"
  shows "map_of records' k = merged policy stampFeature recordVersion (map_of (byKey ds) k) (map_of records k) \<and>
    irConflicts report' = irConflicts report @ featureConflicts ds records"
  using assms
proof (induction ds arbitrary: records report audits)
  case (Cons d ds)
  obtain records1 report1 audits1 where
    step: "planFeature policy d (records, report, audits) = (records1, report1, audits1)"
    by (cases "planFeature policy d (records, report, audits)")
  note effect = planFeature_effect [OF step]
  have rest: "fold (planFeature policy) ds (records1, report1, audits1) = (records', report', audits')"
    using Cons.prems(1) step by simp
  have "featureConflicts ds records1 = featureConflicts ds records"
    using effect Cons.prems(2) by (intro featureConflicts_cong) (force simp: image_iff)
  moreover have "map_of (byKey ds) (dKey d) = None"
    using Cons.prems(2) by (simp add: map_of_eq_None_iff image_image)
  ultimately show ?case
    using Cons.IH [OF rest] Cons.prems(2) effect
    by (auto simp: merged_def featureConflicts_def)
qed (simp add: merged_def featureConflicts_def)

lemma planGroups_effect:
  assumes "fold (planGroup policy) gs (groups, report, audits) = (groups', report', audits')" "distinct (map gKey gs)"
  shows "map_of groups' k = merged policy stampGroup gVersion (map_of (groupsByKey gs) k) (map_of groups k) \<and>
    irConflicts report' = irConflicts report @ groupConflicts gs groups"
  using assms
proof (induction gs arbitrary: groups report audits)
  case (Cons g gs)
  obtain groups1 report1 audits1 where
    step: "planGroup policy g (groups, report, audits) = (groups1, report1, audits1)"
    by (cases "planGroup policy g (groups, report, audits)")
  note effect = planGroup_effect [OF step]
  have rest: "fold (planGroup policy) gs (groups1, report1, audits1) = (groups', report', audits')"
    using Cons.prems(1) step by simp
  have "groupConflicts gs groups1 = groupConflicts gs groups"
    using effect Cons.prems(2) by (intro groupConflicts_cong) (force simp: image_iff)
  moreover have "map_of (groupsByKey gs) (gKey g) = None"
    using Cons.prems(2) by (simp add: map_of_eq_None_iff image_image)
  ultimately show ?case
    using Cons.IH [OF rest] Cons.prems(2) effect
    by (auto simp: merged_def groupConflicts_def)
qed (simp add: merged_def groupConflicts_def)

definition policyOf :: "ImportOptions \<Rightarrow> ConflictPolicy" where
  "policyOf options = (if ioConflictPolicy options = NoConflictPolicy then ConflictFail else ioConflictPolicy options)"

lemma planImport_effect:
  assumes "planImport policy dry ds gs t p = (records, groups, report, audits)"
    and "distinct (map dKey ds)" "distinct (map gKey gs)"
  shows "(\<forall>k. map_of records k = merged policy stampFeature recordVersion (map_of (byKey ds) k) (map_of (featuresOf p t) k)) \<and>
    (\<forall>k. map_of groups k = merged policy stampGroup gVersion (map_of (groupsByKey gs) k) (map_of (groupsOf p t) k)) \<and>
    irConflicts report = groupConflicts gs (groupsOf p t) @ featureConflicts ds (featuresOf p t)"
proof -
  obtain report' audits' where
    plans: "fold (planGroup policy) gs (groupsOf p t, emptyReport dry, []) = (groups, report', audits')"
      "fold (planFeature policy) ds (featuresOf p t, report', audits') = (records, report, audits)"
    using assms(1) by (auto simp: planImport_def split: prod.splits)
  show ?thesis
    using planGroups_effect [OF plans(1) assms(3)] planFeatures_effect [OF plans(2) assms(2)]
    by (simp add: emptyReport_def)
qed

lemma ImportDocument_success:
  assumes "ImportDocument env ctx ctx' t (Inr (ds, gs)) options actor p = (p', report, None)"
  obtains records groups audits where
    "planImport (policyOf options) (ioDryRun options) ds gs t p = (records, groups, report, audits)"
    "policyOf options = ConflictFail \<longrightarrow> irConflicts report = [] \<or> ioDryRun options"
    "if ioDryRun options then p' = p
     else appendAudits t actor audits (p\<lparr> mpTenants := AList.update t records (mpTenants p),
            mpGroups := AList.update t groups (mpGroups p) \<rparr>) = (p', None)"
  using assms
  by (auto simp: ImportDocument_def Let_def policyOf_def split: option.splits if_splits sum.splits prod.splits)

text \<open>
  C22. An import follows its conflict policy. A failed import and a dry run leave the state as it is.
  A successful import reports exactly the resources of the document that exist already, groups
  first, tombstones included; with the policy to fail there are none unless it is a dry run. It then
  creates the new resources under version 1 and, with the policy to replace, replaces the existing
  ones under the version after theirs, reviving tombstones; every other record stays as it is.
\<close>

theorem import_follows_policy:
  assumes "ImportDocument env ctx ctx' t (Inr (ds, gs)) options actor p = (p', report, e)"
    and "distinct (map dKey ds)" "distinct (map gKey gs)" "0 \<le> MaxAuditEntries (mpLimits p)"
  shows "(e \<noteq> None \<or> ioDryRun options \<longrightarrow> p' = p) \<and>
    (e = None \<longrightarrow>
       irConflicts report = groupConflicts gs (groupsOf p t) @ featureConflicts ds (featuresOf p t) \<and>
       (policyOf options = ConflictFail \<and> \<not> ioDryRun options \<longrightarrow> irConflicts report = []) \<and>
       (\<not> ioDryRun options \<longrightarrow>
          (\<forall>k. map_of (featuresOf p' t) k =
             merged (policyOf options) stampFeature recordVersion (map_of (byKey ds) k) (map_of (featuresOf p t) k)) \<and>
          (\<forall>k. map_of (groupsOf p' t) k =
             merged (policyOf options) stampGroup gVersion (map_of (groupsByKey gs) k) (map_of (groupsOf p t) k)) \<and>
          stagedOf p' t = stagedOf p t))"
proof -
  have "perform env ctx t actor (DoImportDocument ctx' (Inr (ds, gs)) options) p = (p', e)"
    using assms(1) by simp
  then have fail: "e \<noteq> None \<longrightarrow> p' = p"
    using perform_confined assms(4) by (fastforce simp: confinedTo_def)
  show ?thesis
  proof (cases e)
    case None
    from ImportDocument_success [OF assms(1) [unfolded None]] obtain records groups audits where
      ok: "planImport (policyOf options) (ioDryRun options) ds gs t p = (records, groups, report, audits)"
      "policyOf options = ConflictFail \<longrightarrow> irConflicts report = [] \<or> ioDryRun options"
      "if ioDryRun options then p' = p
       else appendAudits t actor audits (p\<lparr> mpTenants := AList.update t records (mpTenants p),
              mpGroups := AList.update t groups (mpGroups p) \<rparr>) = (p', None)"
      by blast
    show ?thesis
      using planImport_effect [OF ok(1) assms(2,3)] ok(2,3) None
        appendAudits_frame [of t actor audits "p\<lparr> mpTenants := AList.update t records (mpTenants p),
              mpGroups := AList.update t groups (mpGroups p) \<rparr>" p' None]
      by (auto split: if_splits)
  qed (use fail in simp)
qed

definition exampleImport :: "MemoryProvider \<times> ImportReport \<times> err option" where
  "exampleImport = ImportDocument exampleEnv None None ''acme'' (Inr ([exampleBeta, plainDefinition ''new''], []))
     \<lparr> ioDryRun = False, ioConflictPolicy = ConflictReplace \<rparr> ''ann'' exampleProvider"

lemma exampleProvider_maps:
  "featuresOf exampleProvider ''acme'' = [(''beta'', \<lparr> mrDefinition = exampleBeta, mrDeleted = False \<rparr>)]"
  "groupsOf exampleProvider t = []" "stagedOf exampleProvider t = []"
  by (simp_all add: exampleProvider_eq inner_def NewMemoryProvider_def)

theorem import_follows_policy_witness:
  "liveFeature (fst exampleImport) ''acme'' ''beta'' = Some (exampleBeta\<lparr> dVersion := 2 \<rparr>) \<and>
   liveFeature (fst exampleImport) ''acme'' ''new'' = Some (plainDefinition ''new'') \<and>
   map icKey (irConflicts (fst (snd exampleImport))) = [''beta'']"
proof -
  have "snd (snd exampleImport) = None"
    by code_simp
  then have import: "ImportDocument exampleEnv None None ''acme'' (Inr ([exampleBeta, plainDefinition ''new''], []))
     \<lparr> ioDryRun = False, ioConflictPolicy = ConflictReplace \<rparr> ''ann'' exampleProvider =
     (fst exampleImport, fst (snd exampleImport), None)"
    by (simp add: exampleImport_def prod_eq_iff)
  have keys: "dKey exampleBeta = ''beta''" "dKey (plainDefinition ''new'') = ''new''" "dVersion exampleBeta = 1"
      "(plainDefinition ''new'')\<lparr> dVersion := 1 \<rparr> = plainDefinition ''new''"
    by (simp_all add: exampleBeta_def plainDefinition_def)
  have bound: "0 \<le> MaxAuditEntries (mpLimits exampleProvider)"
    by (simp add: DefaultLimits_def)
  show ?thesis
    using import_follows_policy [OF import _ _ bound]
    by (simp add: liveFeature_def merged_def stampFeature_def recordVersion_def policyOf_def keys exampleProvider_maps
        featureConflicts_def groupConflicts_def hasKey_def)
qed

section \<open>The audit log\<close>


definition logs :: "string \<Rightarrow> MemoryProvider \<Rightarrow> AuditEntry \<Rightarrow> MemoryProvider \<times> 'a res \<Rightarrow> bool" where
  "logs t p entry x \<longleftrightarrow>
     (\<forall>y. snd x = Inr y \<longrightarrow>
        auditOf (fst x) t = newest (nat (MaxAuditEntries (mpLimits p))) (auditOf p t @ [entry]))"







text \<open>Assigning a group the feature already has succeeds without a change.\<close>

definition logsOrKeeps :: "string \<Rightarrow> MemoryProvider \<Rightarrow> AuditEntry \<Rightarrow> MemoryProvider \<times> 'a res \<Rightarrow> bool" where
  "logsOrKeeps t p entry x \<longleftrightarrow> fst x = p \<or> logs t p entry x"

lemma logsOrKeeps_same [simp]: "logsOrKeeps t p entry (p, r)"
  by (simp add: logsOrKeeps_def)











section \<open>Maintenance\<close>

definition purgedKeys :: "CleanupOptions \<Rightarrow> memoryRecord gomap \<Rightarrow> string list" where
  "purgedKeys options features =
     (if coPurgeDeleted options then map fst (filter (\<lambda>(key, r). mrDeleted r) features) else [])"

lemma set_purgedKeys:
  "distinctKeys features \<Longrightarrow> k \<in> set (purgedKeys options features) \<longleftrightarrow>
     coPurgeDeleted options \<and> (\<exists>r. map_of features k = Some r \<and> mrDeleted r)"
  by (force simp: purgedKeys_def)

lemma filter_purgedKeys:
  assumes "distinctKeys features"
  shows "filter (\<lambda>(key, r). key \<notin> set (purgedKeys options features)) features =
    filter (\<lambda>(key, r). \<not> (coPurgeDeleted options \<and> mrDeleted r)) features"
  using assms by (intro filter_cong) (auto simp: set_purgedKeys simp del: map_of_eq_Some_iff dest: map_of_is_SomeI)

lemma length_purgedKeys:
  "len (purgedKeys options features) =
     len features - len (filter (\<lambda>(key, r). \<not> (coPurgeDeleted options \<and> mrDeleted r)) features)"
  using sum_length_filter_compl [of "\<lambda>(key, r). mrDeleted r" features]
  by (auto simp: purgedKeys_def case_prod_unfold)

lemma Cleanup_Inr:
  assumes "Cleanup ctx t options p = (p', Inr report)" "distinctKeys (featuresOf p t)"
  shows "0 \<le> coKeepAudit options \<and> groupsOf p' t = groupsOf p t \<and>
    featuresOf p' t = filter (\<lambda>(key, r). \<not> (coPurgeDeleted options \<and> mrDeleted r)) (featuresOf p t) \<and>
    stagedOf p' t = filter (\<lambda>(sid, c). \<not> discardStage (purgedKeys options (featuresOf p t)) options c) (stagedOf p t) \<and>
    auditOf p' t = (if coKeepAudit options = 0 then auditOf p t else newest (nat (coKeepAudit options)) (auditOf p t)) \<and>
    crDeletedFeatures report = len (purgedKeys options (featuresOf p t)) \<and>
    crDiscardedStages report = len (stagedOf p t) - len (stagedOf p' t) \<and>
    crDiscardedAudit report = len (auditOf p t) - len (auditOf p' t)"
  using assms(1) filter_purgedKeys [OF assms(2), of options]
  by (auto simp: Cleanup_def Let_def purgedKeys_def [symmetric] guardOp_def newest_def nat_diff_distrib' split: option.splits if_splits)

text \<open>
  C24. A cleanup discards only what it is asked to. Live features and groups stay; tombstones go exactly
  when purging is requested; a staged change goes exactly when its feature was purged or when it was
  due before the given instant; the audit log keeps its newest entries, as many as requested, and
  all of them when no number is given. The report counts what went.
\<close>

theorem cleanup_discards:
  assumes "reachable env limits p" "Cleanup ctx t options p = (p', Inr report)"
  shows "(\<forall>k. map_of (featuresOf p' t) k =
      (case map_of (featuresOf p t) k of
         None \<Rightarrow> None
       | Some r \<Rightarrow> if coPurgeDeleted options \<and> mrDeleted r then None else Some r)) \<and>
    groupsOf p' t = groupsOf p t \<and>
    (\<forall>i. map_of (stagedOf p' t) i =
      (case map_of (stagedOf p t) i of
         None \<Rightarrow> None
       | Some c \<Rightarrow>
           if (coPurgeDeleted options \<and> (\<exists>r. map_of (featuresOf p t) (stageKey c) = Some r \<and> mrDeleted r)) \<or>
              (coDiscardStagesBefore options \<noteq> 0 \<and> stApplyAt c \<noteq> 0 \<and> stApplyAt c < coDiscardStagesBefore options)
           then None else Some c)) \<and>
    auditOf p' t = (if coKeepAudit options = 0 then auditOf p t else newest (nat (coKeepAudit options)) (auditOf p t)) \<and>
    crDeletedFeatures report = len (featuresOf p t) - len (featuresOf p' t) \<and>
    crDiscardedStages report = len (stagedOf p t) - len (stagedOf p' t) \<and>
    crDiscardedAudit report = len (auditOf p t) - len (auditOf p' t)"
proof -
  have distinct: "distinctKeys (featuresOf p t)" "distinctKeys (stagedOf p t)"
    using reachable_wfProvider [OF assms(1)] by (auto simp: wfProvider_def wfAt_def wfFeatures_def wfStages_def)
  note effect = Cleanup_Inr [OF assms(2) distinct(1)]
  have "map_of (featuresOf p' t) k = (case map_of (featuresOf p t) k of
         None \<Rightarrow> None
       | Some r \<Rightarrow> if coPurgeDeleted options \<and> mrDeleted r then None else Some r)" for k
    using effect map_of_filter_snd [OF distinct(1)] by (auto split: option.split)
  moreover have "map_of (stagedOf p' t) i = (case map_of (stagedOf p t) i of
         None \<Rightarrow> None
       | Some c \<Rightarrow>
           if (coPurgeDeleted options \<and> (\<exists>r. map_of (featuresOf p t) (stageKey c) = Some r \<and> mrDeleted r)) \<or>
              (coDiscardStagesBefore options \<noteq> 0 \<and> stApplyAt c \<noteq> 0 \<and> stApplyAt c < coDiscardStagesBefore options)
           then None else Some c)" for i
    unfolding set_purgedKeys [OF distinct(1), symmetric] discardStage_def [symmetric]
    using effect map_of_filter_snd [OF distinct(2)] by (auto split: option.split)
  ultimately show ?thesis
    using effect length_purgedKeys [of options "featuresOf p t"] by simp
qed

definition exampleCleanup :: "MemoryProvider \<times> CleanupReport res" where
  "exampleCleanup = Cleanup None ''acme''
     \<lparr> coPurgeDeleted = True, coDiscardStagesBefore = 10, coKeepAudit = 1 \<rparr> stagedProvider"

theorem cleanup_discards_witness:
  "map_of (stagedOf (fst exampleCleanup) ''acme'') 1 = None \<and>
   liveFeature (fst exampleCleanup) ''acme'' ''beta'' = liveFeature stagedProvider ''acme'' ''beta'' \<and>
   length (auditOf (fst exampleCleanup) ''acme'') = 1"
proof -
  have "case snd exampleCleanup of Inl e \<Rightarrow> False | Inr report \<Rightarrow> crDiscardedStages report = 1 \<and> crDiscardedAudit report = 1"
    by code_simp
  then obtain report where "snd exampleCleanup = Inr report"
    by (auto split: sum.splits)
  then have cleanup: "Cleanup None ''acme'' \<lparr> coPurgeDeleted = True, coDiscardStagesBefore = 10, coKeepAudit = 1 \<rparr> stagedProvider =
      (fst exampleCleanup, Inr report)"
    by (simp add: exampleCleanup_def prod_eq_iff)
  have "case map_of (stagedOf stagedProvider ''acme'') 1 of None \<Rightarrow> False | Some c \<Rightarrow> stApplyAt c = 5"
    by code_simp
  moreover have "length (auditOf stagedProvider ''acme'') = 2"
    by code_simp
  ultimately show ?thesis
    using cleanup_discards [OF stagedProvider_reachable cleanup]
    by (auto simp: liveFeature_def length_newest split: option.splits)
qed

section \<open>The bound on retained features\<close>

definition tightLimits :: Limits where
  "tightLimits = DefaultLimits\<lparr> MaxFeatures := 1 \<rparr>"

definition tightCommands :: "command list" where
  "tightCommands = [DoCreate (plainDefinition ''a''), DoDelete ''a'' 1,
     DoImportDocument None (Inr ([plainDefinition ''b''], [])) \<lparr> ioDryRun = False, ioConflictPolicy = ConflictFail \<rparr>]"

fun performAll :: "env \<Rightarrow> string \<Rightarrow> command list \<Rightarrow> MemoryProvider \<Rightarrow> MemoryProvider" where
  "performAll env t [] p = p"
| "performAll env t (cmd # cmds) p = performAll env t cmds (fst (perform env None t ''ann'' cmd p))"

lemma reachable_performAll:
  "reachable env limits p \<Longrightarrow> wfEnv env \<Longrightarrow> reachable env limits (performAll env t cmds p)"
  by (induction cmds arbitrary: p) (simp_all add: reachable_step sameZones_def)

text \<open>
  C25. The bound on the features retained per tenant does not hold for imports: with \<^verbatim>\<open>MaxFeatures\<close> 1, one
  creation, its deletion and an import of another feature reach a state that retains two features,
  since the import counts live features only. Creation would have been refused in the same state.
\<close>

theorem import_exceeds_feature_bound:
  "\<exists>p. reachable exampleEnv tightLimits p \<and>
     len (featuresOf p ''acme'') > MaxFeatures (mpLimits p) \<and>
     snd (Create exampleEnv None ''acme'' (plainDefinition ''c'') ''ann'' p) = Inl (ErrMsg ''features exceed limit'')"
proof -
  let ?p = "performAll exampleEnv ''acme'' tightCommands (NewMemoryProvider tightLimits)"
  have "reachable exampleEnv tightLimits ?p"
    by (intro reachable_performAll reachable_new wfEnv_exampleEnv)
  moreover have "len (featuresOf ?p ''acme'') > MaxFeatures (mpLimits ?p)"
    by code_simp
  moreover have "case snd (Create exampleEnv None ''acme'' (plainDefinition ''c'') ''ann'' ?p) of
      Inl e \<Rightarrow> e = ErrMsg ''features exceed limit'' | Inr d \<Rightarrow> False"
    by code_simp
  then have "snd (Create exampleEnv None ''acme'' (plainDefinition ''c'') ''ann'' ?p) = Inl (ErrMsg ''features exceed limit'')"
    by (cases "snd (Create exampleEnv None ''acme'' (plainDefinition ''c'') ''ann'' ?p)") simp_all
  ultimately show ?thesis
    by blast
qed

end
