(* ===== verification/Rfc3339.thy ===== *)
theory Rfc3339
  imports Limits Json_Valid "HOL-Library.Monad_Syntax"
begin

text \<open>
  The text form of instants that the codec uses: \<^verbatim>\<open>Format(time.RFC3339Nano)\<close> in UTC and \<^verbatim>\<open>Parse\<close> of the
  Go standard library, over the proleptic Gregorian calendar. \<^verbatim>\<open>time.Parse\<close> is lenient in three
  places that the decoding of \<^verbatim>\<open>time.Time\<close> from JSON rejects (a one-digit hour, a comma before the
  fraction, an offset of 24 hours or 60 minutes); the argument \<open>strict\<close> tells the two apart.
\<close>

section \<open>Calendar\<close>

definition isLeap :: "int \<Rightarrow> bool" where
  "isLeap y \<longleftrightarrow> y mod 4 = 0 \<and> (y mod 100 \<noteq> 0 \<or> y mod 400 = 0)"

definition monthLengths :: "int \<Rightarrow> int list" where
  "monthLengths y = [31, if isLeap y then 29 else 28, 31, 30, 31, 30, 31, 31, 30, 31, 30, 31]"

text \<open>Days from January 1 of year 1 to January 1 of year \<open>y\<close>.\<close>

definition daysBeforeYear :: "int \<Rightarrow> int" where
  "daysBeforeYear y = 365 * (y - 1) + (y - 1) div 4 - (y - 1) div 100 + (y - 1) div 400"

text \<open>The year of a day and the day within the year, by cycles of 400, 100, 4 and 1 years.\<close>

definition yearAndDay :: "int \<Rightarrow> int \<times> int" where
  "yearAndDay days =
     (let d400 = days mod 146097;
          n100 = min 3 (d400 div 36524);
          d100 = d400 - 36524 * n100;
          n4 = d100 div 1461;
          d4 = d100 - 1461 * n4;
          n1 = min 3 (d4 div 365)
      in (400 * (days div 146097) + 100 * n100 + 4 * n4 + n1 + 1, d4 - 365 * n1))"

text \<open>A day counted within a list of months: the number of whole months and the day in the next.\<close>

fun splitMonths :: "int list \<Rightarrow> int \<Rightarrow> int \<times> int" where
  "splitMonths [] d = (0, d)"
| "splitMonths (m # ms) d = (if d < m then (0, d) else (let (k, r) = splitMonths ms (d - m) in (k + 1, r)))"

definition dayNumber :: "int \<Rightarrow> int \<Rightarrow> int \<Rightarrow> int" where
  "dayNumber y m d = daysBeforeYear y + sum_list (take (nat (m - 1)) (monthLengths y)) + (d - 1)"

definition civil :: "int \<Rightarrow> int \<times> int \<times> int" where
  "civil days = (let (y, yday) = yearAndDay days; (m, d) = splitMonths (monthLengths y) yday in (y, m + 1, d + 1))"

lemma div_bounds:
  fixes x :: int
  assumes "0 < n"
  shows "n * (x div n) \<le> x" "x < n * (x div n) + n"
  using mult_div_mod_eq [of n x] pos_mod_sign [OF assms, of x] pos_mod_bound [OF assms, of x] by linarith+

lemma yearAndDay_spec:
  assumes "yearAndDay days = (y, yday)"
  shows "days = daysBeforeYear y + yday" "0 \<le> yday" "yday < (if isLeap y then 366 else 365)"
proof -
  define a where "a = days div 146097"
  define d400 where "d400 = days mod 146097"
  define b where "b = min 3 (d400 div 36524)"
  define d100 where "d100 = d400 - 36524 * b"
  define c where "c = d100 div 1461"
  define d4 where "d4 = d100 - 1461 * c"
  define e where "e = min 3 (d4 div 365)"
  have eq: "y = 400 * a + 100 * b + 4 * c + e + 1" "yday = d4 - 365 * e"
  proof -
    have "yearAndDay days = (400 * a + 100 * b + 4 * c + e + 1, d4 - 365 * e)"
      unfolding yearAndDay_def Let_def e_def d4_def c_def d100_def b_def d400_def a_def by (rule refl)
    then show "y = 400 * a + 100 * b + 4 * c + e + 1" "yday = d4 - 365 * e"
      using assms by simp_all
  qed
  have days: "days = 146097 * a + d400" and r400: "0 \<le> d400" "d400 < 146097"
    by (simp_all add: a_def d400_def)
  have b: "0 \<le> b" "b \<le> 3" "0 \<le> d100" "d100 < (if b = 3 then 36525 else 36524)"
    using r400 div_bounds [of 36524 d400] by (auto simp: b_def d100_def min_def)
  have c: "0 \<le> c" "c \<le> 24" "0 \<le> d4" "d4 < 1461"
    using b(3,4) div_bounds [of 1461 d100] unfolding c_def [symmetric] d4_def by (simp_all split: if_splits)
  have e: "0 \<le> e" "e \<le> 3" "0 \<le> yday" "yday < (if e = 3 then 366 else 365)"
    using c(3,4) div_bounds [of 365 d4] unfolding eq(2) e_def min_def by (simp_all split: if_splits)
  have last: "c = 24 \<Longrightarrow> d4 < (if b = 3 then 1461 else 1460)"
    using b by (auto simp: d4_def split: if_splits)
  have divs: "(y - 1) div 4 = 100 * a + 25 * b + c" "(y - 1) div 100 = 4 * a + b" "(y - 1) div 400 = a"
  proof -
    have sums: "y - 1 = e + 4 * (100 * a + 25 * b + c)" "y - 1 = (4 * c + e) + 100 * (4 * a + b)"
        "y - 1 = (100 * b + 4 * c + e) + 400 * a"
      unfolding eq(1) by simp_all
    have "(y - 1) div 4 = (100 * a + 25 * b + c) + e div 4"
      unfolding sums(1) by (rule div_mult_self2) simp
    moreover have "(y - 1) div 100 = (4 * a + b) + (4 * c + e) div 100"
      unfolding sums(2) by (rule div_mult_self2) simp
    moreover have "(y - 1) div 400 = a + (100 * b + 4 * c + e) div 400"
      unfolding sums(3) by (rule div_mult_self2) simp
    moreover have "e div 4 = 0" "(4 * c + e) div 100 = 0" "(100 * b + 4 * c + e) div 400 = 0"
      using b(1,2) c(1,2) e(1,2) by (intro div_pos_pos_trivial, linarith, linarith)+
    ultimately show "(y - 1) div 4 = 100 * a + 25 * b + c" "(y - 1) div 100 = 4 * a + b" "(y - 1) div 400 = a"
      by (simp_all only: add.right_neutral)
  qed
  show "days = daysBeforeYear y + yday"
    unfolding daysBeforeYear_def divs using days eq by (simp add: d100_def d4_def)
  show "0 \<le> yday"
    by (rule e(3))
  have leap: "isLeap y \<longleftrightarrow> e = 3 \<and> (c \<noteq> 24 \<or> b = 3)"
  proof -
    have "y = e + 1 + 4 * (100 * a + 25 * b + c)" "y = 4 * c + e + 1 + 100 * (4 * a + b)"
        "y = 100 * b + 4 * c + e + 1 + 400 * a"
      unfolding eq(1) by simp_all
    then have mods: "y mod 4 = (e + 1) mod 4" "y mod 100 = (4 * c + e + 1) mod 100"
        "y mod 400 = (100 * b + 4 * c + e + 1) mod 400"
      by (metis mod_mult_self2)+
    have "(e + 1) mod 4 = 0 \<longleftrightarrow> e = 3"
      using e(1,2) by (cases "e = 3") auto
    moreover have "(4 * c + e + 1) mod 100 = 0 \<longleftrightarrow> c = 24" if "e = 3"
      using c(1,2) that by (cases "c = 24") auto
    moreover have "(100 * b + 4 * c + e + 1) mod 400 = 0 \<longleftrightarrow> b = 3" if "e = 3" "c = 24"
      using b(1,2) that by (cases "b = 3") auto
    ultimately show ?thesis
      unfolding isLeap_def mods by argo
  qed
  show "yday < (if isLeap y then 366 else 365)"
    using e last unfolding leap by (auto simp: eq(2) split: if_splits)
qed

lemma sum_monthLengths: "sum_list (monthLengths y) = (if isLeap y then 366 else 365)"
  by (simp add: monthLengths_def)

lemma splitMonths_spec:
  assumes "0 \<le> d" "d < sum_list ms" "splitMonths ms d = (k, r)"
  shows "0 \<le> k \<and> k < len ms \<and> 0 \<le> r \<and> r < ms ! nat k \<and> d = sum_list (take (nat k) ms) + r"
  using assms
proof (induction ms arbitrary: d k)
  case (Cons m ms)
  show ?case
  proof (cases "d < m")
    case False
    obtain k' where k': "splitMonths ms (d - m) = (k', r)" "k = k' + 1"
      using Cons.prems(3) False by (auto split: prod.splits)
    from Cons.IH [OF _ _ k'(1)] Cons.prems False show ?thesis
      by (auto simp: k'(2) nat_add_distrib)
  qed (use Cons.prems in auto)
qed simp

text \<open>A calendar date names the day it came from.\<close>

lemma civil_dayNumber:
  assumes "civil days = (y, m, d)"
  shows "dayNumber y m d = days \<and> 1 \<le> m \<and> m \<le> 12 \<and> 1 \<le> d \<and> d \<le> monthLengths y ! nat (m - 1)"
proof -
  obtain yday k r where y: "yearAndDay days = (y, yday)" and k: "splitMonths (monthLengths y) yday = (k, r)"
    and eq: "m = k + 1" "d = r + 1"
    using assms by (auto simp: civil_def split: prod.splits)
  note year = yearAndDay_spec [OF y]
  have "0 \<le> k \<and> k < len (monthLengths y) \<and> 0 \<le> r \<and> r < monthLengths y ! nat k \<and>
      yday = sum_list (take (nat k) (monthLengths y)) + r"
    using year by (intro splitMonths_spec k) (simp_all add: sum_monthLengths)
  then show ?thesis
    using year by (simp add: eq dayNumber_def monthLengths_def)
qed

section \<open>Digits\<close>

fun padded :: "nat \<Rightarrow> int \<Rightarrow> string" where
  "padded 0 x = []"
| "padded (Suc n) x = padded n (x div 10) @ [char_of (48 + x mod 10)]"

text \<open>Decimal digits without leading zeros.\<close>

function decimal :: "int \<Rightarrow> string" where
  "decimal x = (if x < 10 then [char_of (48 + x)] else decimal (x div 10) @ [char_of (48 + x mod 10)])"
  by pat_completeness auto
termination
  by (relation "measure nat") auto

declare decimal.simps [simp del]

definition digitsValue :: "string \<Rightarrow> int" where
  "digitsValue = foldl (\<lambda>v c. 10 * v + (of_char c - 48)) 0"

section \<open>Formatting\<close>

definition nanosPerDay :: int where "nanosPerDay = 86400000000000"

definition appendYear :: "int \<Rightarrow> string" where
  "appendYear y = (if y < 0 then ''-'' else []) @ (if \<bar>y\<bar> < 10000 then padded 4 \<bar>y\<bar> else decimal \<bar>y\<bar>)"

definition trimZeros :: "string \<Rightarrow> string" where
  "trimZeros s = rev (dropWhile (\<lambda>c. c = CHR ''0'') (rev s))"

definition appendFraction :: "int \<Rightarrow> string" where
  "appendFraction nanos = (let ds = trimZeros (padded 9 nanos) in if ds = [] then [] else CHR ''.'' # ds)"

definition yearOf :: "Time \<Rightarrow> int" where
  "yearOf t = fst (civil (t div nanosPerDay))"

definition formatRFC3339Nano :: "Time \<Rightarrow> string" where
  "formatRFC3339Nano t =
     (let (y, m, d) = civil (t div nanosPerDay);
          seconds = t mod nanosPerDay div nanosPerSecond
      in appendYear y @ ''-'' @ padded 2 m @ ''-'' @ padded 2 d @ ''T'' @
         padded 2 (seconds div 3600) @ '':'' @ padded 2 (seconds div 60 mod 60) @ '':'' @ padded 2 (seconds mod 60) @
         appendFraction (t mod nanosPerSecond) @ ''Z'')"

section \<open>Parsing\<close>

fun expect :: "char \<Rightarrow> string \<Rightarrow> string option" where
  "expect c [] = None"
| "expect c (x # xs) = (if x = c then Some xs else None)"

definition digitValue :: "char \<Rightarrow> int" where
  "digitValue c = of_char c - 48"

text \<open>Two digits; one digit is enough unless \<open>fixed\<close>.\<close>

fun getnum :: "bool \<Rightarrow> string \<Rightarrow> (int \<times> string) option" where
  "getnum fixed [] = None"
| "getnum fixed [c] = (if isDigit c \<and> \<not> fixed then Some (digitValue c, []) else None)"
| "getnum fixed (c # d # rest) =
     (if \<not> isDigit c then None
      else if isDigit d then Some (10 * digitValue c + digitValue d, rest)
      else if fixed then None
      else Some (digitValue c, d # rest))"

definition getyear :: "string \<Rightarrow> (int \<times> string) option" where
  "getyear s = (if length s \<ge> 4 \<and> list_all isDigit (take 4 s) then Some (digitsValue (take 4 s), drop 4 s) else None)"

definition inRange :: "int \<Rightarrow> int \<Rightarrow> int \<Rightarrow> unit option" where
  "inRange lo hi x = (if lo \<le> x \<and> x \<le> hi then Some () else None)"

text \<open>The optional fraction: any number of digits, of which nine count.\<close>

definition getfraction :: "bool \<Rightarrow> string \<Rightarrow> int \<times> string" where
  "getfraction strict s =
     (case s of
        p # c # rest \<Rightarrow>
          if (p = CHR ''.'' \<or> (p = CHR '','' \<and> \<not> strict)) \<and> isDigit c
          then let ds = takeWhile isDigit (c # rest)
            in (digitsValue (take 9 ds) * 10 ^ (9 - length ds), dropWhile isDigit (c # rest))
          else (0, s)
      | _ \<Rightarrow> (0, s))"

text \<open>The zone, as seconds east of UTC.\<close>

definition getzone :: "bool \<Rightarrow> string \<Rightarrow> (int \<times> string) option" where
  "getzone strict s =
     (case s of
        [] \<Rightarrow> None
      | c # rest \<Rightarrow>
          if c = CHR ''Z'' then Some (0, rest)
          else if c \<noteq> CHR ''+'' \<and> c \<noteq> CHR ''-'' then None
          else do {
            (hr, rest) \<leftarrow> getnum True rest;
            inRange 0 (if strict then 23 else 24) hr;
            rest \<leftarrow> expect (CHR '':'') rest;
            (mm, rest) \<leftarrow> getnum True rest;
            inRange 0 (if strict then 59 else 60) mm;
            Some ((if c = CHR ''-'' then - 1 else 1) * (60 * hr + mm) * 60, rest)
          })"

definition parseRFC3339 :: "bool \<Rightarrow> string \<Rightarrow> Time option" where
  "parseRFC3339 strict s = do {
     (year, s) \<leftarrow> getyear s;
     s \<leftarrow> expect (CHR ''-'') s;
     (month, s) \<leftarrow> getnum True s;
     inRange 1 12 month;
     s \<leftarrow> expect (CHR ''-'') s;
     (day, s) \<leftarrow> getnum True s;
     s \<leftarrow> expect (CHR ''T'') s;
     (hour, s) \<leftarrow> getnum strict s;
     inRange 0 23 hour;
     s \<leftarrow> expect (CHR '':'') s;
     (minute, s) \<leftarrow> getnum True s;
     inRange 0 59 minute;
     s \<leftarrow> expect (CHR '':'') s;
     (seconds, s) \<leftarrow> getnum True s;
     inRange 0 59 seconds;
     let (nanos, s) = getfraction strict s;
     (zone, s) \<leftarrow> getzone strict s;
     if s \<noteq> [] then None
     else do {
       inRange 1 (monthLengths year ! nat (month - 1)) day;
       Some (dayNumber year month day * nanosPerDay +
             (3600 * hour + 60 * minute + seconds - zone) * nanosPerSecond + nanos)
     }
   }"

section \<open>Round trip\<close>

lemma isDigit_char [simp]: "0 \<le> x \<Longrightarrow> x < 10 \<Longrightarrow> isDigit (char_of (48 + x :: int))"
proof -
  assume x: "0 \<le> x" "x < 10"
  have "(of_char (char_of (48 + x) :: char) :: int) = 48 + x"
    using x by (simp add: of_char_of take_bit_eq_mod)
  then have "int (of_char (char_of (48 + x) :: char)) = 48 + x"
    by (simp add: of_nat_of_char)
  then show ?thesis
    using x by (simp add: isDigit_def)
qed

lemma digitValue_char [simp]: "0 \<le> x \<Longrightarrow> x < 10 \<Longrightarrow> digitValue (char_of (48 + x :: int)) = x"
  by (simp add: digitValue_def of_char_of take_bit_eq_mod)

lemma length_padded [simp]: "length (padded n x) = n"
  by (induction n arbitrary: x) auto

lemma isDigit_padded: "list_all isDigit (padded n x)"
  by (induction n arbitrary: x) auto

lemma digitsValue_append: "digitsValue (s @ [c]) = 10 * digitsValue s + digitValue c"
  by (simp add: digitsValue_def digitValue_def)

lemma digitsValue_padded: "0 \<le> x \<Longrightarrow> x < 10 ^ n \<Longrightarrow> digitsValue (padded n x) = x"
proof (induction n arbitrary: x)
  case (Suc n)
  then have "digitsValue (padded n (x div 10)) = x div 10"
    by (intro Suc.IH) auto
  then show ?case
    by (simp add: digitsValue_append)
qed (simp add: digitsValue_def)

lemma padded_2: "padded 2 x = [char_of (48 + x div 10 mod 10), char_of (48 + x mod 10)]"
  by (simp add: numeral_2_eq_2)

lemma getnum_padded: "0 \<le> x \<Longrightarrow> x < 100 \<Longrightarrow> getnum fixed (padded 2 x @ rest) = Some (x, rest)"
  by (simp add: padded_2)

lemma getyear_append:
  "0 \<le> y \<Longrightarrow> y < 10000 \<Longrightarrow> getyear (appendYear y @ rest) = Some (y, rest)"
  using isDigit_padded [of 4 y] digitsValue_padded [of y 4] by (simp add: getyear_def appendYear_def)

lemma digitsValue_zeros: "digitsValue (s @ replicate k (CHR ''0'')) = digitsValue s * 10 ^ k"
proof (induction k)
  case (Suc k)
  have "digitsValue (s @ replicate (Suc k) (CHR ''0'')) = digitsValue ((s @ replicate k (CHR ''0'')) @ [CHR ''0''])"
    by (simp add: replicate_append_same)
  then show ?case
    by (simp only: digitsValue_append Suc) (simp add: digitValue_def)
qed simp

lemma trimZeros_eq: "\<exists>k. s = trimZeros s @ replicate k (CHR ''0'')"
proof -
  have "takeWhile (\<lambda>c. c = CHR ''0'') (rev s) = replicate (length (takeWhile (\<lambda>c. c = CHR ''0'') (rev s))) (CHR ''0'')"
    by (intro replicate_eqI) (auto dest: set_takeWhileD)
  then have "rev s = replicate (length (takeWhile (\<lambda>c. c = CHR ''0'') (rev s))) (CHR ''0'') @ rev (trimZeros s)"
    unfolding trimZeros_def rev_rev_ident by (metis takeWhile_dropWhile_id)
  then have "s = trimZeros s @ rev (replicate (length (takeWhile (\<lambda>c. c = CHR ''0'') (rev s))) (CHR ''0''))"
    by (metis rev_append rev_rev_ident)
  then show ?thesis
    by (metis rev_replicate)
qed

lemma getfraction_append:
  assumes "0 \<le> n" "n < nanosPerSecond"
  shows "getfraction strict (appendFraction n @ CHR ''Z'' # rest) = (n, CHR ''Z'' # rest)"
proof -
  obtain k where k: "padded 9 n = trimZeros (padded 9 n) @ replicate k (CHR ''0'')"
    using trimZeros_eq by blast
  define ds where "ds = trimZeros (padded 9 n)"
  have digits: "list_all isDigit ds"
    using isDigit_padded [of 9 n] k unfolding ds_def by (metis list_all_append)
  have "length (padded 9 n) = length (ds @ replicate k (CHR ''0''))"
    unfolding ds_def using k by (rule arg_cong)
  then have len: "length ds \<le> 9" "9 - length ds = k"
    by simp_all
  have val: "digitsValue ds * 10 ^ k = n"
    using digitsValue_padded [of n 9] assms digitsValue_zeros [of ds k] k
    by (simp add: ds_def [symmetric] nanosPerSecond_def)
  have frac: "appendFraction n = (if ds = [] then [] else CHR ''.'' # ds)"
    by (simp add: appendFraction_def ds_def)
  have z: "\<not> isDigit (CHR ''Z'')"
    by (simp add: isDigit_def)
  show ?thesis
  proof (cases ds)
    case Nil
    then have n: "n = 0"
      using val by (simp add: digitsValue_def)
    show ?thesis
      unfolding frac using Nil z n by (cases rest) (simp_all add: getfraction_def)
  next
    case (Cons c cs)
    have "takeWhile isDigit (ds @ CHR ''Z'' # rest) = ds" "dropWhile isDigit (ds @ CHR ''Z'' # rest) = CHR ''Z'' # rest"
      using digits z by (simp_all add: list_all_iff takeWhile_append2 dropWhile_append2)
    then show ?thesis
      using Cons digits val len
      by (simp add: frac getfraction_def Let_def)
  qed
qed

lemma monthLengths_le: "n < 12 \<Longrightarrow> monthLengths y ! n \<le> 31"
  by (auto simp: monthLengths_def less_Suc_eq numeral_eq_Suc nth_Cons')

lemma hms_sum: "3600 * (s div 3600) + 60 * (s div 60 mod 60) + s mod 60 = (s :: int)"
proof -
  have "s div 3600 = s div 60 div 60"
    by (simp add: zdiv_zmult2_eq [symmetric])
  then show ?thesis
    using mult_div_mod_eq [of 60 s] mult_div_mod_eq [of 60 "s div 60"] by linarith
qed

lemma parse_written:
  assumes "0 \<le> y" "y < 10000" "1 \<le> m" "m \<le> 12" "1 \<le> d" "d \<le> monthLengths y ! nat (m - 1)"
    and "monthLengths y ! nat (m - 1) \<le> 31" "0 \<le> H" "H < 24" "0 \<le> M" "M < 60" "0 \<le> S" "S < 60"
    and "0 \<le> nanos" "nanos < nanosPerSecond"
  shows "parseRFC3339 strict (appendYear y @ CHR ''-'' # padded 2 m @ CHR ''-'' # padded 2 d @ CHR ''T'' #
      padded 2 H @ CHR '':'' # padded 2 M @ CHR '':'' # padded 2 S @ appendFraction nanos @ [CHR ''Z'']) =
    Some (dayNumber y m d * nanosPerDay + (3600 * H + 60 * M + S) * nanosPerSecond + nanos)"
  unfolding parseRFC3339_def using assms
  by (simp add: getyear_append getnum_padded inRange_def getfraction_append getzone_def)

text \<open>Every instant of the years 0 to 9999 survives formatting and parsing, strictly or not.\<close>

lemma parse_format:
  assumes "0 \<le> yearOf t" "yearOf t \<le> 9999"
  shows "parseRFC3339 strict (formatRFC3339Nano t) = Some t"
proof -
  define days where "days = t div nanosPerDay"
  define sec where "sec = t mod nanosPerDay div nanosPerSecond"
  define nanos where "nanos = t mod nanosPerSecond"
  obtain y m d where ymd: "civil days = (y, m, d)"
    by (cases "civil days")
  note date = civil_dayNumber [OF ymd]
  have y: "0 \<le> y" "y < 10000"
    using assms ymd by (simp_all add: yearOf_def days_def)
  have m: "monthLengths y ! nat (m - 1) \<le> 31"
    by (rule monthLengths_le) (use conjunct1 [OF conjunct2 [OF date]] conjunct1 [OF conjunct2 [OF conjunct2 [OF date]]] in linarith)
  have sec: "0 \<le> sec" "sec < 86400"
    using div_bounds [of nanosPerSecond "t mod nanosPerDay"] unfolding sec_def
    by (simp_all add: nanosPerSecond_def nanosPerDay_def)
  have nanos: "0 \<le> nanos" "nanos < nanosPerSecond"
    by (simp_all add: nanos_def nanosPerSecond_def)
  have hms: "3600 * (sec div 3600) + 60 * (sec div 60 mod 60) + sec mod 60 = sec"
    by (rule hms_sum)
  have "t mod nanosPerDay mod nanosPerSecond = t mod nanosPerSecond"
    by (rule mod_mod_cancel) (simp add: nanosPerSecond_def nanosPerDay_def)
  then have "sec * nanosPerSecond + nanos = t mod nanosPerDay"
    unfolding sec_def nanos_def by (metis div_mult_mod_eq)
  then have t: "days * nanosPerDay + sec * nanosPerSecond + nanos = t"
    unfolding days_def by (metis add.assoc div_mult_mod_eq)
  have "formatRFC3339Nano t = appendYear y @ CHR ''-'' # padded 2 m @ CHR ''-'' # padded 2 d @ CHR ''T'' #
      padded 2 (sec div 3600) @ CHR '':'' # padded 2 (sec div 60 mod 60) @ CHR '':'' # padded 2 (sec mod 60) @
      appendFraction nanos @ [CHR ''Z'']"
    unfolding formatRFC3339Nano_def days_def [symmetric] ymd sec_def [symmetric] nanos_def [symmetric] by simp
  also have "parseRFC3339 strict \<dots> = Some (dayNumber y m d * nanosPerDay +
      (3600 * (sec div 3600) + 60 * (sec div 60 mod 60) + sec mod 60) * nanosPerSecond + nanos)"
    using sec div_bounds [of 3600 sec] y date m nanos
    by (intro parse_written) (simp_all add: pos_imp_zdiv_nonneg_iff)
  finally show ?thesis
    unfolding hms using date t by simp
qed

end
