(* ===== verification/Json_Text.thy ===== *)
theory Json_Text
  imports Json_Valid Utf8
begin

text \<open>
  The text level of \<^verbatim>\<open>encoding/json\<close>: string literals with their escapes, numbers, and the values of a
  document as syntax trees. A tree keeps what the decoder may hand out verbatim: the text of numbers,
  the text between the quotes of strings, and for arrays and objects the source they were read from
  (a \<^verbatim>\<open>json.RawMessage\<close> is such a source).
\<close>

section \<open>String literals\<close>

abbreviation quote :: char where "quote \<equiv> CHR 0x22"
abbreviation backslash :: char where "backslash \<equiv> CHR 0x5C"

definition hexDigit :: "nat \<Rightarrow> char" where
  "hexDigit n = (if n < 10 then char_of (48 + n) else char_of (87 + n))"

definition hexValue :: "char \<Rightarrow> nat" where
  "hexValue c = (let n = of_char c in if n < 58 then n - 48 else if n < 71 then n - 55 else n - 87)"

definition escapeU :: "char \<Rightarrow> string" where
  "escapeU c = [backslash, CHR ''u'', CHR ''0'', CHR ''0'', hexDigit (of_char c div 16), hexDigit (of_char c mod 16)]"

text \<open>ASCII characters that need no escape, with \<^verbatim>\<open>SetEscapeHTML(true)\<close>.\<close>

definition htmlSafe :: "char \<Rightarrow> bool" where
  "htmlSafe c \<longleftrightarrow> byteIn 32 127 c \<and> c \<notin> {quote, backslash, CHR ''<'', CHR ''>'', CHR ''&''}"

definition escapeAscii :: "char \<Rightarrow> string" where
  "escapeAscii c =
     (if c = quote \<or> c = backslash then [backslash, c]
      else if c = CHR 0x08 then [backslash, CHR ''b'']
      else if c = CHR 0x0C then [backslash, CHR ''f'']
      else if c = CHR 0x0A then [backslash, CHR ''n'']
      else if c = CHR 0x0D then [backslash, CHR ''r'']
      else if c = CHR 0x09 then [backslash, CHR ''t'']
      else escapeU c)"

definition replacementEscape :: string where
  "replacementEscape = [backslash, CHR ''u'', CHR ''f'', CHR ''f'', CHR ''f'', CHR ''d'']"

text \<open>U+2028 and U+2029 are escaped although JSON allows them.\<close>

definition lineSeparator :: "char \<Rightarrow> char \<Rightarrow> char \<Rightarrow> bool" where
  "lineSeparator a b c \<longleftrightarrow> a = CHR 0xE2 \<and> b = CHR 0x80 \<and> (c = CHR 0xA8 \<or> c = CHR 0xA9)"

definition separatorEscape :: "char \<Rightarrow> string" where
  "separatorEscape c = [backslash, CHR ''u'', CHR ''2'', CHR ''0'', CHR ''2'', hexDigit (of_char c mod 16)]"

text \<open>The size \<^verbatim>\<open>utf8.DecodeRune\<close> reports for the first rune, 0 where the encoding is invalid.\<close>

definition runeSize :: "string \<Rightarrow> nat" where
  "runeSize s =
     (case s of [] \<Rightarrow> 0 | a # s1 \<Rightarrow>
      if byteIn 0 127 a then 1
      else (case s1 of [] \<Rightarrow> 0 | b # s2 \<Rightarrow>
      if byteIn 194 223 a then (if continuation b then 2 else 0)
      else (case s2 of [] \<Rightarrow> 0 | c # s3 \<Rightarrow>
      if lead3 a b then (if continuation c then 3 else 0)
      else (case s3 of [] \<Rightarrow> 0 | d # s4 \<Rightarrow>
      if lead4 a b \<and> continuation c \<and> continuation d then 4 else 0))))"

text \<open>What \<^verbatim>\<open>Marshal\<close> writes between the quotes. A byte that is not part of valid UTF-8 is written as U+FFFD.\<close>

definition quoteRune :: "string \<Rightarrow> string" where
  "quoteRune r =
     (case r of
        [a] \<Rightarrow> if htmlSafe a then [a] else escapeAscii a
      | [a, b, c] \<Rightarrow> if lineSeparator a b c then separatorEscape c else r
      | _ \<Rightarrow> r)"

fun quoteChars :: "string \<Rightarrow> string" where
  "quoteChars [] = []"
| "quoteChars (a # s) =
     (let n = runeSize (a # s) in
      if n = 0 then replacementEscape @ quoteChars s
      else quoteRune (take n (a # s)) @ quoteChars (drop (n - 1) s))"

text \<open>The text of a literal up to its closing quote, as the scanner accepts it.\<close>

definition simpleEscape :: "char \<Rightarrow> bool" where
  "simpleEscape c \<longleftrightarrow>
     c \<in> {CHR ''b'', CHR ''f'', CHR ''n'', CHR ''r'', CHR ''t'', backslash, CHR ''/'', quote}"

fun scanString :: "string \<Rightarrow> (string \<times> string) option" where
  "scanString [] = None"
| "scanString (c # s) =
     (if c = quote then Some ([], s)
      else if c = backslash then
        (case s of
           [] \<Rightarrow> None
         | e # s1 \<Rightarrow>
             if simpleEscape e then map_option (\<lambda>(t, r). (c # e # t, r)) (scanString s1)
             else if e = CHR ''u'' then
               (case s1 of
                  h1 # h2 # h3 # h4 # s5 \<Rightarrow>
                    if isHex h1 \<and> isHex h2 \<and> isHex h3 \<and> isHex h4
                    then map_option (\<lambda>(t, r). (c # e # h1 # h2 # h3 # h4 # t, r)) (scanString s5)
                    else None
                | _ \<Rightarrow> None)
             else None)
      else if of_char c < (32 :: nat) then None
      else map_option (\<lambda>(t, r). (c # t, r)) (scanString s))"

section \<open>Runes\<close>

definition byteOf :: "nat \<Rightarrow> char" where
  "byteOf n = char_of n"

definition encodeRune :: "nat \<Rightarrow> string" where
  "encodeRune r =
     (if r < 0x80 then [byteOf r]
      else if r < 0x800 then [byteOf (192 + r div 64), byteOf (128 + r mod 64)]
      else if (0xD800 \<le> r \<and> r < 0xE000) \<or> 0x110000 \<le> r then [byteOf 0xEF, byteOf 0xBF, byteOf 0xBD]
      else if r < 0x10000 then [byteOf (224 + r div 4096), byteOf (128 + r div 64 mod 64), byteOf (128 + r mod 64)]
      else [byteOf (240 + r div 262144), byteOf (128 + r div 4096 mod 64),
            byteOf (128 + r div 64 mod 64), byteOf (128 + r mod 64)])"

definition replacementRune :: string where
  "replacementRune = encodeRune 0xFFFD"

definition hex4 :: "char \<Rightarrow> char \<Rightarrow> char \<Rightarrow> char \<Rightarrow> nat" where
  "hex4 a b c d = ((hexValue a * 16 + hexValue b) * 16 + hexValue c) * 16 + hexValue d"

definition unescape :: "char \<Rightarrow> char" where
  "unescape c =
     (if c = CHR ''b'' then CHR 0x08 else if c = CHR ''f'' then CHR 0x0C else if c = CHR ''n'' then CHR 0x0A
      else if c = CHR ''r'' then CHR 0x0D else if c = CHR ''t'' then CHR 0x09 else c)"

text \<open>
  The value of a scanned literal. A pair of surrogate escapes is one rune, a lone surrogate and a
  byte that is not part of valid UTF-8 are U+FFFD.
\<close>

definition surrogatePair :: "nat \<Rightarrow> nat \<Rightarrow> bool" where
  "surrogatePair r r' \<longleftrightarrow> 0xD800 \<le> r \<and> r < 0xDC00 \<and> 0xDC00 \<le> r' \<and> r' < 0xE000"

definition pairRune :: "nat \<Rightarrow> nat \<Rightarrow> nat" where
  "pairRune r r' = (r - 0xD800) * 1024 + (r' - 0xDC00) + 0x10000"

fun unquoteChars :: "string \<Rightarrow> string" where
  "unquoteChars [] = []"
| "unquoteChars (x # s1) =
     (if x = backslash then
        (case s1 of
           [] \<Rightarrow> []
         | e # s2 \<Rightarrow>
             if e = CHR ''u'' then
               (case s2 of
                  h1 # h2 # h3 # h4 # s6 \<Rightarrow>
                    (case s6 of
                       y # u # g1 # g2 # g3 # g4 # s12 \<Rightarrow>
                         if y = backslash \<and> u = CHR ''u'' \<and> surrogatePair (hex4 h1 h2 h3 h4) (hex4 g1 g2 g3 g4)
                         then encodeRune (pairRune (hex4 h1 h2 h3 h4) (hex4 g1 g2 g3 g4)) @ unquoteChars s12
                         else encodeRune (hex4 h1 h2 h3 h4) @ unquoteChars s6
                     | _ \<Rightarrow> encodeRune (hex4 h1 h2 h3 h4) @ unquoteChars s6)
                | _ \<Rightarrow> [])
             else unescape e # unquoteChars s2)
      else
        let n = runeSize (x # s1) in
        if n = 0 then replacementRune @ unquoteChars s1
        else take n (x # s1) @ unquoteChars (drop (n - 1) s1))"

declare unquoteChars.simps(2) [simp del]

section \<open>Literals round trip\<close>

lemma hexDigit_16: "n < 16 \<Longrightarrow> hexValue (hexDigit n) = n \<and> isHex (hexDigit n)"
proof -
  assume "n < 16"
  then have "n \<in> set [0..<16]"
    by simp
  then show ?thesis
    by (simp add: upt_rec del: upt_Suc)
      (auto simp: hexDigit_def hexValue_def isHex_def isDigit_def of_char_of take_bit_eq_mod Let_def)
qed

lemma byte_bounds: "byteIn lo hi c \<Longrightarrow> 127 < lo \<Longrightarrow> c \<noteq> quote \<and> c \<noteq> backslash \<and> \<not> of_char c < (32 :: nat) \<and> \<not> byteIn 0 127 c"
  by (auto simp: byteIn_def)

lemma lead_bounds:
  "lead3 a b \<Longrightarrow> byteIn 224 239 a \<and> continuation b"
  "lead4 a b \<Longrightarrow> byteIn 240 244 a \<and> continuation b"
  by (auto simp: lead3_def lead4_def byteIn_def)

lemma scanString_plain:
  "c \<noteq> quote \<Longrightarrow> c \<noteq> backslash \<Longrightarrow> \<not> of_char c < (32 :: nat) \<Longrightarrow> scanString s = Some (t, r) \<Longrightarrow>
     scanString (c # s) = Some (c # t, r)"
  by simp

lemma scanString_escapeU:
  "isHex h1 \<Longrightarrow> isHex h2 \<Longrightarrow> isHex h3 \<Longrightarrow> isHex h4 \<Longrightarrow> scanString s = Some (t, r) \<Longrightarrow>
     scanString (backslash # CHR ''u'' # h1 # h2 # h3 # h4 # s) = Some (backslash # CHR ''u'' # h1 # h2 # h3 # h4 # t, r)"
  by (simp add: simpleEscape_def)

lemma scanString_escapeAscii:
  assumes "scanString s = Some (t, r)" "byteIn 0 127 c"
  shows "scanString (escapeAscii c @ s) = Some (escapeAscii c @ t, r)"
proof -
  have "isHex (CHR ''0'')" "isHex (hexDigit (of_char c div 16))" "isHex (hexDigit (of_char c mod 16))"
    using assms(2) hexDigit_16 [of "of_char c div 16"] hexDigit_16 [of "of_char c mod 16"]
    by (auto simp: byteIn_def isHex_def isDigit_def)
  then have "scanString (escapeU c @ s) = Some (escapeU c @ t, r)"
    using assms(1) by (simp add: escapeU_def simpleEscape_def)
  then show ?thesis
    using assms(1) by (auto simp: escapeAscii_def simpleEscape_def)
qed

text \<open>The bytes of a longer rune are plain characters of a literal.\<close>

lemma runeSize_cases:
  assumes "runeSize (a # s) \<noteq> 0"
  obtains "runeSize (a # s) = 1" "byteIn 0 127 a"
  | b s1 where "runeSize (a # s) = 2" "s = b # s1" "byteIn 194 223 a" "continuation b"
  | b c s2 where "runeSize (a # s) = 3" "s = b # c # s2" "lead3 a b" "continuation c"
  | b c d s3 where "runeSize (a # s) = 4" "s = b # c # d # s3" "lead4 a b" "continuation c" "continuation d"
  using assms by (auto simp: runeSize_def split: list.splits if_splits)

lemma runeSize_take:
  assumes "runeSize (a # s) \<noteq> 0"
  shows "runeSize (take (runeSize (a # s)) (a # s) @ t) = runeSize (a # s)"
  using assms by (cases rule: runeSize_cases) (auto simp: runeSize_def lead3_def lead4_def byteIn_def)

definition plainByte :: "char \<Rightarrow> bool" where
  "plainByte c \<longleftrightarrow> 128 \<le> (of_char c :: nat)"

lemma long_rune_plain:
  assumes "runeSize (a # s) \<noteq> 0" "runeSize (a # s) \<noteq> 1"
  shows "list_all plainByte (take (runeSize (a # s)) (a # s))"
  using assms(1)
  by (cases rule: runeSize_cases) (use assms(2) in \<open>auto simp: plainByte_def byteIn_def lead3_def lead4_def\<close>)

lemma scanString_plains:
  "list_all plainByte p \<Longrightarrow> scanString s = Some (t, r) \<Longrightarrow> scanString (p @ s) = Some (p @ t, r)"
  by (induction p) (auto simp: plainByte_def)

lemma scanString_quoteRune:
  assumes "runeSize (a # s) \<noteq> 0" "scanString u = Some (t, r)"
  shows "scanString (quoteRune (take (runeSize (a # s)) (a # s)) @ u) = Some (quoteRune (take (runeSize (a # s)) (a # s)) @ t, r)"
  using assms(1)
proof (cases rule: runeSize_cases)
  case 1
  then show ?thesis
    using assms(2) scanString_escapeAscii [OF assms(2)]
    by (auto simp: quoteRune_def htmlSafe_def byteIn_def)
next
  case (3 b c s2)
  have "isHex (hexDigit (of_char c mod 16))"
    using hexDigit_16 by simp
  then have "scanString (separatorEscape c @ u) = Some (separatorEscape c @ t, r)"
    using assms(2) by (simp add: separatorEscape_def simpleEscape_def isHex_def isDigit_def)
  then show ?thesis
    using 3 scanString_plains [OF long_rune_plain [OF assms(1)] assms(2)] by (auto simp: quoteRune_def)
qed (use scanString_plains [OF long_rune_plain [OF assms(1)] assms(2)] in \<open>auto simp: quoteRune_def\<close>)

lemma scanString_quoteChars: "scanString (quoteChars s @ quote # rest) = Some (quoteChars s, rest)"
proof (induction s rule: quoteChars.induct)
  case (2 a s)
  show ?case
  proof (cases "runeSize (a # s) = 0")
    case True
    have "scanString (replacementEscape @ quoteChars s @ quote # rest) = Some (replacementEscape @ quoteChars s, rest)"
      using 2(1) [OF refl True] by (simp add: replacementEscape_def simpleEscape_def isHex_def isDigit_def)
    then show ?thesis
      using True by simp
  next
    case False
    then show ?thesis
      using scanString_quoteRune [OF False 2(2) [OF refl False]] by (simp add: Let_def)
  qed
qed simp

lemma ValidString_rune:
  "ValidString (a # s) \<longleftrightarrow> runeSize (a # s) \<noteq> 0 \<and> ValidString (drop (runeSize (a # s) - 1) s)"
  by (auto simp: runeSize_def split: list.splits)

lemma unquote_escapeU:
  assumes "\<not> (0xD800 \<le> hex4 h1 h2 h3 h4 \<and> hex4 h1 h2 h3 h4 < 0xDC00)"
  shows "unquoteChars (backslash # CHR ''u'' # h1 # h2 # h3 # h4 # s) = encodeRune (hex4 h1 h2 h3 h4) @ unquoteChars s"
  using assms by (subst unquoteChars.simps(2)) (auto simp: surrogatePair_def split: list.split)

lemma unquote_simple: "e \<noteq> CHR ''u'' \<Longrightarrow> unquoteChars (backslash # e # s) = unescape e # unquoteChars s"
  by (subst unquoteChars.simps(2)) simp

lemma unquote_escapeAscii:
  assumes "byteIn 0 127 c"
  shows "unquoteChars (escapeAscii c @ s) = c # unquoteChars s"
proof -
  have "hex4 (CHR ''0'') (CHR ''0'') (hexDigit (of_char c div 16)) (hexDigit (of_char c mod 16)) = of_char c"
    using assms hexDigit_16 [of "of_char c div 16"] hexDigit_16 [of "of_char c mod 16"]
    by (simp add: hex4_def byteIn_def hexValue_def [of "CHR ''0''"])
  then have "unquoteChars (escapeU c @ s) = c # unquoteChars s"
    using assms unquote_escapeU [of "CHR ''0''" "CHR ''0''" "hexDigit (of_char c div 16)" "hexDigit (of_char c mod 16)" s]
    by (simp add: escapeU_def encodeRune_def byteOf_def byteIn_def)
  then show ?thesis
    by (auto simp: escapeAscii_def unescape_def unquote_simple)
qed

lemma separator_runes:
  "encodeRune (hex4 (CHR ''2'') (CHR ''0'') (CHR ''2'') (hexDigit (of_char (CHR 0xA8) mod 16))) = [CHR 0xE2, CHR 0x80, CHR 0xA8]"
  "encodeRune (hex4 (CHR ''2'') (CHR ''0'') (CHR ''2'') (hexDigit (of_char (CHR 0xA9) mod 16))) = [CHR 0xE2, CHR 0x80, CHR 0xA9]"
  by (simp_all add: hex4_def hexValue_def hexDigit_def encodeRune_def byteOf_def Let_def char_of_eq_iff take_bit_eq_mod)

lemma unquote_separatorEscape:
  assumes "lineSeparator a b c"
  shows "unquoteChars (separatorEscape c @ s) = a # b # c # unquoteChars s"
proof -
  have "c = CHR 0xA8 \<or> c = CHR 0xA9" and ab: "a = CHR 0xE2" "b = CHR 0x80"
    using assms by (auto simp: lineSeparator_def)
  then have "encodeRune (hex4 (CHR ''2'') (CHR ''0'') (CHR ''2'') (hexDigit (of_char c mod 16))) = [a, b, c]"
    using separator_runes by blast
  moreover have "hex4 (CHR ''2'') (CHR ''0'') (CHR ''2'') (hexDigit (of_char c mod 16)) < 0xD800"
    using hexDigit_16 [of "of_char c mod 16"] by (simp add: hex4_def hexValue_def [of "CHR ''2''"] hexValue_def [of "CHR ''0''"])
  ultimately show ?thesis
    using unquote_escapeU [of "CHR ''2''" "CHR ''0''" "CHR ''2''" "hexDigit (of_char c mod 16)" s]
    by (simp add: separatorEscape_def)
qed

lemma unquote_rune:
  assumes "runeSize (a # s) \<noteq> 0" "a \<noteq> backslash"
  shows "unquoteChars (take (runeSize (a # s)) (a # s) @ u) = take (runeSize (a # s)) (a # s) @ unquoteChars u"
proof -
  obtain n where n: "runeSize (a # s) = Suc n"
    using assms(1) by (cases "runeSize (a # s)") auto
  have len: "n \<le> length s"
    using assms(1) by (cases rule: runeSize_cases) (use n in auto)
  have "runeSize (a # (take n s @ u)) = Suc n"
    using runeSize_take [OF assms(1), of u] by (simp add: n)
  then show ?thesis
    using assms(2) len by (simp add: n Let_def unquoteChars.simps(2) [of a])
qed

lemma unquote_quoteRune:
  assumes "runeSize (a # s) \<noteq> 0"
  shows "unquoteChars (quoteRune (take (runeSize (a # s)) (a # s)) @ u) = take (runeSize (a # s)) (a # s) @ unquoteChars u"
proof (cases "runeSize (a # s) = 1")
  case True
  from assms have "byteIn 0 127 a"
    by (cases rule: runeSize_cases) (use True in auto)
  then show ?thesis
    using unquote_escapeAscii [of a u] unquote_rune [OF assms, of u] True
    by (auto simp: quoteRune_def htmlSafe_def)
next
  case False
  note plain = long_rune_plain [OF assms False]
  have a: "a \<noteq> backslash"
    using assms by (cases rule: runeSize_cases) (use plain False in \<open>auto simp: plainByte_def\<close>)
  show ?thesis
    using assms
    by (cases rule: runeSize_cases)
      (use False unquote_rune [OF assms a, of u] unquote_separatorEscape in \<open>auto simp: quoteRune_def\<close>)
qed

lemma unquote_quoteChars: "ValidString s \<Longrightarrow> unquoteChars (quoteChars s) = s"
proof (induction s rule: quoteChars.induct)
  case (2 a s)
  let ?n = "runeSize (a # s)"
  have n: "?n \<noteq> 0" and rest: "ValidString (drop (?n - 1) s)"
    using 2(3) by (simp_all only: ValidString_rune simp_thms)
  have "unquoteChars (quoteRune (take ?n (a # s)) @ quoteChars (drop (?n - 1) s)) = take ?n (a # s) @ drop (?n - 1) s"
    unfolding unquote_quoteRune [OF n] using 2(2) [OF refl n rest] by simp
  also have "\<dots> = a # s"
    using n by (cases ?n) simp_all
  finally show ?case
    using n by (simp add: Let_def)
qed simp

end
