(* ===== verification/Json_Tree.thy ===== *)
theory Json_Tree
  imports Json_Text "HOL-Library.Monad_Syntax"
begin

text \<open>
  JSON values as syntax trees, the compact text \<^verbatim>\<open>Marshal\<close> writes for a tree, and the reader. The reader
  takes fuel, which bounds the number of values it opens one after the other or inside each other,
  and the room left for nesting (\<^verbatim>\<open>encoding/json\<close> refuses more than 10000 levels). The length of the
  input is always enough fuel for a printed tree.
\<close>

declare scanString.simps(2) [simp del]

section \<open>Numbers\<close>

definition optSign :: "string \<Rightarrow> string \<times> string" where
  "optSign s = (case s of [] \<Rightarrow> ([], []) | c # r \<Rightarrow> if c = CHR ''-'' then ([c], r) else ([], s))"

definition intPart :: "string \<Rightarrow> (string \<times> string) option" where
  "intPart s =
     (case s of
        [] \<Rightarrow> None
      | c # r \<Rightarrow>
          if c = CHR ''0'' then Some ([c], r)
          else if isDigit19 c then Some (c # takeWhile isDigit r, dropWhile isDigit r)
          else None)"

definition digitsPart :: "string \<Rightarrow> string \<Rightarrow> (string \<times> string) option" where
  "digitsPart front s =
     (let ds = takeWhile isDigit s in if ds = [] then None else Some (front @ ds, dropWhile isDigit s))"

definition fracPart :: "string \<Rightarrow> (string \<times> string) option" where
  "fracPart s = (case s of [] \<Rightarrow> Some ([], []) | c # r \<Rightarrow> if c = CHR ''.'' then digitsPart [c] r else Some ([], s))"

definition expPart :: "string \<Rightarrow> (string \<times> string) option" where
  "expPart s =
     (case s of
        [] \<Rightarrow> Some ([], [])
      | c # r \<Rightarrow>
          if c \<noteq> CHR ''e'' \<and> c \<noteq> CHR ''E'' then Some ([], s)
          else (case r of
            [] \<Rightarrow> None
          | d # r' \<Rightarrow> if d = CHR ''+'' \<or> d = CHR ''-'' then digitsPart [c, d] r' else digitsPart [c] r))"

definition parseNumber :: "string \<Rightarrow> (string \<times> string) option" where
  "parseNumber s = do {
     let (sign, s1) = optSign s;
     (i, s2) \<leftarrow> intPart s1;
     (f, s3) \<leftarrow> fracPart s2;
     (e, s4) \<leftarrow> expPart s3;
     Some (sign @ i @ f @ e, s4)
   }"

definition validNumber :: "string \<Rightarrow> bool" where
  "validNumber n \<longleftrightarrow> parseNumber n = Some (n, [])"

text \<open>A text at which every number ends.\<close>

definition numStop :: "string \<Rightarrow> bool" where
  "numStop rest \<longleftrightarrow>
     (case rest of [] \<Rightarrow> True | c # _ \<Rightarrow> \<not> isDigit c \<and> c \<notin> {CHR ''.'', CHR ''e'', CHR ''E'', CHR ''+'', CHR ''-''})"

lemma takeWhile_numStop:
  "numStop rest \<Longrightarrow> takeWhile isDigit (s @ rest) = takeWhile isDigit s"
  "numStop rest \<Longrightarrow> dropWhile isDigit (s @ rest) = dropWhile isDigit s @ rest"
  by (induction s) (cases rest; simp add: numStop_def)+

lemma digitsPart_stop:
  "digitsPart front s = Some (t, u) \<Longrightarrow> numStop rest \<Longrightarrow> digitsPart front (s @ rest) = Some (t, u @ rest)"
  by (auto simp: digitsPart_def takeWhile_numStop Let_def split: if_splits)

lemma intPart_stop: "intPart s = Some (t, u) \<Longrightarrow> numStop rest \<Longrightarrow> intPart (s @ rest) = Some (t, u @ rest)"
  by (cases s) (auto simp: intPart_def takeWhile_numStop split: if_splits)

lemma fracPart_stop: "fracPart s = Some (t, u) \<Longrightarrow> numStop rest \<Longrightarrow> fracPart (s @ rest) = Some (t, u @ rest)"
  by (cases s; cases rest)
    (auto simp: fracPart_def numStop_def [of "_ # _"] digitsPart_stop split: if_splits)

lemma expPart_stop:
  assumes "expPart s = Some (t, u)" "numStop rest"
  shows "expPart (s @ rest) = Some (t, u @ rest)"
proof (cases s)
  case Nil
  then show ?thesis
    using assms by (cases rest) (auto simp: expPart_def numStop_def)
next
  case (Cons c r)
  then show ?thesis
    using assms digitsPart_stop [of _ r t u rest] digitsPart_stop [of _ "tl r" t u rest]
    by (cases r) (auto simp: expPart_def split: if_splits)
qed

lemma parseNumber_stop:
  assumes "parseNumber s = Some (t, u)" "numStop rest"
  shows "parseNumber (s @ rest) = Some (t, u @ rest)"
proof -
  obtain sign s1 where sign: "optSign s = (sign, s1)"
    by fastforce
  have "s \<noteq> []"
    using assms(1) by (auto simp: parseNumber_def optSign_def intPart_def)
  then have "optSign (s @ rest) = (sign, s1 @ rest)"
    using sign by (cases s) (auto simp: optSign_def split: if_splits)
  then show ?thesis
    using assms(1) intPart_stop [OF _ assms(2)] fracPart_stop [OF _ assms(2)] expPart_stop [OF _ assms(2)] sign
    by (auto simp: parseNumber_def Option.bind_eq_Some_conv)
qed

lemma parseNumber_valid: "validNumber n \<Longrightarrow> numStop rest \<Longrightarrow> parseNumber (n @ rest) = Some (n, rest)"
  using parseNumber_stop [of n n "[]" rest] by (simp add: validNumber_def)

section \<open>Trees\<close>

datatype json =
    JNull
  | JBool bool
  | JNum string
  | JStr string
  | JArr string "json list"
  | JObj string "(string \<times> json) list"

fun commaSep :: "string list \<Rightarrow> string" where
  "commaSep [] = []"
| "commaSep [x] = x"
| "commaSep (x # y # xs) = x @ CHR '','' # commaSep (y # xs)"

fun printJson :: "json \<Rightarrow> string" where
  "printJson JNull = ''null''"
| "printJson (JBool b) = (if b then ''true'' else ''false'')"
| "printJson (JNum n) = n"
| "printJson (JStr t) = quote # t @ [quote]"
| "printJson (JArr src js) = CHR ''['' # commaSep (map printJson js) @ '']''"
| "printJson (JObj src kvs) = CHR ''{'' # commaSep (map (\<lambda>(k, j). quote # k @ quote # CHR '':'' # printJson j) kvs) @ ''}''"

text \<open>The bytes of a value in the document it was read from.\<close>

fun sourceOf :: "json \<Rightarrow> string" where
  "sourceOf (JArr src js) = src"
| "sourceOf (JObj src kvs) = src"
| "sourceOf j = printJson j"

section \<open>The reader\<close>

definition skipSpace :: "string \<Rightarrow> string" where
  "skipSpace = dropWhile isJsonSpace"

definition stripLiteral :: "string \<Rightarrow> string \<Rightarrow> string option" where
  "stripLiteral lit s = (if take (length lit) s = lit then Some (drop (length lit) s) else None)"

definition consumed :: "string \<Rightarrow> string \<Rightarrow> string" where
  "consumed s rest = take (length s - length rest) s"

definition parseScalar :: "string \<Rightarrow> (json \<times> string) option" where
  "parseScalar s =
     (case s of
        [] \<Rightarrow> None
      | c # r \<Rightarrow>
          if c = quote then map_option (\<lambda>(t, rest). (JStr t, rest)) (scanString r)
          else if c = CHR ''t'' then map_option (\<lambda>rest. (JBool True, rest)) (stripLiteral ''true'' s)
          else if c = CHR ''f'' then map_option (\<lambda>rest. (JBool False, rest)) (stripLiteral ''false'' s)
          else if c = CHR ''n'' then map_option (\<lambda>rest. (JNull, rest)) (stripLiteral ''null'' s)
          else map_option (\<lambda>(n, rest). (JNum n, rest)) (parseNumber s))"

text \<open>The key of a member, its colon, and the text after them.\<close>

definition parseKey :: "string \<Rightarrow> (string \<times> string) option" where
  "parseKey s =
     (case skipSpace s of
        [] \<Rightarrow> None
      | c # r \<Rightarrow>
          if c \<noteq> quote then None
          else do {
            (k, s1) \<leftarrow> scanString r;
            (case skipSpace s1 of [] \<Rightarrow> None | d # s2 \<Rightarrow> if d = CHR '':'' then Some (k, s2) else None)
          })"

fun parseValue :: "nat \<Rightarrow> nat \<Rightarrow> string \<Rightarrow> (json \<times> string) option"
  and parseElements :: "nat \<Rightarrow> nat \<Rightarrow> string \<Rightarrow> (json list \<times> string) option"
  and parseMembers :: "nat \<Rightarrow> nat \<Rightarrow> string \<Rightarrow> ((string \<times> json) list \<times> string) option"
where
  "parseValue 0 room s = None"
| "parseValue (Suc n) room s =
     (case skipSpace s of
        [] \<Rightarrow> None
      | c # r \<Rightarrow>
          if c = CHR ''['' then
            (if room = 0 then None
             else case skipSpace r of
               [] \<Rightarrow> None
             | d # r' \<Rightarrow>
                 if d = CHR '']'' then Some (JArr (consumed (c # r) r') [], r')
                 else map_option (\<lambda>(js, rest). (JArr (consumed (c # r) rest) js, rest)) (parseElements n (room - 1) r))
          else if c = CHR ''{'' then
            (if room = 0 then None
             else case skipSpace r of
               [] \<Rightarrow> None
             | d # r' \<Rightarrow>
                 if d = CHR ''}'' then Some (JObj (consumed (c # r) r') [], r')
                 else map_option (\<lambda>(kvs, rest). (JObj (consumed (c # r) rest) kvs, rest)) (parseMembers n (room - 1) r))
          else parseScalar (c # r))"
| "parseElements 0 room s = None"
| "parseElements (Suc n) room s = do {
     (j, s1) \<leftarrow> parseValue n room s;
     (case skipSpace s1 of
        [] \<Rightarrow> None
      | c # s2 \<Rightarrow>
          if c = CHR '']'' then Some ([j], s2)
          else if c = CHR '','' then map_option (\<lambda>(js, rest). (j # js, rest)) (parseElements n room s2)
          else None)
   }"
| "parseMembers 0 room s = None"
| "parseMembers (Suc n) room s = do {
     (k, s1) \<leftarrow> parseKey s;
     (j, s2) \<leftarrow> parseValue n room s1;
     (case skipSpace s2 of
        [] \<Rightarrow> None
      | c # s3 \<Rightarrow>
          if c = CHR ''}'' then Some ([(k, j)], s3)
          else if c = CHR '','' then map_option (\<lambda>(kvs, rest). ((k, j) # kvs, rest)) (parseMembers n room s3)
          else None)
   }"

definition parseJson :: "string \<Rightarrow> json option" where
  "parseJson s =
     (case parseValue (2 * length s + 2) maxNestingDepth s of
        None \<Rightarrow> None
      | Some (j, rest) \<Rightarrow> if skipSpace rest = [] then Some j else None)"

section \<open>Printing and reading back\<close>

definition literalOK :: "string \<Rightarrow> bool" where
  "literalOK t \<longleftrightarrow> scanString (t @ [quote]) = Some (t, [])"

fun wfJson :: "nat \<Rightarrow> json \<Rightarrow> bool" where
  "wfJson room (JNum n) = validNumber n"
| "wfJson room (JStr t) = literalOK t"
| "wfJson room (JArr src js) = (room \<noteq> 0 \<and> list_all (wfJson (room - 1)) js)"
| "wfJson room (JObj src kvs) = (room \<noteq> 0 \<and> list_all (\<lambda>(k, j). literalOK k \<and> wfJson (room - 1) j) kvs)"
| "wfJson room j = True"

fun canonJson :: "json \<Rightarrow> json" where
  "canonJson (JArr src js) = JArr (printJson (JArr src js)) (map canonJson js)"
| "canonJson (JObj src kvs) = JObj (printJson (JObj src kvs)) (map (\<lambda>(k, j). (k, canonJson j)) kvs)"
| "canonJson j = j"

fun jsonFuel :: "json \<Rightarrow> nat" where
  "jsonFuel (JArr src js) = 2 + sum_list (map (\<lambda>j. Suc (jsonFuel j)) js)"
| "jsonFuel (JObj src kvs) = 2 + sum_list (map (\<lambda>(k, j). Suc (jsonFuel j)) kvs)"
| "jsonFuel j = 1"

lemma scanString_cases:
  assumes "scanString (c # s) = Some (t, u)"
  obtains "c = quote" "t = []" "u = s"
  | e s1 t1 where "c = backslash" "s = e # s1" "simpleEscape e" "scanString s1 = Some (t1, u)" "t = c # e # t1"
  | h1 h2 h3 h4 s5 t5 where "c = backslash" "s = CHR ''u'' # h1 # h2 # h3 # h4 # s5" "isHex h1" "isHex h2" "isHex h3" "isHex h4"
      "scanString s5 = Some (t5, u)" "t = c # CHR ''u'' # h1 # h2 # h3 # h4 # t5"
  | t1 where "c \<noteq> quote" "c \<noteq> backslash" "\<not> of_char c < (32 :: nat)" "scanString s = Some (t1, u)" "t = c # t1"
  using assms by (subst (asm) scanString.simps(2)) (auto split: if_splits list.splits)

lemma scanString_extend: "scanString s = Some (t, u) \<Longrightarrow> scanString (s @ rest) = Some (t, u @ rest)"
proof (induction s arbitrary: t rule: length_induct)
  case (1 s)
  then obtain c s' where s: "s = c # s'"
    by (cases s) auto
  have IH: "scanString (v @ rest) = Some (t', u @ rest)" if "scanString v = Some (t', u)" "length v < length s" for v t'
    using 1(1) that by blast
  from 1(2) [unfolded s] show ?case
    by (cases rule: scanString_cases)
      (use IH in \<open>auto simp: s scanString.simps(2) simpleEscape_def\<close>)
qed

lemma literalOK_scan: "literalOK t \<Longrightarrow> scanString (t @ quote # rest) = Some (t, rest)"
  using scanString_extend [of "t @ [quote]" t "[]" rest] by (simp add: literalOK_def)

lemma skipSpace_nonspace [simp]: "\<not> isJsonSpace c \<Longrightarrow> skipSpace (c # s) = c # s"
  by (simp add: skipSpace_def)

lemma not_isJsonSpace [simp]:
  "\<not> isJsonSpace CHR ''[''" "\<not> isJsonSpace CHR '']''" "\<not> isJsonSpace CHR ''{''" "\<not> isJsonSpace CHR ''}''"
  "\<not> isJsonSpace CHR '',''" "\<not> isJsonSpace CHR '':''" "\<not> isJsonSpace quote"
  "\<not> isJsonSpace CHR ''t''" "\<not> isJsonSpace CHR ''f''" "\<not> isJsonSpace CHR ''n''" "\<not> isJsonSpace CHR ''-''"
  by (simp_all add: isJsonSpace_def)

lemma numStop_delims [simp]: "numStop []" "numStop (CHR '','' # s)" "numStop (CHR '']'' # s)" "numStop (CHR ''}'' # s)"
  by (simp_all add: numStop_def isDigit_def)

lemma validNumber_head:
  assumes "validNumber n"
  obtains c r where "n = c # r" "c = CHR ''-'' \<or> isDigit c"
  using assms
  by (cases n) (auto simp: validNumber_def parseNumber_def optSign_def intPart_def isDigit19_def isDigit_def
      Option.bind_eq_Some_conv split: if_splits)

lemma digit_not: "isDigit c \<Longrightarrow> \<not> isJsonSpace c \<and> c \<notin> {quote, CHR ''['', CHR ''{'', CHR ''t'', CHR ''f'', CHR ''n'', CHR '']'', CHR ''}''}"
  by (auto simp: isDigit_def isJsonSpace_def)

text \<open>A printed tree starts with a character that is no space and closes nothing.\<close>

lemma printJson_head:
  assumes "wfJson room j"
  obtains c r where "printJson j = c # r" "\<not> isJsonSpace c" "c \<noteq> CHR '']''" "c \<noteq> CHR ''}''"
proof (cases j)
  case (JNum n)
  then have "validNumber n"
    using assms by simp
  then obtain c r where "n = c # r" "c = CHR ''-'' \<or> isDigit c"
    by (rule validNumber_head)
  then show thesis
    using that [of c r] JNum digit_not [of c] by auto
next
  case (JBool b)
  then show thesis
    using that [of "CHR ''t''"] that [of "CHR ''f''"] by (cases b) auto
qed (use that in auto)

lemma parse_number:
  assumes "validNumber n" "numStop rest"
  shows "parseValue (Suc f) room (n @ rest) = Some (JNum n, rest)"
proof -
  obtain c r where c: "n = c # r" "c = CHR ''-'' \<or> isDigit c"
    using assms(1) by (rule validNumber_head)
  have "\<not> isJsonSpace c" "c \<notin> {quote, CHR ''['', CHR ''{'', CHR ''t'', CHR ''f'', CHR ''n''}"
    using c(2) digit_not by auto
  then show ?thesis
    using parseNumber_valid [OF assms] by (simp add: c(1) parseScalar_def)
qed

lemma consumed_append: "consumed (s @ rest) rest = s"
  by (simp add: consumed_def)

text \<open>
  Reading the text of one value, and the elements and members that follow an opening bracket, under
  the hypothesis that the parts are read back.
\<close>

definition readsBack :: "nat \<Rightarrow> json \<Rightarrow> bool" where
  "readsBack room j \<longleftrightarrow>
     (\<forall>f rest. jsonFuel j \<le> f \<longrightarrow> numStop rest \<longrightarrow> parseValue f room (printJson j @ rest) = Some (canonJson j, rest))"

lemma read_elements:
  assumes "js \<noteq> []" "\<forall>j\<in>set js. readsBack room j" "sum_list (map (\<lambda>j. Suc (jsonFuel j)) js) \<le> f"
  shows "parseElements f room (commaSep (map printJson js) @ CHR '']'' # rest) = Some (map canonJson js, rest)"
  using assms
proof (induction js arbitrary: f)
  case (Cons j js)
  obtain f' where f: "f = Suc f'" "jsonFuel j \<le> f'"
    using Cons.prems(3) by (cases f) auto
  show ?case
  proof (cases js)
    case Nil
    have "parseValue f' room (printJson j @ CHR '']'' # rest) = Some (canonJson j, CHR '']'' # rest)"
      using Cons.prems(2) f(2) by (simp add: readsBack_def)
    then show ?thesis
      using f(1) Nil by simp
  next
    case (Cons j' js')
    let ?tail = "commaSep (map printJson js) @ CHR '']'' # rest"
    have "parseValue f' room (printJson j @ CHR '','' # ?tail) = Some (canonJson j, CHR '','' # ?tail)"
      using Cons.prems(2) f(2) by (simp add: readsBack_def)
    moreover have "parseElements f' room ?tail = Some (map canonJson js, rest)"
      using Cons.prems f Cons by (intro Cons.IH) auto
    ultimately show ?thesis
      using f(1) Cons by simp
  qed
qed simp

lemma read_key: "literalOK k \<Longrightarrow> parseKey (quote # k @ quote # CHR '':'' # rest) = Some (k, rest)"
  by (simp add: parseKey_def literalOK_scan)

lemma read_members:
  assumes "kvs \<noteq> []" "\<forall>(k, j)\<in>set kvs. literalOK k \<and> readsBack room j"
    and "sum_list (map (\<lambda>(k, j). Suc (jsonFuel j)) kvs) \<le> f"
  shows "parseMembers f room (commaSep (map (\<lambda>(k, j). quote # k @ quote # CHR '':'' # printJson j) kvs) @ CHR ''}'' # rest) =
    Some (map (\<lambda>(k, j). (k, canonJson j)) kvs, rest)"
  using assms
proof (induction kvs arbitrary: f)
  case (Cons kv kvs)
  obtain k j where kv: "kv = (k, j)"
    by (cases kv)
  obtain f' where f: "f = Suc f'" "jsonFuel j \<le> f'"
    using Cons.prems(3) kv by (cases f) auto
  have k: "literalOK k" "readsBack room j"
    using Cons.prems(2) kv by auto
  show ?case
  proof (cases kvs)
    case Nil
    have "parseValue f' room (printJson j @ CHR ''}'' # rest) = Some (canonJson j, CHR ''}'' # rest)"
      using k(2) f(2) by (simp add: readsBack_def)
    then show ?thesis
      using f(1) Nil k(1) by (simp add: kv read_key)
  next
    case (Cons kv' kvs')
    let ?tail = "commaSep (map (\<lambda>(k, j). quote # k @ quote # CHR '':'' # printJson j) kvs) @ CHR ''}'' # rest"
    have "parseValue f' room (printJson j @ CHR '','' # ?tail) = Some (canonJson j, CHR '','' # ?tail)"
      using k(2) f(2) by (simp add: readsBack_def)
    moreover have "parseMembers f' room ?tail = Some (map (\<lambda>(k, j). (k, canonJson j)) kvs, rest)"
      using Cons.prems f Cons kv by (intro Cons.IH) auto
    ultimately show ?thesis
      using f(1) Cons k(1) by (simp add: kv read_key)
  qed
qed simp

lemma commaSep_head: "xs \<noteq> [] \<Longrightarrow> hd xs = c # r \<Longrightarrow> \<exists>r'. commaSep xs = c # r'"
  by (cases xs rule: commaSep.cases) auto

lemma read_array:
  assumes "room \<noteq> 0" "\<forall>j\<in>set js. wfJson (room - 1) j \<and> readsBack (room - 1) j"
  shows "readsBack room (JArr src js)"
  unfolding readsBack_def
proof (intro allI impI)
  fix f rest
  assume fuel: "jsonFuel (JArr src js) \<le> f" and "numStop rest"
  then obtain f' where f: "f = Suc f'" "sum_list (map (\<lambda>j. Suc (jsonFuel j)) js) \<le> f'"
    by (cases f) auto
  show "parseValue f room (printJson (JArr src js) @ rest) = Some (canonJson (JArr src js), rest)"
  proof (cases "js = []")
    case True
    then show ?thesis
      using assms(1) consumed_append [of "''[]''" rest] by (simp add: f(1))
  next
    case False
    let ?body = "commaSep (map printJson js) @ CHR '']'' # rest"
    obtain c r where c: "printJson (hd js) = c # r" "\<not> isJsonSpace c" "c \<noteq> CHR '']''"
      using assms(2) False printJson_head by (metis list.set_sel(1))
    obtain r' where body: "?body = c # r'"
      using commaSep_head [of "map printJson js" c r] c(1) False by (auto simp: hd_map)
    have "parseElements f' (room - 1) ?body = Some (map canonJson js, rest)"
      using assms(2) f(2) False by (intro read_elements) auto
    moreover have "consumed (CHR ''['' # ?body) rest = printJson (JArr src js)"
      using consumed_append [of "printJson (JArr src js)" rest] by simp
    ultimately show ?thesis
      using assms(1) c(2,3) by (simp add: f(1) body)
  qed
qed

lemma read_object:
  assumes "room \<noteq> 0" "\<forall>(k, j)\<in>set kvs. literalOK k \<and> readsBack (room - 1) j"
  shows "readsBack room (JObj src kvs)"
  unfolding readsBack_def
proof (intro allI impI)
  fix f rest
  assume fuel: "jsonFuel (JObj src kvs) \<le> f" and "numStop rest"
  then obtain f' where f: "f = Suc f'" "sum_list (map (\<lambda>(k, j). Suc (jsonFuel j)) kvs) \<le> f'"
    by (cases f) auto
  show "parseValue f room (printJson (JObj src kvs) @ rest) = Some (canonJson (JObj src kvs), rest)"
  proof (cases "kvs = []")
    case True
    then show ?thesis
      using assms(1) consumed_append [of "''{}''" rest] by (simp add: f(1))
  next
    case False
    let ?text = "\<lambda>(k, j). quote # k @ quote # CHR '':'' # printJson j"
    let ?body = "commaSep (map ?text kvs) @ CHR ''}'' # rest"
    obtain k j where "hd kvs = (k, j)"
      by fastforce
    then obtain r' where body: "?body = quote # r'"
      using commaSep_head [of "map ?text kvs" quote] False by (auto simp: hd_map)
    have "parseMembers f' (room - 1) ?body = Some (map (\<lambda>(k, j). (k, canonJson j)) kvs, rest)"
      using assms(2) f(2) False by (intro read_members) auto
    moreover have "consumed (CHR ''{'' # ?body) rest = printJson (JObj src kvs)"
      using consumed_append [of "printJson (JObj src kvs)" rest] by simp
    ultimately show ?thesis
      using assms(1) by (simp add: f(1) body)
  qed
qed

lemma stripLiteral_append [simp]: "stripLiteral lit (lit @ rest) = Some rest"
  by (simp add: stripLiteral_def)

lemma wfJson_readsBack: "wfJson room j \<Longrightarrow> readsBack room j"
proof (induction j arbitrary: room)
  case JNull
  show ?case
    using stripLiteral_append [of "''null''"]
    by (auto simp: readsBack_def parseScalar_def gr0_conv_Suc Suc_le_eq)
next
  case (JBool b)
  show ?case
    using stripLiteral_append [of "''true''"] stripLiteral_append [of "''false''"]
    by (cases b) (auto simp: readsBack_def parseScalar_def gr0_conv_Suc Suc_le_eq)
next
  case (JNum n)
  then show ?case
    using parse_number by (auto simp: readsBack_def gr0_conv_Suc Suc_le_eq)
next
  case (JStr t)
  then show ?case
    using literalOK_scan by (auto simp: readsBack_def parseScalar_def gr0_conv_Suc Suc_le_eq)
next
  case (JArr src js)
  then show ?case
    by (intro read_array) (auto simp: list_all_iff)
next
  case (JObj src kvs)
  then show ?case
    by (intro read_object) (fastforce simp: list_all_iff)+
qed

lemma commaSep_length: "length (commaSep xs) \<ge> sum_list (map length xs) + (length xs - 1)"
  by (induction xs rule: commaSep.induct) auto

lemma sum_list_fuel:
  assumes "\<And>x. x \<in> set xs \<Longrightarrow> f x \<le> 2 * length (g x)"
  shows "sum_list (map (\<lambda>x. Suc (f x)) xs) \<le> 2 * length (commaSep (map g xs)) + 2"
proof -
  have "sum_list (map (\<lambda>x. Suc (f x)) xs) \<le> length xs + 2 * sum_list (map (length \<circ> g) xs)"
    using assms by (induction xs) fastforce+
  then show ?thesis
    using commaSep_length [of "map g xs"] by simp
qed

lemma jsonFuel_length: "wfJson room j \<Longrightarrow> jsonFuel j \<le> 2 * length (printJson j)"
proof (induction j arbitrary: room)
  case (JNum n)
  then show ?case
    by (auto elim!: validNumber_head)
next
  case (JArr src js)
  then show ?case
    using sum_list_fuel [of js jsonFuel printJson] by (auto simp: list_all_iff)
next
  case (JObj src kvs)
  let ?text = "\<lambda>(k, j). quote # k @ quote # CHR '':'' # printJson j"
  have "(case kv of (k, j) \<Rightarrow> jsonFuel j) \<le> 2 * length (?text kv)" if "kv \<in> set kvs" for kv
    using JObj that by (cases kv) (fastforce simp: list_all_iff)
  from sum_list_fuel [OF this] show ?case
    by (simp add: case_prod_unfold)
qed auto

lemma parse_print:
  assumes "wfJson maxNestingDepth j"
  shows "parseJson (printJson j) = Some (canonJson j)"
proof -
  have "parseValue (2 * length (printJson j) + 2) maxNestingDepth (printJson j @ []) = Some (canonJson j, [])"
    using jsonFuel_length [OF assms]
    by (intro wfJson_readsBack [OF assms, unfolded readsBack_def, rule_format]) simp_all
  then show ?thesis
    by (simp add: parseJson_def skipSpace_def)
qed

end
