(* ===== verification/Float_Text.thy ===== *)
theory Float_Text
  imports Values Rfc3339 Json_Tree
begin

unbundle bit_operations_syntax

text \<open>
  The text form of \<^verbatim>\<open>float64\<close> in JSON documents: \<^verbatim>\<open>strconv.ParseFloat\<close> (the nearest double, ties to even)
  and the shortest decimal that reads back as the same double, laid out as \<^verbatim>\<open>encoding/json\<close> does.
\<close>

section \<open>Reading\<close>

text \<open>The number of binary digits of a natural number.\<close>

function bitLength :: "int \<Rightarrow> int" where
  "bitLength n = (if n \<le> 0 then 0 else bitLength (n div 2) + 1)"
  by pat_completeness auto
termination
  by (relation "measure nat") auto

declare bitLength.simps [simp del]

text \<open>\<open>n / (d * 2 ^ e)\<close> for an integer exponent, as numerator and denominator.\<close>

definition scaled :: "int \<Rightarrow> int \<Rightarrow> int \<Rightarrow> int \<times> int" where
  "scaled n d e = (if e \<ge> 0 then (n, d * 2 ^ nat e) else (n * 2 ^ nat (- e), d))"

definition roundHalfEven :: "int \<Rightarrow> int \<Rightarrow> int" where
  "roundHalfEven n d =
     (let q = n div d; r = n mod d in
      if 2 * r < d then q else if 2 * r > d then q + 1 else if even q then q else q + 1)"

definition packFloat :: "int \<Rightarrow> int \<Rightarrow> 64 word option" where
  "packFloat m e =
     (if m = 2 ^ 53 then (if e + 1 > 971 then None else Some (of_int ((e + 1 + 1075) * 2 ^ 52)))
      else if m < 2 ^ 52 then Some (of_int m)
      else if e > 971 then None
      else Some (of_int ((e + 1075) * 2 ^ 52 + (m - 2 ^ 52))))"

text \<open>The double nearest to the positive rational \<open>n / d\<close>; \<open>None\<close> when it is out of range.\<close>

definition nearestFloat :: "int \<Rightarrow> int \<Rightarrow> 64 word option" where
  "nearestFloat n d =
     (if n = 0 then Some 0
      else
        let e0 = bitLength n - bitLength d - 53;
            e1 = (case scaled n d e0 of (a, b) \<Rightarrow> if a div b < 2 ^ 53 then e0 else e0 + 1);
            e = max e1 (- 1074)
        in (case scaled n d e of (a, b) \<Rightarrow> packFloat (roundHalfEven a b) e))"

definition signBit :: "64 word" where "signBit = 0x8000000000000000"

definition tenPower :: "int \<Rightarrow> int \<Rightarrow> int \<times> int" where
  "tenPower m x = (if x \<ge> 0 then (m * 10 ^ nat x, 1) else (m, 10 ^ nat (- x)))"

definition exponentValue :: "string \<Rightarrow> int" where
  "exponentValue e =
     (case e of
        [] \<Rightarrow> 0
      | c # [] \<Rightarrow> 0
      | c # d # ds \<Rightarrow>
          if d = CHR ''-'' then - digitsValue ds else if d = CHR ''+'' then digitsValue ds else digitsValue (d # ds))"

text \<open>\<^verbatim>\<open>ParseFloat\<close> of the text of a JSON number.\<close>

definition parseFloat :: "string \<Rightarrow> 64 word option" where
  "parseFloat s = do {
     let (sign, s1) = optSign s;
     (i, s2) \<leftarrow> intPart s1;
     (f, s3) \<leftarrow> fracPart s2;
     (e, s4) \<leftarrow> expPart s3;
     if s4 \<noteq> [] then None
     else do {
       w \<leftarrow> (case tenPower (digitsValue (i @ tl f)) (exponentValue e - int (length (tl f))) of (n, d) \<Rightarrow> nearestFloat n d);
       Some (if sign = [] then w else w + signBit)
     }
   }"

section \<open>Writing\<close>

definition floatMagnitude :: "64 word \<Rightarrow> int \<times> int" where
  "floatMagnitude f =
     (let e = uint (floatExponent f); m = uint (floatMantissa f) in
      if e = 0 then (m, 2 ^ 1074)
      else if e \<ge> 1075 then ((m + 2 ^ 52) * 2 ^ nat (e - 1075), 1)
      else (m + 2 ^ 52, 2 ^ nat (1075 - e)))"

text \<open>The decimal exponent \<open>k\<close> of a positive rational: \<open>10 ^ k \<le> n / d < 10 ^ (k + 1)\<close>, within fuel.\<close>

fun decimalExponent :: "nat \<Rightarrow> int \<Rightarrow> int \<Rightarrow> int" where
  "decimalExponent 0 n d = 0"
| "decimalExponent (Suc fuel) n d =
     (if n < d then decimalExponent fuel (10 * n) d - 1
      else if n \<ge> 10 * d then decimalExponent fuel n (10 * d) + 1
      else 0)"

text \<open>The decimals with \<open>p\<close> digits next to \<open>n / d\<close>, the nearer one first, the even one of two equally near.\<close>

definition decimalCandidates :: "int \<Rightarrow> int \<Rightarrow> int \<Rightarrow> nat \<Rightarrow> int list" where
  "decimalCandidates n d k p =
     (case tenPower 1 (k - int p + 1) of (a, b) \<Rightarrow>
        let q = (n * b) div (d * a); r = (n * b) mod (d * a) in
        if 2 * r < d * a \<or> (2 * r = d * a \<and> even q) then [q, q + 1] else [q + 1, q])"

text \<open>The layouts \<^verbatim>\<open>'f'\<close> and \<^verbatim>\<open>'e'\<close> of the digits \<open>ds\<close> with the decimal point after the first one at \<open>10 ^ k\<close>.\<close>

definition layoutF :: "string \<Rightarrow> int \<Rightarrow> string" where
  "layoutF ds k =
     (if k < 0 then ''0.'' @ replicate (nat (- k - 1)) (CHR ''0'') @ ds
      else
        let i = take (nat k + 1) ds @ replicate (nat k + 1 - length ds) (CHR ''0'');
            f = drop (nat k + 1) ds
        in if f = [] then i else i @ CHR ''.'' # f)"

definition layoutE :: "string \<Rightarrow> int \<Rightarrow> string" where
  "layoutE ds k =
     take 1 ds @ (if length ds > 1 then CHR ''.'' # drop 1 ds else []) @
     (if k < 0 then ''e-'' @ decimal (- k) else ''e+'' @ decimal k)"

definition isNegative :: "64 word \<Rightarrow> bool" where
  "isNegative f \<longleftrightarrow> signBit \<le> f"

text \<open>
  The decimal \<open>m * 10 ^ (k - p + 1)\<close> as text, in exponent form when the double is below that of
  \<open>10 ^ -6\<close> or at least that of \<open>10 ^ 21\<close>.
\<close>

definition exponentForm :: "64 word \<Rightarrow> bool" where
  "exponentForm f \<longleftrightarrow>
     f AND 0x7FFFFFFFFFFFFFFF < 0x3EB0C6F7A0B5ED8D \<or> 0x444B1AE4D6E2EF50 \<le> f AND 0x7FFFFFFFFFFFFFFF"

definition layoutFloat :: "64 word \<Rightarrow> int \<Rightarrow> int \<Rightarrow> nat \<Rightarrow> string" where
  "layoutFloat f m k p =
     (let point = k - int p + int (length (decimal m));
          ds = (case trimZeros (decimal m) of [] \<Rightarrow> ''0'' | t \<Rightarrow> t)
      in (if isNegative f then ''-'' else []) @ (if exponentForm f then layoutE ds point else layoutF ds point))"

text \<open>The first candidate that reads back, from \<open>p\<close> digits on.\<close>

fun searchShortest :: "nat \<Rightarrow> 64 word \<Rightarrow> int \<Rightarrow> int \<Rightarrow> int \<Rightarrow> nat \<Rightarrow> string option" where
  "searchShortest 0 f n d k p = None"
| "searchShortest (Suc fuel) f n d k p =
     (let texts = map (\<lambda>m. layoutFloat f m k p) (decimalCandidates n d k p) in
      case find (\<lambda>t. parseFloat t = Some f \<and> validNumber t) texts of
        Some t \<Rightarrow> Some t
      | None \<Rightarrow> searchShortest fuel f n d k (Suc p))"

text \<open>\<^verbatim>\<open>None\<close> is the error for values JSON cannot represent. Seventeen digits identify every double.\<close>

definition formatFloat :: "64 word \<Rightarrow> string option" where
  "formatFloat f =
     (if isNaN f \<or> isInf f then None
      else if isZeroFloat f then Some (if isNegative f then ''-0'' else ''0'')
      else (case floatMagnitude f of (n, d) \<Rightarrow>
        let k = decimalExponent 400 n d in searchShortest 17 f n d k 1))"

text \<open>A formatted double is a JSON number and reads back as the same double.\<close>

lemma searchShortest_parse:
  "searchShortest fuel f n d k p = Some t \<Longrightarrow> parseFloat t = Some f \<and> validNumber t"
  by (induction fuel arbitrary: p) (auto simp: Let_def find_Some_iff split: option.splits)

lemma zeroFloat_cases: "isZeroFloat f \<longleftrightarrow> f = 0 \<or> f = signBit"
proof
  assume "isZeroFloat f"
  moreover have "(0x7FFFFFFFFFFFFFFF :: 64 word) = mask 63"
    by (simp add: mask_eq_exp_minus_1)
  ultimately have "take_bit 63 f = 0"
    by (simp add: isZeroFloat_def take_bit_eq_mask)
  then have f: "f = push_bit 63 (drop_bit 63 f)"
    using bits_ident [of 63 f] by simp
  have "uint (drop_bit 63 f) = uint f div 2 ^ 63"
    by (simp add: drop_bit_eq_div uint_div_distrib)
  moreover have "uint f < 2 ^ 64" "0 \<le> uint f"
    using uint_lt2p [of f] by simp_all
  ultimately have "uint (drop_bit 63 f) = 0 \<or> uint (drop_bit 63 f) = 1"
    using div_bounds [of "2 ^ 63" "uint f"] by fastforce
  then have "drop_bit 63 f = 0 \<or> drop_bit 63 f = 1"
    by (metis uint_0_eq uint_1_eq word_uint_eqI)
  then show "f = 0 \<or> f = signBit"
    using f by (auto simp: signBit_def)
qed (auto simp: isZeroFloat_def signBit_def)

lemma parse_formatFloat: "formatFloat f = Some t \<Longrightarrow> parseFloat t = Some f \<and> validNumber t"
proof (cases "isZeroFloat f")
  case True
  assume t: "formatFloat f = Some t"
  have "parseFloat ''0'' = Some 0 \<and> validNumber ''0''" "parseFloat ''-0'' = Some signBit \<and> validNumber ''-0''"
    by (simp_all add: parseFloat_def validNumber_def parseNumber_def optSign_def intPart_def fracPart_def expPart_def
        tenPower_def digitsValue_def exponentValue_def nearestFloat_def)
  then show ?thesis
    using True t unfolding zeroFloat_cases
    by (auto simp: formatFloat_def isZeroFloat_def isNegative_def signBit_def split: if_splits)
qed (auto simp: formatFloat_def dest: searchShortest_parse split: if_splits prod.splits)

end
