(* ===== verification/Json_Codec.thy ===== *)
theory Json_Codec
  imports Float_Text "HOL-Library.List_Lexorder" "HOL-Library.Char_ord"
begin

text \<open>
  \<^verbatim>\<open>json.Marshal\<close> and a \<^verbatim>\<open>json.Decoder\<close> with \<^verbatim>\<open>DisallowUnknownFields\<close> for the Go types that the wire formats
  use. A Go type is described by a schema (\<open>jtype\<close>: struct fields carry their JSON name and whether they
  are \<^verbatim>\<open>omitempty\<close>), a Go value by a generic value (\<open>jval\<close>: a struct is the list of its fields), and
  encoding and decoding are driven by the schema, as reflection does.
\<close>

section \<open>Compacting\<close>

text \<open>A \<^verbatim>\<open>json.RawMessage\<close> is written without spaces and with HTML characters escaped.\<close>

fun htmlEscape :: "string \<Rightarrow> string" where
  "htmlEscape [] = []"
| "htmlEscape (a # s) =
     (if a \<in> {CHR ''<'', CHR ''>'', CHR ''&''} then escapeU a @ htmlEscape s
      else (case s of
        b # c # s2 \<Rightarrow> if lineSeparator a b c then separatorEscape c @ htmlEscape s2 else a # htmlEscape s
      | _ \<Rightarrow> a # htmlEscape s))"

declare htmlEscape.simps(2) [simp del]

fun compactJson :: "json \<Rightarrow> json" where
  "compactJson (JStr t) = JStr (htmlEscape t)"
| "compactJson (JArr src js) = JArr [] (map compactJson js)"
| "compactJson (JObj src kvs) = JObj [] (map (\<lambda>(k, j). (htmlEscape k, compactJson j)) kvs)"
| "compactJson j = j"

section \<open>Integers\<close>

definition intText :: "int \<Rightarrow> string" where
  "intText i = (if i < 0 then CHR ''-'' # decimal (- i) else decimal i)"

definition parseIntText :: "string \<Rightarrow> int option" where
  "parseIntText s =
     (case optSign s of (sign, ds) \<Rightarrow>
        if ds \<noteq> [] \<and> list_all isDigit ds
        then Some (if sign = [] then digitsValue ds else - digitsValue ds) else None)"

section \<open>Schemas and values\<close>

datatype jtype =
    JTBool
  | JTString
  | JTInt
  | JTUint nat
  | JTFloat
  | JTRaw
  | JTTime
  | JTPtr jtype
  | JTSlice jtype
  | JTMap jtype
  | JTStruct "(string \<times> bool \<times> jtype) list"

datatype jval =
    VBool bool
  | VString string
  | VInt int
  | VFloat "64 word"
  | VRaw "string option"
  | VTime Time
  | VPtr "jval option"
  | VSlice "jval list"
  | VMap "(string \<times> jval) list"
  | VStruct "jval list"

fun zeroJ :: "jtype \<Rightarrow> jval" where
  "zeroJ JTBool = VBool False"
| "zeroJ JTString = VString []"
| "zeroJ JTInt = VInt 0"
| "zeroJ (JTUint w) = VInt 0"
| "zeroJ JTFloat = VFloat 0"
| "zeroJ JTRaw = VRaw None"
| "zeroJ JTTime = VTime 0"
| "zeroJ (JTPtr t) = VPtr None"
| "zeroJ (JTSlice t) = VSlice []"
| "zeroJ (JTMap t) = VMap []"
| "zeroJ (JTStruct fs) = VStruct (map (\<lambda>(name, omit, t). zeroJ t) fs)"

fun isEmptyValue :: "jval \<Rightarrow> bool" where
  "isEmptyValue (VBool b) = (\<not> b)"
| "isEmptyValue (VString s) = (s = [])"
| "isEmptyValue (VInt i) = (i = 0)"
| "isEmptyValue (VFloat f) = isZeroFloat f"
| "isEmptyValue (VRaw r) = (r = None \<or> r = Some [])"
| "isEmptyValue (VPtr p) = (p = None)"
| "isEmptyValue (VSlice vs) = (vs = [])"
| "isEmptyValue (VMap m) = (m = [])"
| "isEmptyValue _ = False"

section \<open>Marshal\<close>

abbreviation unsupported :: "'a res" where
  "unsupported \<equiv> Inl (ErrMsg ''json: unsupported value'')"

text \<open>A nil slice or map is \<^verbatim>\<open>null\<close>; the elements of a map are written in the order of their keys.\<close>

fun encodeJ :: "jtype \<Rightarrow> jval \<Rightarrow> json res"
  and encodeFields :: "(string \<times> bool \<times> jtype) list \<Rightarrow> jval list \<Rightarrow> (string \<times> json) list res"
where
  "encodeJ JTBool v = (case v of VBool b \<Rightarrow> Inr (JBool b) | _ \<Rightarrow> unsupported)"
| "encodeJ JTString v = (case v of VString s \<Rightarrow> Inr (JStr (quoteChars s)) | _ \<Rightarrow> unsupported)"
| "encodeJ JTInt v = (case v of VInt i \<Rightarrow> Inr (JNum (intText i)) | _ \<Rightarrow> unsupported)"
| "encodeJ (JTUint w) v = (case v of VInt i \<Rightarrow> Inr (JNum (intText i)) | _ \<Rightarrow> unsupported)"
| "encodeJ JTFloat v =
     (case v of
        VFloat f \<Rightarrow> (case formatFloat f of None \<Rightarrow> unsupported | Some t \<Rightarrow> Inr (JNum t))
      | _ \<Rightarrow> unsupported)"
| "encodeJ JTRaw v =
     (case v of
        VRaw None \<Rightarrow> Inr JNull
      | VRaw (Some s) \<Rightarrow> (case parseJson s of None \<Rightarrow> unsupported | Some j \<Rightarrow> Inr (compactJson j))
      | _ \<Rightarrow> unsupported)"
| "encodeJ JTTime v =
     (case v of
        VTime t \<Rightarrow> if 0 \<le> yearOf t \<and> yearOf t \<le> 9999 then Inr (JStr (formatRFC3339Nano t)) else unsupported
      | _ \<Rightarrow> unsupported)"
| "encodeJ (JTPtr ty) v = (case v of VPtr None \<Rightarrow> Inr JNull | VPtr (Some w) \<Rightarrow> encodeJ ty w | _ \<Rightarrow> unsupported)"
| "encodeJ (JTSlice ty) v =
     (case v of
        VSlice vs \<Rightarrow> if vs = [] then Inr JNull else rbind (mapRes (encodeJ ty) vs) (\<lambda>js. Inr (JArr [] js))
      | _ \<Rightarrow> unsupported)"
| "encodeJ (JTMap ty) v =
     (case v of
        VMap m \<Rightarrow>
          if m = [] then Inr JNull
          else rbind (mapRes (\<lambda>(k, w). rbind (encodeJ ty w) (\<lambda>j. Inr (quoteChars k, j))) (sort_key fst m))
                 (\<lambda>kvs. Inr (JObj [] kvs))
      | _ \<Rightarrow> unsupported)"
| "encodeJ (JTStruct fs) v =
     (case v of VStruct vs \<Rightarrow> rbind (encodeFields fs vs) (\<lambda>kvs. Inr (JObj [] kvs)) | _ \<Rightarrow> unsupported)"
| "encodeFields [] vs = (if vs = [] then Inr [] else unsupported)"
| "encodeFields (f # fs) vs =
     (case (f, vs) of
        ((name, omit, ty), v # vs') \<Rightarrow>
          if omit \<and> isEmptyValue v then encodeFields fs vs'
          else rbind (encodeJ ty v) (\<lambda>j. rbind (encodeFields fs vs') (\<lambda>kvs. Inr ((name, j) # kvs)))
      | _ \<Rightarrow> unsupported)"

definition marshal :: "jtype \<Rightarrow> jval \<Rightarrow> string res" where
  "marshal ty v = rbind (encodeJ ty v) (\<lambda>j. Inr (printJson j))"

section \<open>Unmarshal\<close>

text \<open>
  Names of struct fields match exactly or, failing that, with Unicode case folding; the only letters
  outside ASCII that fold into it are the long s and the Kelvin sign.
\<close>

fun foldName :: "string \<Rightarrow> string" where
  "foldName [] = []"
| "foldName (a # s) =
     (if byteIn 97 122 a then char_of (of_char a - 32 :: nat) # foldName s
      else (case s of
        [] \<Rightarrow> [a]
      | b # s1 \<Rightarrow>
          if a = CHR 0xC5 \<and> b = CHR 0xBF then CHR ''S'' # foldName s1
          else (case s1 of
            [] \<Rightarrow> a # foldName s
          | c # s2 \<Rightarrow>
              if a = CHR 0xE2 \<and> b = CHR 0x84 \<and> c = CHR 0xAA then CHR ''K'' # foldName s2
              else a # foldName s)))"

definition matchField :: "(string \<times> bool \<times> jtype) list \<Rightarrow> string \<Rightarrow> string option" where
  "matchField fs key =
     (if key \<in> set (map fst fs) then Some key
      else find (\<lambda>name. foldName name = foldName key) (map fst fs))"

fun foldRes :: "('a \<Rightarrow> 's \<Rightarrow> 's res) \<Rightarrow> 'a list \<Rightarrow> 's \<Rightarrow> 's res" where
  "foldRes f [] s = Inr s"
| "foldRes f (x # xs) s = rbind (f x s) (foldRes f xs)"

abbreviation mismatch :: "'a res" where
  "mismatch \<equiv> Inl (ErrMsg ''json: cannot unmarshal'')"

text \<open>
  Decoding into a value that may hold something already, as duplicate members do: \<^verbatim>\<open>null\<close> keeps it
  (or clears a pointer, slice or map), an object adds to a map or a struct, an array is decoded over the
  elements of the slice.
\<close>

fun decodeJ :: "jtype \<Rightarrow> json \<Rightarrow> jval \<Rightarrow> jval res"
  and decodeField :: "(string \<times> bool \<times> jtype) list \<Rightarrow> string \<Rightarrow> json \<Rightarrow> jval list \<Rightarrow> jval list res"
where
  "decodeJ JTBool j old = (case j of JNull \<Rightarrow> Inr old | JBool b \<Rightarrow> Inr (VBool b) | _ \<Rightarrow> mismatch)"
| "decodeJ JTString j old = (case j of JNull \<Rightarrow> Inr old | JStr t \<Rightarrow> Inr (VString (unquoteChars t)) | _ \<Rightarrow> mismatch)"
| "decodeJ JTInt j old =
     (case j of
        JNull \<Rightarrow> Inr old
      | JNum n \<Rightarrow> (case parseIntText n of
            Some i \<Rightarrow> if - (2 ^ 63) \<le> i \<and> i < 2 ^ 63 then Inr (VInt i) else mismatch
          | None \<Rightarrow> mismatch)
      | _ \<Rightarrow> mismatch)"
| "decodeJ (JTUint w) j old =
     (case j of
        JNull \<Rightarrow> Inr old
      | JNum n \<Rightarrow> (case parseIntText n of
            Some i \<Rightarrow> if fst (optSign n) = [] \<and> i < 2 ^ w then Inr (VInt i) else mismatch
          | None \<Rightarrow> mismatch)
      | _ \<Rightarrow> mismatch)"
| "decodeJ JTFloat j old =
     (case j of
        JNull \<Rightarrow> Inr old
      | JNum n \<Rightarrow> (case parseFloat n of Some f \<Rightarrow> Inr (VFloat f) | None \<Rightarrow> mismatch)
      | _ \<Rightarrow> mismatch)"
| "decodeJ JTRaw j old = Inr (VRaw (Some (sourceOf j)))"
| "decodeJ JTTime j old =
     (case j of
        JNull \<Rightarrow> Inr old
      | JStr t \<Rightarrow> (case parseRFC3339 True t of Some x \<Rightarrow> Inr (VTime x) | None \<Rightarrow> mismatch)
      | _ \<Rightarrow> mismatch)"
| "decodeJ (JTPtr ty) j old =
     (if j = JNull then Inr (VPtr None)
      else rbind (decodeJ ty j (case old of VPtr (Some v) \<Rightarrow> v | _ \<Rightarrow> zeroJ ty)) (\<lambda>v. Inr (VPtr (Some v))))"
| "decodeJ (JTSlice ty) j old =
     (case j of
        JNull \<Rightarrow> Inr (VSlice [])
      | JArr src js \<Rightarrow>
          rbind (mapRes (\<lambda>(x, v). decodeJ ty x v)
                   (zip js ((case old of VSlice vs \<Rightarrow> vs | _ \<Rightarrow> []) @ replicate (length js) (zeroJ ty))))
            (\<lambda>vs. Inr (VSlice vs))
      | _ \<Rightarrow> mismatch)"
| "decodeJ (JTMap ty) j old =
     (case j of
        JNull \<Rightarrow> Inr (VMap [])
      | JObj src kvs \<Rightarrow>
          rbind (foldRes (\<lambda>(k, x) m. rbind (decodeJ ty x (zeroJ ty)) (\<lambda>v. Inr (AList.update (unquoteChars k) v m)))
                   kvs (case old of VMap m \<Rightarrow> m | _ \<Rightarrow> [])) (\<lambda>m. Inr (VMap m))
      | _ \<Rightarrow> mismatch)"
| "decodeJ (JTStruct fs) j old =
     (case j of
        JNull \<Rightarrow> Inr old
      | JObj src kvs \<Rightarrow>
          rbind (foldRes (\<lambda>(k, x) vs.
                    case matchField fs (unquoteChars k) of
                      None \<Rightarrow> Inl (ErrMsg ''json: unknown field'')
                    | Some name \<Rightarrow> decodeField fs name x vs)
                   kvs (case old of VStruct vs \<Rightarrow> vs | _ \<Rightarrow> [])) (\<lambda>vs. Inr (VStruct vs))
      | _ \<Rightarrow> mismatch)"
| "decodeField [] name j vs = mismatch"
| "decodeField (f # fs) name j vs =
     (case (f, vs) of
        ((n, omit, ty), v # vs') \<Rightarrow>
          if n = name then rbind (decodeJ ty j v) (\<lambda>v'. Inr (v' # vs'))
          else rbind (decodeField fs name j vs') (\<lambda>vs''. Inr (v # vs''))
      | _ \<Rightarrow> mismatch)"

text \<open>One document and nothing after it: \<^verbatim>\<open>Decode\<close> followed by \<^verbatim>\<open>ensureJSONEOF\<close>.\<close>

definition unmarshal :: "jtype \<Rightarrow> string \<Rightarrow> jval res" where
  "unmarshal ty s =
     (case parseJson s of
        None \<Rightarrow> Inl (ErrMsg ''json: invalid document'')
      | Some j \<Rightarrow> decodeJ ty j (zeroJ ty))"

end
