(* ===== verification/Wire.thy ===== *)
theory Wire
  imports Json_Codec Definitions
begin

text \<open>
  The wire structs of \<^verbatim>\<open>codec.go\<close>. Each struct is a record, the tags of its fields are a schema, and the
  functions \<open>\<dots>J\<close> and \<open>\<dots>OfJ\<close> go between the record and the generic value that the JSON package sees by
  reflection.
\<close>

section \<open>Named types\<close>

definition typeNames :: "(Type \<times> string) list" where
  "typeNames = [(TypeBoolean, ''boolean''), (TypeString, ''string''), (TypeInteger, ''integer''),
     (TypeFloat, ''float''), (TypeDecimal, ''decimal''), (TypeStructured, ''structured'')]"

definition typeName :: "Type \<Rightarrow> string" where
  "typeName t = (case t of OtherType s \<Rightarrow> s | _ \<Rightarrow> the (map_of typeNames t))"

definition typeOfName :: "string \<Rightarrow> Type" where
  "typeOfName s = (case find (\<lambda>(t, n). n = s) typeNames of Some (t, n) \<Rightarrow> t | None \<Rightarrow> OtherType s)"

definition lifecycleNames :: "(Lifecycle \<times> string) list" where
  "lifecycleNames = [(LifecycleDraft, ''draft''), (LifecycleActive, ''active''), (LifecycleInactive, ''inactive''),
     (LifecycleDeprecated, ''deprecated''), (LifecycleArchived, ''archived'')]"

definition lifecycleName :: "Lifecycle \<Rightarrow> string" where
  "lifecycleName l = (case l of OtherLifecycle s \<Rightarrow> s | _ \<Rightarrow> the (map_of lifecycleNames l))"

definition lifecycleOfName :: "string \<Rightarrow> Lifecycle" where
  "lifecycleOfName s = (case find (\<lambda>(l, n). n = s) lifecycleNames of Some (l, n) \<Rightarrow> l | None \<Rightarrow> OtherLifecycle s)"

section \<open>Structs\<close>

record valueWire =
  vwType :: Type
  vwBoolean :: "bool option"
  vwString :: "string option"
  vwInteger :: "64 word option"
  vwFloat :: "64 word option"
  vwStructured :: "string option"

record weeklyWire =
  wwWeekday :: int
  wwStartMinute :: int
  wwEndMinute :: int

record strategyWire =
  swKind :: string
  swName :: string
  swVariant :: string
  swTenants :: "string list"
  swSubjects :: "string list"
  swEnvironments :: "string list"
  swAttributes :: "string gomap"
  swAllowTenants :: "string list"
  swDenyTenants :: "string list"
  swAllowSubjects :: "string list"
  swDenySubjects :: "string list"
  swSeed :: string
  swThreshold :: "32 word"
  swNotBefore :: string
  swNotAfter :: string
  swLocation :: string
  swWindows :: "weeklyWire list"
  swFact :: string
  swEquals :: "valueWire option"

record dependencyWire =
  dwFeatureKey :: string
  dwRequiredVariant :: string

record groupWire =
  gwKey :: string
  gwParent :: string
  gwMetadata :: "string gomap"
  gwOwner :: string
  gwTags :: "string list"
  gwVersion :: "64 word"
  gwStrategies :: "strategyWire list"

record definitionWire =
  wKey :: string
  wType :: Type
  wDefault :: valueWire
  wVariants :: "valueWire gomap"
  wMetadata :: "string gomap"
  wOwner :: string
  wLifecycle :: Lifecycle
  wDependencies :: "dependencyWire list"
  wGroups :: "string list"
  wTags :: "string list"
  wVersion :: "64 word"
  wStrategies :: "strategyWire list"

record documentWire =
  dcFormat :: string
  dcVersion :: int
  dcFeatures :: "definitionWire list"
  dcGroups :: "groupWire list"

section \<open>Schemas\<close>

abbreviation stringsT :: jtype where "stringsT \<equiv> JTSlice JTString"

definition valueSchema :: jtype where
  "valueSchema = JTStruct [
     (''type'', False, JTString),
     (''boolean'', True, JTPtr JTBool),
     (''string'', True, JTPtr JTString),
     (''integer'', True, JTPtr JTInt),
     (''float'', True, JTPtr JTFloat),
     (''structured'', True, JTRaw)]"

definition weeklySchema :: jtype where
  "weeklySchema = JTStruct [
     (''weekday'', False, JTInt),
     (''start_minute'', False, JTInt),
     (''end_minute'', False, JTInt)]"

definition strategySchema :: jtype where
  "strategySchema = JTStruct [
     (''kind'', False, JTString),
     (''name'', False, JTString),
     (''variant'', False, JTString),
     (''tenants'', True, stringsT),
     (''subjects'', True, stringsT),
     (''environments'', True, stringsT),
     (''attributes'', True, JTMap JTString),
     (''allow_tenants'', True, stringsT),
     (''deny_tenants'', True, stringsT),
     (''allow_subjects'', True, stringsT),
     (''deny_subjects'', True, stringsT),
     (''seed'', True, JTString),
     (''threshold'', True, JTUint 32),
     (''not_before'', True, JTString),
     (''not_after'', True, JTString),
     (''location'', True, JTString),
     (''windows'', True, JTSlice weeklySchema),
     (''fact'', True, JTString),
     (''equals'', True, JTPtr valueSchema)]"

definition dependencySchema :: jtype where
  "dependencySchema = JTStruct [
     (''feature_key'', False, JTString),
     (''required_variant'', False, JTString)]"

definition groupSchema :: jtype where
  "groupSchema = JTStruct [
     (''key'', False, JTString),
     (''parent'', True, JTString),
     (''metadata'', True, JTMap JTString),
     (''owner'', True, JTString),
     (''tags'', True, stringsT),
     (''version'', True, JTUint 64),
     (''strategies'', True, JTSlice strategySchema)]"

definition definitionSchema :: jtype where
  "definitionSchema = JTStruct [
     (''key'', False, JTString),
     (''type'', False, JTString),
     (''default'', False, valueSchema),
     (''variants'', True, JTMap valueSchema),
     (''metadata'', True, JTMap JTString),
     (''owner'', True, JTString),
     (''lifecycle'', True, JTString),
     (''dependencies'', True, JTSlice dependencySchema),
     (''groups'', True, stringsT),
     (''tags'', True, stringsT),
     (''version'', True, JTUint 64),
     (''strategies'', True, JTSlice strategySchema)]"

definition documentSchema :: jtype where
  "documentSchema = JTStruct [
     (''format'', False, JTString),
     (''version'', False, JTInt),
     (''features'', False, JTSlice definitionSchema),
     (''groups'', True, JTSlice groupSchema)]"

section \<open>Records as generic values\<close>

abbreviation stringsJ :: "string list \<Rightarrow> jval" where
  "stringsJ ss \<equiv> VSlice (map VString ss)"

definition mapJ :: "('a \<Rightarrow> jval) \<Rightarrow> 'a gomap \<Rightarrow> jval" where
  "mapJ f m = VMap (map (\<lambda>(k, v). (k, f v)) m)"

definition valueJ :: "valueWire \<Rightarrow> jval" where
  "valueJ w = VStruct [
     VString (typeName (vwType w)),
     VPtr (map_option VBool (vwBoolean w)),
     VPtr (map_option VString (vwString w)),
     VPtr (map_option (\<lambda>i. VInt (sint i)) (vwInteger w)),
     VPtr (map_option VFloat (vwFloat w)),
     VRaw (vwStructured w)]"

definition weeklyJ :: "weeklyWire \<Rightarrow> jval" where
  "weeklyJ w = VStruct [VInt (wwWeekday w), VInt (wwStartMinute w), VInt (wwEndMinute w)]"

definition strategyJ :: "strategyWire \<Rightarrow> jval" where
  "strategyJ w = VStruct [
     VString (swKind w), VString (swName w), VString (swVariant w),
     stringsJ (swTenants w), stringsJ (swSubjects w), stringsJ (swEnvironments w),
     mapJ VString (swAttributes w),
     stringsJ (swAllowTenants w), stringsJ (swDenyTenants w),
     stringsJ (swAllowSubjects w), stringsJ (swDenySubjects w),
     VString (swSeed w), VInt (uint (swThreshold w)),
     VString (swNotBefore w), VString (swNotAfter w), VString (swLocation w),
     VSlice (map weeklyJ (swWindows w)), VString (swFact w), VPtr (map_option valueJ (swEquals w))]"

definition dependencyJ :: "dependencyWire \<Rightarrow> jval" where
  "dependencyJ w = VStruct [VString (dwFeatureKey w), VString (dwRequiredVariant w)]"

definition groupJ :: "groupWire \<Rightarrow> jval" where
  "groupJ w = VStruct [
     VString (gwKey w), VString (gwParent w), mapJ VString (gwMetadata w), VString (gwOwner w),
     stringsJ (gwTags w), VInt (uint (gwVersion w)), VSlice (map strategyJ (gwStrategies w))]"

definition definitionJ :: "definitionWire \<Rightarrow> jval" where
  "definitionJ w = VStruct [
     VString (wKey w), VString (typeName (wType w)), valueJ (wDefault w), mapJ valueJ (wVariants w),
     mapJ VString (wMetadata w), VString (wOwner w), VString (lifecycleName (wLifecycle w)),
     VSlice (map dependencyJ (wDependencies w)), stringsJ (wGroups w), stringsJ (wTags w),
     VInt (uint (wVersion w)), VSlice (map strategyJ (wStrategies w))]"

definition documentJ :: "documentWire \<Rightarrow> jval" where
  "documentJ w = VStruct [
     VString (dcFormat w), VInt (dcVersion w),
     VSlice (map definitionJ (dcFeatures w)), VSlice (map groupJ (dcGroups w))]"

section \<open>Generic values as records\<close>

fun boolOfJ :: "jval \<Rightarrow> bool" where
  "boolOfJ (VBool b) = b"
| "boolOfJ _ = False"

fun stringOfJ :: "jval \<Rightarrow> string" where
  "stringOfJ (VString s) = s"
| "stringOfJ _ = []"

fun intOfJ :: "jval \<Rightarrow> int" where
  "intOfJ (VInt i) = i"
| "intOfJ _ = 0"

fun floatOfJ :: "jval \<Rightarrow> 64 word" where
  "floatOfJ (VFloat f) = f"
| "floatOfJ _ = 0"

fun rawOfJ :: "jval \<Rightarrow> string option" where
  "rawOfJ (VRaw r) = r"
| "rawOfJ _ = None"

fun timeOfJ :: "jval \<Rightarrow> Time" where
  "timeOfJ (VTime t) = t"
| "timeOfJ _ = 0"

fun ptrOfJ :: "(jval \<Rightarrow> 'a) \<Rightarrow> jval \<Rightarrow> 'a option" where
  "ptrOfJ f (VPtr p) = map_option f p"
| "ptrOfJ f _ = None"

fun sliceOfJ :: "(jval \<Rightarrow> 'a) \<Rightarrow> jval \<Rightarrow> 'a list" where
  "sliceOfJ f (VSlice vs) = map f vs"
| "sliceOfJ f _ = []"

fun mapOfJ :: "(jval \<Rightarrow> 'a) \<Rightarrow> jval \<Rightarrow> 'a gomap" where
  "mapOfJ f (VMap m) = map (\<lambda>(k, v). (k, f v)) m"
| "mapOfJ f _ = []"

fun fieldJ :: "jval \<Rightarrow> nat \<Rightarrow> jval" where
  "fieldJ (VStruct vs) i = vs ! i"
| "fieldJ v i = v"

abbreviation stringsOfJ :: "jval \<Rightarrow> string list" where
  "stringsOfJ \<equiv> sliceOfJ stringOfJ"

definition valueOfJ :: "jval \<Rightarrow> valueWire" where
  "valueOfJ v = \<lparr>
     vwType = typeOfName (stringOfJ (fieldJ v 0)),
     vwBoolean = ptrOfJ boolOfJ (fieldJ v 1),
     vwString = ptrOfJ stringOfJ (fieldJ v 2),
     vwInteger = ptrOfJ (\<lambda>i. word_of_int (intOfJ i)) (fieldJ v 3),
     vwFloat = ptrOfJ floatOfJ (fieldJ v 4),
     vwStructured = rawOfJ (fieldJ v 5) \<rparr>"

definition weeklyOfJ :: "jval \<Rightarrow> weeklyWire" where
  "weeklyOfJ v = \<lparr> wwWeekday = intOfJ (fieldJ v 0), wwStartMinute = intOfJ (fieldJ v 1), wwEndMinute = intOfJ (fieldJ v 2) \<rparr>"

definition strategyOfJ :: "jval \<Rightarrow> strategyWire" where
  "strategyOfJ v = \<lparr>
     swKind = stringOfJ (fieldJ v 0), swName = stringOfJ (fieldJ v 1), swVariant = stringOfJ (fieldJ v 2),
     swTenants = stringsOfJ (fieldJ v 3), swSubjects = stringsOfJ (fieldJ v 4), swEnvironments = stringsOfJ (fieldJ v 5),
     swAttributes = mapOfJ stringOfJ (fieldJ v 6),
     swAllowTenants = stringsOfJ (fieldJ v 7), swDenyTenants = stringsOfJ (fieldJ v 8),
     swAllowSubjects = stringsOfJ (fieldJ v 9), swDenySubjects = stringsOfJ (fieldJ v 10),
     swSeed = stringOfJ (fieldJ v 11), swThreshold = word_of_int (intOfJ (fieldJ v 12)),
     swNotBefore = stringOfJ (fieldJ v 13), swNotAfter = stringOfJ (fieldJ v 14), swLocation = stringOfJ (fieldJ v 15),
     swWindows = sliceOfJ weeklyOfJ (fieldJ v 16), swFact = stringOfJ (fieldJ v 17),
     swEquals = ptrOfJ valueOfJ (fieldJ v 18) \<rparr>"

definition dependencyOfJ :: "jval \<Rightarrow> dependencyWire" where
  "dependencyOfJ v = \<lparr> dwFeatureKey = stringOfJ (fieldJ v 0), dwRequiredVariant = stringOfJ (fieldJ v 1) \<rparr>"

definition groupOfJ :: "jval \<Rightarrow> groupWire" where
  "groupOfJ v = \<lparr>
     gwKey = stringOfJ (fieldJ v 0), gwParent = stringOfJ (fieldJ v 1), gwMetadata = mapOfJ stringOfJ (fieldJ v 2),
     gwOwner = stringOfJ (fieldJ v 3), gwTags = stringsOfJ (fieldJ v 4), gwVersion = word_of_int (intOfJ (fieldJ v 5)),
     gwStrategies = sliceOfJ strategyOfJ (fieldJ v 6) \<rparr>"

definition definitionOfJ :: "jval \<Rightarrow> definitionWire" where
  "definitionOfJ v = \<lparr>
     wKey = stringOfJ (fieldJ v 0), wType = typeOfName (stringOfJ (fieldJ v 1)), wDefault = valueOfJ (fieldJ v 2),
     wVariants = mapOfJ valueOfJ (fieldJ v 3), wMetadata = mapOfJ stringOfJ (fieldJ v 4), wOwner = stringOfJ (fieldJ v 5),
     wLifecycle = lifecycleOfName (stringOfJ (fieldJ v 6)), wDependencies = sliceOfJ dependencyOfJ (fieldJ v 7),
     wGroups = stringsOfJ (fieldJ v 8), wTags = stringsOfJ (fieldJ v 9), wVersion = word_of_int (intOfJ (fieldJ v 10)),
     wStrategies = sliceOfJ strategyOfJ (fieldJ v 11) \<rparr>"

definition documentOfJ :: "jval \<Rightarrow> documentWire" where
  "documentOfJ v = \<lparr>
     dcFormat = stringOfJ (fieldJ v 0), dcVersion = intOfJ (fieldJ v 1),
     dcFeatures = sliceOfJ definitionOfJ (fieldJ v 2), dcGroups = sliceOfJ groupOfJ (fieldJ v 3) \<rparr>"

end
