(* ===== verification/Codec.thy ===== *)
theory Codec
  imports Wire Snapshots "HOL-Library.Product_Lexorder"
begin

text \<open>
  \<^verbatim>\<open>codec.go\<close>: the portable document. \<open>Export\<close> validates, sorts, translates to the wire structs and
  marshals them; \<open>Import\<close> bounds the bytes, unmarshals, translates back and validates.
\<close>

definition documentFormat :: string where "documentFormat = ''go-feature-flags''"
definition documentVersion :: int where "documentVersion = 1"

section \<open>Strings and times\<close>

definition sortedStrings :: "string list \<Rightarrow> string list" where
  "sortedStrings values = sort values"

definition formatOptionalTime :: "Time \<Rightarrow> string" where
  "formatOptionalTime t = (if t = 0 then [] else formatRFC3339Nano t)"

definition parseOptionalTime :: "string \<Rightarrow> Time res" where
  "parseOptionalTime s =
     (if s = [] then Inr 0
      else case parseRFC3339 False s of
        Some t \<Rightarrow> Inr t
      | None \<Rightarrow> Inl (ErrMsg ''parse strategy time''))"

section \<open>Values\<close>

definition emptyValueWire :: "Type \<Rightarrow> valueWire" where
  "emptyValueWire t = \<lparr> vwType = t, vwBoolean = None, vwString = None, vwInteger = None, vwFloat = None,
     vwStructured = None \<rparr>"

definition encodeValue :: "Value \<Rightarrow> valueWire" where
  "encodeValue v = (let wire = emptyValueWire (vtyp v) in
     case vtyp v of
       TypeBoolean \<Rightarrow> wire\<lparr> vwBoolean := Some (vboolean v) \<rparr>
     | TypeString \<Rightarrow> wire\<lparr> vwString := Some (vtext v) \<rparr>
     | TypeDecimal \<Rightarrow> wire\<lparr> vwString := Some (vtext v) \<rparr>
     | TypeInteger \<Rightarrow> wire\<lparr> vwInteger := Some (vinteger v) \<rparr>
     | TypeFloat \<Rightarrow> wire\<lparr> vwFloat := Some (vfloating v) \<rparr>
     | TypeStructured \<Rightarrow>
         wire\<lparr> vwStructured := (if vstructured v = [] then None else Some (vstructured v)) \<rparr>
     | OtherType _ \<Rightarrow> wire)"

definition payload :: "('a \<Rightarrow> Value) \<Rightarrow> 'a option \<Rightarrow> Value res" where
  "payload build p = (case p of None \<Rightarrow> Inl ErrInvalidValue | Some x \<Rightarrow> Inr (build x))"

definition decodeValue :: "valueWire \<Rightarrow> Value res" where
  "decodeValue wire =
     (case vwType wire of
        TypeBoolean \<Rightarrow> payload BooleanValue (vwBoolean wire)
      | TypeString \<Rightarrow> payload StringValue (vwString wire)
      | TypeInteger \<Rightarrow> payload IntegerValue (vwInteger wire)
      | TypeFloat \<Rightarrow> payload FloatValue (vwFloat wire)
      | TypeDecimal \<Rightarrow> payload DecimalValue (vwString wire)
      | TypeStructured \<Rightarrow> payload StructuredValue (vwStructured wire)
      | OtherType _ \<Rightarrow> Inl ErrInvalidValue)"

section \<open>Strategies\<close>

definition emptyStrategyWire :: "string \<Rightarrow> string \<Rightarrow> strategyWire" where
  "emptyStrategyWire name variant = \<lparr>
     swKind = [], swName = name, swVariant = variant, swTenants = [], swSubjects = [], swEnvironments = [],
     swAttributes = [], swAllowTenants = [], swDenyTenants = [], swAllowSubjects = [], swDenySubjects = [],
     swSeed = [], swThreshold = 0, swNotBefore = [], swNotAfter = [], swLocation = [], swWindows = [],
     swFact = [], swEquals = None \<rparr>"

definition encodeWindow :: "WeeklyWindow \<Rightarrow> weeklyWire" where
  "encodeWindow w = \<lparr> wwWeekday = Weekday w, wwStartMinute = StartMinute w, wwEndMinute = EndMinute w \<rparr>"

definition decodeWindow :: "weeklyWire \<Rightarrow> WeeklyWindow" where
  "decodeWindow w = \<lparr> Weekday = wwWeekday w, StartMinute = wwStartMinute w, EndMinute = wwEndMinute w \<rparr>"

definition encodeStrategy :: "Strategy \<Rightarrow> strategyWire res" where
  "encodeStrategy s = (let wire = emptyStrategyWire (StrategyName s) (TargetVariant s) in
     case s of
       Exact v \<Rightarrow> Inr (wire\<lparr> swKind := ''exact'', swTenants := sortedStrings (etTenants v),
         swSubjects := sortedStrings (etSubjects v), swEnvironments := sortedStrings (etEnvironments v),
         swAttributes := etAttributes v \<rparr>)
     | Percentage v \<Rightarrow> Inr (wire\<lparr> swKind := ''percentage'', swSeed := pcSeed v, swThreshold := pcThreshold v \<rparr>)
     | Sets v \<Rightarrow> Inr (wire\<lparr> swKind := ''set'', swAllowTenants := sortedStrings (ssAllowTenants v),
         swDenyTenants := sortedStrings (ssDenyTenants v), swAllowSubjects := sortedStrings (ssAllowSubjects v),
         swDenySubjects := sortedStrings (ssDenySubjects v) \<rparr>)
     | TimeWindow v \<Rightarrow> Inr (wire\<lparr> swKind := ''time_window'', swNotBefore := formatOptionalTime (twNotBefore v),
         swNotAfter := formatOptionalTime (twNotAfter v) \<rparr>)
     | Schedule v \<Rightarrow> Inr (wire\<lparr> swKind := ''schedule'', swLocation := scLocation v,
         swWindows := map encodeWindow (scWindows v) \<rparr>)
     | Fact v \<Rightarrow> Inr (wire\<lparr> swKind := ''fact'', swFact := fsFact v, swEquals := Some (encodeValue (fsEquals v)) \<rparr>)
     | Custom v \<Rightarrow> Inl ErrUnsupportedStrategy
     | NilStrategy \<Rightarrow> Inl ErrNilPanic)"

definition decodeTimeWindow :: "strategyWire \<Rightarrow> Strategy res" where
  "decodeTimeWindow wire =
     rbind (parseOptionalTime (swNotBefore wire)) (\<lambda>notBefore.
     rbind (parseOptionalTime (swNotAfter wire)) (\<lambda>notAfter.
     Inr (TimeWindow \<lparr> twName = swName wire, twVariant = swVariant wire, twNotBefore = notBefore, twNotAfter = notAfter \<rparr>)))"

definition decodeFactStrategy :: "strategyWire \<Rightarrow> Strategy res" where
  "decodeFactStrategy wire =
     (case swEquals wire of
        None \<Rightarrow> Inl (ErrMsg ''fact strategy has no value'')
      | Some equals \<Rightarrow> rbind (decodeValue equals) (\<lambda>v.
          Inr (Fact \<lparr> fsName = swName wire, fsVariant = swVariant wire, fsFact = swFact wire, fsEquals = v \<rparr>)))"

definition decodeStrategy :: "strategyWire \<Rightarrow> Strategy res" where
  "decodeStrategy wire =
     (if swKind wire = ''exact'' then
        Inr (Exact \<lparr> etName = swName wire, etVariant = swVariant wire, etTenants = swTenants wire,
          etSubjects = swSubjects wire, etEnvironments = swEnvironments wire, etAttributes = swAttributes wire \<rparr>)
      else if swKind wire = ''percentage'' then
        Inr (Percentage \<lparr> pcName = swName wire, pcVariant = swVariant wire, pcSeed = swSeed wire, pcThreshold = swThreshold wire \<rparr>)
      else if swKind wire = ''set'' then
        Inr (Sets \<lparr> ssName = swName wire, ssVariant = swVariant wire, ssAllowTenants = swAllowTenants wire,
          ssDenyTenants = swDenyTenants wire, ssAllowSubjects = swAllowSubjects wire, ssDenySubjects = swDenySubjects wire \<rparr>)
      else if swKind wire = ''time_window'' then decodeTimeWindow wire
      else if swKind wire = ''schedule'' then
        Inr (Schedule \<lparr> scName = swName wire, scVariant = swVariant wire, scLocation = swLocation wire,
          scWindows = map decodeWindow (swWindows wire) \<rparr>)
      else if swKind wire = ''fact'' then decodeFactStrategy wire
      else Inl ErrUnsupportedStrategy)"

section \<open>Definitions and groups\<close>

definition encodeDependency :: "Dependency \<Rightarrow> dependencyWire" where
  "encodeDependency d = \<lparr> dwFeatureKey = FeatureKey d, dwRequiredVariant = RequiredVariant d \<rparr>"

definition decodeDependency :: "dependencyWire \<Rightarrow> Dependency" where
  "decodeDependency w = \<lparr> FeatureKey = dwFeatureKey w, RequiredVariant = dwRequiredVariant w \<rparr>"

text \<open>The comparison orders by feature key, then by variant.\<close>

definition sortDependencies :: "Dependency list \<Rightarrow> Dependency list" where
  "sortDependencies ds = sort_key (\<lambda>d. (FeatureKey d, RequiredVariant d)) ds"

definition encodeDefinition :: "Definition \<Rightarrow> definitionWire res" where
  "encodeDefinition d =
     rbind (mapRes encodeStrategy (dStrategies d)) (\<lambda>strategies. Inr \<lparr>
       wKey = dKey d, wType = dType d, wDefault = encodeValue (dDefault d),
       wVariants = map (\<lambda>(name, v). (name, encodeValue v)) (dVariants d),
       wMetadata = dMetadata d, wOwner = dOwner d, wLifecycle = dLifecycle d,
       wDependencies = map encodeDependency (sortDependencies (dDependencies d)),
       wGroups = dGroups d, wTags = sortedStrings (dTags d), wVersion = dVersion d,
       wStrategies = strategies \<rparr>)"

definition decodeDefinition :: "definitionWire \<Rightarrow> Definition res" where
  "decodeDefinition wire =
     rbind (decodeValue (wDefault wire)) (\<lambda>defaultValue.
     rbind (mapRes (\<lambda>(name, encoded). rbind (decodeValue encoded) (\<lambda>v. Inr (name, v))) (wVariants wire)) (\<lambda>variants.
     rbind (mapRes decodeStrategy (wStrategies wire)) (\<lambda>strategies. Inr \<lparr>
       dKey = wKey wire, dType = wType wire, dDefault = defaultValue, dVariants = variants,
       dMetadata = wMetadata wire, dOwner = wOwner wire, dLifecycle = wLifecycle wire,
       dDependencies = map decodeDependency (wDependencies wire), dGroups = wGroups wire, dTags = wTags wire,
       dVersion = wVersion wire, dStrategies = strategies \<rparr>)))"

definition encodeGroup :: "GroupDefinition \<Rightarrow> groupWire res" where
  "encodeGroup g =
     rbind (mapRes encodeStrategy (gStrategies g)) (\<lambda>strategies. Inr \<lparr>
       gwKey = gKey g, gwParent = gParent g, gwMetadata = gMetadata g, gwOwner = gOwner g,
       gwTags = sortedStrings (gTags g), gwVersion = gVersion g, gwStrategies = strategies \<rparr>)"

definition decodeGroup :: "groupWire \<Rightarrow> GroupDefinition res" where
  "decodeGroup wire =
     rbind (mapRes decodeStrategy (gwStrategies wire)) (\<lambda>strategies. Inr \<lparr>
       gKey = gwKey wire, gParent = gwParent wire, gMetadata = gwMetadata wire, gOwner = gwOwner wire,
       gTags = gwTags wire, gVersion = gwVersion wire, gStrategies = strategies \<rparr>)"

section \<open>Documents\<close>

definition Export :: "env \<Rightarrow> Definition list \<Rightarrow> GroupDefinition list \<Rightarrow> Limits \<Rightarrow> string res" where
  "Export env definitions groups limits =
     rbind (NewSnapshotWithGroups env definitions groups limits) (\<lambda>_.
     rbind (mapRes encodeDefinition (sort_key dKey definitions)) (\<lambda>features.
     rbind (mapRes encodeGroup (sort_key gKey groups)) (\<lambda>groupWires.
     marshal documentSchema (documentJ
       \<lparr> dcFormat = documentFormat, dcVersion = documentVersion, dcFeatures = features, dcGroups = groupWires \<rparr>))))"

definition decodeDocument :: "string \<Rightarrow> documentWire res" where
  "decodeDocument data = rbind (unmarshal documentSchema data) (\<lambda>v. Inr (documentOfJ v))"

definition Import :: "env \<Rightarrow> string \<Rightarrow> Limits \<Rightarrow> (Definition list \<times> GroupDefinition list) res" where
  "Import env data limits =
     (if len data > MaxImportBytes limits then Inl ErrImportLimit
      else rbind (decodeDocument data) (\<lambda>document.
        if dcFormat document \<noteq> documentFormat \<or> dcVersion document \<noteq> documentVersion
        then Inl (ErrMsg ''unsupported document'')
        else rbind (mapRes decodeDefinition (dcFeatures document)) (\<lambda>definitions.
          rbind (mapRes decodeGroup (dcGroups document)) (\<lambda>groups.
          rbind (NewSnapshotWithGroups env definitions groups limits) (\<lambda>_.
          Inr (definitions, groups))))))"

end
