(* ===== verification/Tenant_State.thy ===== *)
theory Tenant_State
  imports Codec Imports
begin

text \<open>
  Documents of a whole tenant: \<^verbatim>\<open>ExportDocument\<close> and \<^verbatim>\<open>ImportDocument\<close> of \<^verbatim>\<open>import.go\<close> on bytes, and the
  state document of \<^verbatim>\<open>durable.go\<close>, which carries the records, groups, audit log and staged changes of one
  tenant. Times are instants; a time is written in UTC.
\<close>

section \<open>Portable documents of a provider\<close>

definition ExportDocument :: "env \<Rightarrow> err option \<Rightarrow> string \<Rightarrow> MemoryProvider \<Rightarrow> string res" where
  "ExportDocument env ctx tenant p =
     guardErr (providerInput ctx tenant (MaxKeyBytes (mpLimits p)))
       (Export env
          (map (\<lambda>(key, r). cloneDefinition (mrDefinition r))
             (filter (\<lambda>(key, r). \<not> mrDeleted r) (rng env (featuresOf p tenant))))
          (groupDefinitionsLocked env p tenant) (mpLimits p))"

definition ImportBytes ::
  "env \<Rightarrow> err option \<Rightarrow> err option \<Rightarrow> string \<Rightarrow> string \<Rightarrow> ImportOptions \<Rightarrow> string \<Rightarrow> MemoryProvider \<Rightarrow>
     MemoryProvider \<times> ImportReport \<times> err option" where
  "ImportBytes env ctx ctx' tenant data options actor p =
     ImportDocument env ctx ctx' tenant (Import env data (mpLimits p)) options actor p"

section \<open>Wire structs\<close>

definition tenantStateVersion :: int where "tenantStateVersion = 1"

record tenantRecordWire =
  trDefinition :: definitionWire
  trDeleted :: bool

record stagedChangeWire =
  scwID :: "64 word"
  scwDefinition :: definitionWire
  scwExpectedVersion :: "64 word"
  scwApplyAt :: Time
  scwActor :: string

record tenantStateWire =
  tsVersion :: int
  tsRecords :: "tenantRecordWire list"
  tsGroups :: "groupWire list"
  tsAudit :: "AuditEntry list"
  tsStaged :: "stagedChangeWire list"
  tsNextStage :: "64 word"

definition actionNames :: "(AuditAction \<times> string) list" where
  "actionNames = [(AuditCreate, ''create''), (AuditUpdate, ''update''), (AuditActivate, ''activate''),
     (AuditDeactivate, ''deactivate''), (AuditDelete, ''delete''), (AuditRestore, ''restore''),
     (AuditGroupCreate, ''group_create''), (AuditGroupUpdate, ''group_update''), (AuditGroupDelete, ''group_delete''),
     (AuditAssignGroup, ''assign_group''), (AuditRemoveGroup, ''remove_group''),
     (AuditImportCreate, ''import_create''), (AuditImportUpdate, ''import_update''),
     (AuditStageUpdate, ''stage_update''), (AuditApplyStage, ''apply_stage'')]"

definition actionName :: "AuditAction \<Rightarrow> string" where
  "actionName a = (case a of OtherAuditAction s \<Rightarrow> s | _ \<Rightarrow> the (map_of actionNames a))"

definition actionOfName :: "string \<Rightarrow> AuditAction" where
  "actionOfName s = (case find (\<lambda>(a, n). n = s) actionNames of Some (a, n) \<Rightarrow> a | None \<Rightarrow> OtherAuditAction s)"

text \<open>\<^verbatim>\<open>AuditEntry\<close> has no tags: its JSON names are the names of its fields.\<close>

definition auditSchema :: jtype where
  "auditSchema = JTStruct [
     (''FeatureKey'', False, JTString),
     (''Action'', False, JTString),
     (''Actor'', False, JTString),
     (''Version'', False, JTUint 64)]"

definition tenantRecordSchema :: jtype where
  "tenantRecordSchema = JTStruct [
     (''definition'', False, definitionSchema),
     (''deleted'', True, JTBool)]"

definition stagedSchema :: jtype where
  "stagedSchema = JTStruct [
     (''id'', False, JTUint 64),
     (''definition'', False, definitionSchema),
     (''expected_version'', False, JTUint 64),
     (''apply_at'', True, JTTime),
     (''actor'', True, JTString)]"

definition tenantStateSchema :: jtype where
  "tenantStateSchema = JTStruct [
     (''version'', False, JTInt),
     (''records'', True, JTSlice tenantRecordSchema),
     (''groups'', True, JTSlice groupSchema),
     (''audit'', True, JTSlice auditSchema),
     (''staged'', True, JTSlice stagedSchema),
     (''next_stage'', True, JTUint 64)]"

definition auditJ :: "AuditEntry \<Rightarrow> jval" where
  "auditJ a = VStruct [VString (aeFeatureKey a), VString (actionName (aeAction a)), VString (aeActor a),
     VInt (uint (aeVersion a))]"

definition tenantRecordJ :: "tenantRecordWire \<Rightarrow> jval" where
  "tenantRecordJ w = VStruct [definitionJ (trDefinition w), VBool (trDeleted w)]"

definition stagedJ :: "stagedChangeWire \<Rightarrow> jval" where
  "stagedJ w = VStruct [VInt (uint (scwID w)), definitionJ (scwDefinition w), VInt (uint (scwExpectedVersion w)),
     VTime (scwApplyAt w), VString (scwActor w)]"

definition tenantStateJ :: "tenantStateWire \<Rightarrow> jval" where
  "tenantStateJ w = VStruct [
     VInt (tsVersion w), VSlice (map tenantRecordJ (tsRecords w)), VSlice (map groupJ (tsGroups w)),
     VSlice (map auditJ (tsAudit w)), VSlice (map stagedJ (tsStaged w)), VInt (uint (tsNextStage w))]"

definition auditOfJ :: "jval \<Rightarrow> AuditEntry" where
  "auditOfJ v = \<lparr> aeFeatureKey = stringOfJ (fieldJ v 0), aeAction = actionOfName (stringOfJ (fieldJ v 1)),
     aeActor = stringOfJ (fieldJ v 2), aeVersion = word_of_int (intOfJ (fieldJ v 3)) \<rparr>"

definition tenantRecordOfJ :: "jval \<Rightarrow> tenantRecordWire" where
  "tenantRecordOfJ v = \<lparr> trDefinition = definitionOfJ (fieldJ v 0), trDeleted = boolOfJ (fieldJ v 1) \<rparr>"

definition stagedOfJ :: "jval \<Rightarrow> stagedChangeWire" where
  "stagedOfJ v = \<lparr> scwID = word_of_int (intOfJ (fieldJ v 0)), scwDefinition = definitionOfJ (fieldJ v 1),
     scwExpectedVersion = word_of_int (intOfJ (fieldJ v 2)), scwApplyAt = timeOfJ (fieldJ v 3),
     scwActor = stringOfJ (fieldJ v 4) \<rparr>"

definition tenantStateOfJ :: "jval \<Rightarrow> tenantStateWire" where
  "tenantStateOfJ v = \<lparr> tsVersion = intOfJ (fieldJ v 0), tsRecords = sliceOfJ tenantRecordOfJ (fieldJ v 1),
     tsGroups = sliceOfJ groupOfJ (fieldJ v 2), tsAudit = sliceOfJ auditOfJ (fieldJ v 3),
     tsStaged = sliceOfJ stagedOfJ (fieldJ v 4), tsNextStage = word_of_int (intOfJ (fieldJ v 5)) \<rparr>"

section \<open>Writing the state\<close>

definition encodeRecord :: "memoryRecord \<Rightarrow> tenantRecordWire res" where
  "encodeRecord r = rbind (encodeDefinition (mrDefinition r)) (\<lambda>encoded.
     Inr \<lparr> trDefinition = encoded, trDeleted = mrDeleted r \<rparr>)"

definition encodeStaged :: "StagedChange \<Rightarrow> stagedChangeWire res" where
  "encodeStaged c = rbind (encodeDefinition (stDefinition c)) (\<lambda>encoded.
     Inr \<lparr> scwID = stID c, scwDefinition = encoded, scwExpectedVersion = stExpectedVersion c,
           scwApplyAt = stApplyAt c, scwActor = stActor c \<rparr>)"

text \<open>The keys of a map are sorted and each entry read back from the map.\<close>

definition sortedValues :: "('k :: linorder \<times> 'v) list \<Rightarrow> 'v list" where
  "sortedValues m = map (\<lambda>k. the (map_of m k)) (sort (map fst m))"

definition marshalTenantState :: "MemoryProvider \<Rightarrow> string \<Rightarrow> string res" where
  "marshalTenantState p tenant =
     rbind (mapRes encodeRecord (sortedValues (featuresOf p tenant))) (\<lambda>records.
     rbind (mapRes encodeGroup (sortedValues (groupsOf p tenant))) (\<lambda>groups.
     rbind (mapRes encodeStaged (sortedValues (stagedOf p tenant))) (\<lambda>staged.
     rbind (marshal tenantStateSchema (tenantStateJ
              \<lparr> tsVersion = tenantStateVersion, tsRecords = records, tsGroups = groups, tsAudit = auditOf p tenant,
                tsStaged = staged, tsNextStage = nextStageOf p tenant \<rparr>)) (\<lambda>data.
     if len data > MaxStateBytes (mpLimits p) then Inl ErrStateLimit else Inr data))))"

section \<open>Reading the state\<close>

fun decodeRecords :: "env \<Rightarrow> Limits \<Rightarrow> tenantRecordWire list \<Rightarrow> memoryRecord gomap \<Rightarrow> memoryRecord gomap res" where
  "decodeRecords env limits [] records = Inr records"
| "decodeRecords env limits (w # ws) records =
     rbind (decodeDefinition (trDefinition w)) (\<lambda>d.
     guardErr (ValidateDefinition env limits d)
       (if hasKey records (dKey d) then Inl (ErrMsg ''duplicate persisted feature'')
        else decodeRecords env limits ws
               (AList.update (dKey d) \<lparr> mrDefinition = cloneDefinition d, mrDeleted = trDeleted w \<rparr> records)))"

fun decodeStages ::
  "env \<Rightarrow> Limits \<Rightarrow> 64 word \<Rightarrow> stagedChangeWire list \<Rightarrow> (64 word \<times> StagedChange) list \<Rightarrow> (64 word \<times> StagedChange) list res" where
  "decodeStages env limits nextStage [] staged = Inr staged"
| "decodeStages env limits nextStage (w # ws) staged =
     rbind (decodeDefinition (scwDefinition w)) (\<lambda>d.
     guardErr (ValidateDefinition env limits d)
       (if scwID w = 0 \<or> scwID w > nextStage then Inl (ErrMsg ''persisted staged change has invalid id'')
        else if hasKey staged (scwID w) then Inl (ErrMsg ''duplicate persisted staged change'')
        else decodeStages env limits nextStage ws
               (AList.update (scwID w) \<lparr> stID = scwID w, stDefinition = d, stExpectedVersion = scwExpectedVersion w,
                  stApplyAt = scwApplyAt w, stActor = scwActor w \<rparr> staged)))"

definition tenantProvider ::
  "Limits \<Rightarrow> string \<Rightarrow> memoryRecord gomap \<Rightarrow> GroupDefinition gomap \<Rightarrow> AuditEntry list \<Rightarrow>
     (64 word \<times> StagedChange) list \<Rightarrow> 64 word \<Rightarrow> MemoryProvider" where
  "tenantProvider limits tenant records groups audit staged nextStage =
     (NewMemoryProvider limits)\<lparr> mpTenants := [(tenant, records)], mpGroups := [(tenant, groups)],
        mpAudit := [(tenant, audit)], mpStaged := [(tenant, staged)], mpNextStage := [(tenant, nextStage)] \<rparr>"

definition restoreTenant :: "env \<Rightarrow> Limits \<Rightarrow> string \<Rightarrow> tenantStateWire \<Rightarrow> MemoryProvider res" where
  "restoreTenant env limits tenant state =
     (if tsVersion state \<noteq> tenantStateVersion then Inl (ErrMsg ''unsupported tenant state version'')
      else rbind (decodeRecords env limits (tsRecords state) []) (\<lambda>records.
        rbind (mapRes decodeGroup (tsGroups state)) (\<lambda>groups.
        rbind (cloneAndValidateGroups env
                 (activeDefinitionsLocked ((NewMemoryProvider limits)\<lparr> mpTenants := [(tenant, records)] \<rparr>) tenant)
                 groups limits) (\<lambda>clonedGroups.
        guardErr (check (len (tsAudit state) > MaxAuditEntries limits) ''persisted audit exceeds limit'') (
        guardErr (check (len (tsStaged state) > MaxStagedChanges limits) ''persisted staged changes exceed limit'') (
        rbind (decodeStages env limits (tsNextStage state) (tsStaged state) []) (\<lambda>staged.
        Inr (tenantProvider limits tenant records clonedGroups (tsAudit state) staged (tsNextStage state)))))))))"

definition unmarshalTenantState :: "env \<Rightarrow> string \<Rightarrow> string \<Rightarrow> Limits \<Rightarrow> MemoryProvider res" where
  "unmarshalTenantState env data tenant limits =
     (if len data > MaxStateBytes limits then Inl ErrStateLimit
      else rbind (unmarshal tenantStateSchema data) (\<lambda>v. restoreTenant env limits tenant (tenantStateOfJ v)))"

end
