(* ===== verification/Durable.thy ===== *)
theory Durable
  imports Tenant_State Memory_Laws
begin

text \<open>
  The durable provider of \<^verbatim>\<open>durable.go\<close>: every operation loads the state document of its tenant from a
  \<^verbatim>\<open>DocumentBackend\<close>, runs the operation of the memory provider on it, and, when it mutates, writes the
  document back with a compare-and-swap on the loaded revision, starting over when another client was
  faster.
\<close>

section \<open>The backend interface\<close>

record ProviderHealth =
  Healthy :: bool
  hlCode :: string

record Capabilities =
  OptimisticConcurrency :: bool
  AtomicMutations :: bool
  cpSnapshots :: bool
  cpAudit :: bool
  cpGroups :: bool
  ImportExport :: bool

text \<open>
  The operations of \<^verbatim>\<open>DocumentBackend\<close> on a backend state \<open>'b\<close>. The first argument is the value of
  \<^verbatim>\<open>ctx.Err()\<close> when the call is made.
\<close>

record 'b DocumentBackend =
  dbLoad :: "err option \<Rightarrow> string \<Rightarrow> 'b \<Rightarrow> 'b \<times> (string \<times> 64 word \<times> bool) res"
  dbCompareAndSwap :: "err option \<Rightarrow> string \<Rightarrow> 64 word \<Rightarrow> string \<Rightarrow> 'b \<Rightarrow> 'b \<times> err option"
  dbHealth :: "err option \<Rightarrow> 'b \<Rightarrow> 'b \<times> ProviderHealth"
  dbClose :: "err option \<Rightarrow> err option"

record 'b DurableProvider =
  dpBackend :: "'b DocumentBackend"
  dpLimits :: Limits

definition NewDurableProvider :: "'b DocumentBackend \<Rightarrow> Limits \<Rightarrow> 'b DurableProvider" where
  "NewDurableProvider backend limits = \<lparr> dpBackend = backend, dpLimits = limits \<rparr>"

definition TenantByteLimit :: "'b DurableProvider \<Rightarrow> int" where
  "TenantByteLimit p = MaxKeyBytes (dpLimits p)"

definition DurableCapabilities :: "'b DurableProvider \<Rightarrow> Capabilities" where
  "DurableCapabilities p = \<lparr> OptimisticConcurrency = True, AtomicMutations = True, cpSnapshots = True,
     cpAudit = True, cpGroups = True, ImportExport = True \<rparr>"

definition DurableHealth :: "err option \<Rightarrow> 'b DurableProvider \<Rightarrow> 'b \<Rightarrow> 'b \<times> ProviderHealth" where
  "DurableHealth ctx p b = dbHealth (dpBackend p) ctx b"

definition DurableClose :: "err option \<Rightarrow> 'b DurableProvider \<Rightarrow> err option" where
  "DurableClose ctx p = dbClose (dpBackend p) ctx"

section \<open>Other clients\<close>

text \<open>
  Other clients write through the same backend at any time. What surrounds one operation is: the value of
  \<^verbatim>\<open>ctx.Err()\<close> at each of its calls, the iteration order of the maps in each attempt, and the
  compare-and-swap calls of others before the load and before the swap of each attempt.
\<close>

record swap =
  swCtx :: "err option"
  swTenant :: string
  swRevision :: "64 word"
  swData :: string

record surroundings =
  atEntry :: "err option"
  atLoad :: "nat \<Rightarrow> err option"
  atMutation :: "nat \<Rightarrow> err option"
  atDecoded :: "nat \<Rightarrow> err option"
  atSwap :: "nat \<Rightarrow> err option"
  mapOrder :: "nat \<Rightarrow> env"
  beforeLoad :: "nat \<Rightarrow> swap list"
  beforeSwap :: "nat \<Rightarrow> swap list"

definition runSwaps :: "'b DocumentBackend \<Rightarrow> swap list \<Rightarrow> 'b \<Rightarrow> 'b" where
  "runSwaps backend calls b =
     fold (\<lambda>c b. fst (dbCompareAndSwap backend (swCtx c) (swTenant c) (swRevision c) (swData c) b)) calls b"

section \<open>Loading and mutating\<close>

definition load ::
  "'b DurableProvider \<Rightarrow> env \<Rightarrow> err option \<Rightarrow> string \<Rightarrow> 'b \<Rightarrow> 'b \<times> (MemoryProvider \<times> 64 word) res" where
  "load p env ctx tenant b =
     guardOp b (providerInput ctx tenant (MaxKeyBytes (dpLimits p)))
       (case dbLoad (dpBackend p) ctx tenant b of
          (b', Inl e) \<Rightarrow> (b', Inl e)
        | (b', Inr (data, revision, exists)) \<Rightarrow>
            if \<not> exists then (b', Inr (NewMemoryProvider (dpLimits p), revision))
            else (b', rbind (unmarshalTenantState env data tenant (dpLimits p)) (\<lambda>memory. Inr (memory, revision))))"

text \<open>
  The loop of \<^verbatim>\<open>durableMutate\<close>: \<open>left\<close> attempts remain of the \<^verbatim>\<open>MaxStorageRetries\<close> + 1, and \<open>n\<close> were made. The
  mutation is a function of the attempt, since its closure reads the context again each time.
\<close>

fun durableLoop ::
  "'b DurableProvider \<Rightarrow> surroundings \<Rightarrow> string \<Rightarrow> (nat \<Rightarrow> MemoryProvider \<Rightarrow> MemoryProvider \<times> 'a res) \<Rightarrow>
     nat \<Rightarrow> nat \<Rightarrow> 'b \<Rightarrow> 'b \<times> 'a res" where
  "durableLoop p around tenant mutation 0 n b = (b, Inl ErrStorageConflict)"
| "durableLoop p around tenant mutation (Suc left) n b =
     (case load p (mapOrder around n) (atLoad around n) tenant (runSwaps (dpBackend p) (beforeLoad around n) b) of
        (b1, Inl e) \<Rightarrow> (b1, Inl e)
      | (b1, Inr (memory, revision)) \<Rightarrow>
          (case mutation n memory of
             (memory', Inl e) \<Rightarrow> (b1, Inl e)
           | (memory', Inr result) \<Rightarrow>
               (case marshalTenantState memory' tenant of
                  Inl e \<Rightarrow> (b1, Inl e)
                | Inr data \<Rightarrow>
                    (case dbCompareAndSwap (dpBackend p) (atSwap around n) tenant revision data
                            (runSwaps (dpBackend p) (beforeSwap around n) b1) of
                       (b2, None) \<Rightarrow> (b2, Inr result)
                     | (b2, Some e) \<Rightarrow>
                         if e = ErrStorageConflict then durableLoop p around tenant mutation left (Suc n) b2
                         else (b2, Inl e)))))"

definition durableMutate ::
  "'b DurableProvider \<Rightarrow> surroundings \<Rightarrow> string \<Rightarrow> (nat \<Rightarrow> MemoryProvider \<Rightarrow> MemoryProvider \<times> 'a res) \<Rightarrow>
     'b \<Rightarrow> 'b \<times> 'a res" where
  "durableMutate p around tenant mutation b =
     guardOp b (providerInput (atEntry around) tenant (MaxKeyBytes (dpLimits p)))
       (durableLoop p around tenant mutation (nat (MaxStorageRetries (dpLimits p) + 1)) 0 b)"

section \<open>Operations\<close>

definition DurableCreate where
  "DurableCreate p around tenant d actor =
     durableMutate p around tenant (\<lambda>n. Create (mapOrder around n) (atMutation around n) tenant d actor)"

definition DurableUpdate where
  "DurableUpdate p around tenant d expected actor =
     durableMutate p around tenant (\<lambda>n. Update (mapOrder around n) (atMutation around n) tenant d expected actor)"

definition DurableActivate where
  "DurableActivate p around tenant key expected actor =
     durableMutate p around tenant (\<lambda>n. Activate (atMutation around n) tenant key expected actor)"

definition DurableDeactivate where
  "DurableDeactivate p around tenant key expected actor =
     durableMutate p around tenant (\<lambda>n. Deactivate (atMutation around n) tenant key expected actor)"

definition DurableDelete where
  "DurableDelete p around tenant key expected actor =
     durableMutate p around tenant (\<lambda>n. Delete (atMutation around n) tenant key expected actor)"

definition DurableRestore where
  "DurableRestore p around tenant key expected actor =
     durableMutate p around tenant (\<lambda>n. Restore (atMutation around n) tenant key expected actor)"

definition DurableCreateGroup where
  "DurableCreateGroup p around tenant g actor =
     durableMutate p around tenant (\<lambda>n. CreateGroup (mapOrder around n) (atMutation around n) tenant g actor)"

definition DurableUpdateGroup where
  "DurableUpdateGroup p around tenant g expected actor =
     durableMutate p around tenant (\<lambda>n. UpdateGroup (mapOrder around n) (atMutation around n) tenant g expected actor)"

definition DurableDeleteGroup where
  "DurableDeleteGroup p around tenant groupKey expected actor =
     durableMutate p around tenant (\<lambda>n. DeleteGroup (atMutation around n) tenant groupKey expected actor)"

definition DurableAssignGroup where
  "DurableAssignGroup p around tenant featureKey groupKey expected actor =
     durableMutate p around tenant
       (\<lambda>n. AssignGroup (mapOrder around n) (atMutation around n) tenant featureKey groupKey expected actor)"

definition DurableRemoveGroup where
  "DurableRemoveGroup p around tenant featureKey groupKey expected actor =
     durableMutate p around tenant (\<lambda>n. RemoveGroup (atMutation around n) tenant featureKey groupKey expected actor)"

definition DurableStageUpdate where
  "DurableStageUpdate p around tenant d expected applyAt actor =
     durableMutate p around tenant (\<lambda>n. StageUpdate (mapOrder around n) (atMutation around n) tenant d expected applyAt actor)"

definition DurableApplyStage where
  "DurableApplyStage p around tenant sid actor =
     durableMutate p around tenant (\<lambda>n. ApplyStage (mapOrder around n) (atMutation around n) tenant sid actor)"

definition DurableApplyScheduled where
  "DurableApplyScheduled p around tenant now actor =
     durableMutate p around tenant (\<lambda>n. ApplyScheduled (mapOrder around n) (atMutation around n) tenant now actor)"

definition DurableCleanup where
  "DurableCleanup p around tenant options =
     durableMutate p around tenant (\<lambda>n. Cleanup (atMutation around n) tenant options)"

text \<open>A report with an error is an error of the mutation; a dry run only loads and returns both.\<close>

definition importMutation ::
  "surroundings \<Rightarrow> string \<Rightarrow> string \<Rightarrow> ImportOptions \<Rightarrow> string \<Rightarrow> nat \<Rightarrow> MemoryProvider \<Rightarrow> MemoryProvider \<times> ImportReport res" where
  "importMutation around tenant data options actor n memory =
     (case ImportBytes (mapOrder around n) (atMutation around n) (atDecoded around n) tenant data options actor memory of
        (memory', report, Some e) \<Rightarrow> (memory', Inl e)
      | (memory', report, None) \<Rightarrow> (memory', Inr report))"

definition DurableImportDocument ::
  "'b DurableProvider \<Rightarrow> surroundings \<Rightarrow> string \<Rightarrow> string \<Rightarrow> ImportOptions \<Rightarrow> string \<Rightarrow> 'b \<Rightarrow>
     'b \<times> ImportReport \<times> err option" where
  "DurableImportDocument p around tenant data options actor b =
     (if ioDryRun options then
        (case load p (mapOrder around 0) (atLoad around 0) tenant b of
           (b', Inl e) \<Rightarrow> (b', emptyReport False, Some e)
         | (b', Inr (memory, revision)) \<Rightarrow>
             (b', snd (ImportBytes (mapOrder around 0) (atMutation around 0) (atDecoded around 0) tenant data options actor memory)))
      else
        (case durableMutate p around tenant (importMutation around tenant data options actor) b of
           (b', Inl e) \<Rightarrow> (b', emptyReport False, Some e)
         | (b', Inr report) \<Rightarrow> (b', report, None)))"

text \<open>Reads load the document and ask the memory provider.\<close>

definition durableRead ::
  "'b DurableProvider \<Rightarrow> surroundings \<Rightarrow> string \<Rightarrow> (MemoryProvider \<Rightarrow> 'a res) \<Rightarrow> 'b \<Rightarrow> 'b \<times> 'a res" where
  "durableRead p around tenant query b =
     (case load p (mapOrder around 0) (atLoad around 0) tenant b of
        (b', Inl e) \<Rightarrow> (b', Inl e)
      | (b', Inr (memory, revision)) \<Rightarrow> (b', query memory))"

definition DurableSnapshot where
  "DurableSnapshot p around tenant =
     durableRead p around tenant (MemorySnapshot (mapOrder around 0) (atMutation around 0) tenant)"

definition DurableAudit where
  "DurableAudit p around tenant key = durableRead p around tenant (Audit (atMutation around 0) tenant key)"

definition DurableExportDocument where
  "DurableExportDocument p around tenant =
     durableRead p around tenant (ExportDocument (mapOrder around 0) (atMutation around 0) tenant)"

definition DurableStagedChanges where
  "DurableStagedChanges p around tenant =
     durableRead p around tenant (StagedChanges (mapOrder around 0) (atMutation around 0) tenant)"

end
