(* ===== verification/Backend_Contract.thy ===== *)
theory Backend_Contract
  imports Durable
begin

text \<open>
  The contract of a \<^verbatim>\<open>DocumentBackend\<close> as a locale, and what the durable provider promises over any backend
  that keeps it: an operation that succeeds took effect at one instant on the document stored at that
  instant, and an operation that is not disturbed at one of its attempts gets through.
\<close>

section \<open>Errors of a driver\<close>

text \<open>What the client library of a storage service returns: the end of the context, or a failure of its own.\<close>

datatype driverErr = DriverContext string | DriverFailure string

fun wrapDriver :: "driverErr \<Rightarrow> err" where
  "wrapDriver (DriverContext m) = ErrContext m"
| "wrapDriver (DriverFailure m) = ErrExternal m"

lemma wrapDriver_no_conflict [simp]: "wrapDriver e \<noteq> ErrStorageConflict" "ErrStorageConflict \<noteq> wrapDriver e"
  by (cases e; simp)+

section \<open>Documents and revisions\<close>

definition currentRevision :: "(string \<times> 64 word) option \<Rightarrow> 64 word" where
  "currentRevision d = (case d of None \<Rightarrow> 0 | Some (data, r) \<Rightarrow> r)"

definition swappable :: "(string \<times> 64 word) option \<Rightarrow> 64 word \<Rightarrow> bool" where
  "swappable d r \<longleftrightarrow> (case d of None \<Rightarrow> r = 0 | Some (data, current) \<Rightarrow> current = r \<and> r \<noteq> 0)"

lemma currentRevision_simps [simp]: "currentRevision None = 0" "currentRevision (Some (data, r)) = r"
  by (simp_all add: currentRevision_def)

lemma swappable_current: "swappable d r \<Longrightarrow> currentRevision d = r"
  by (auto simp: swappable_def currentRevision_def split: option.splits prod.splits)

text \<open>The provider state that a stored document stands for, as \<^verbatim>\<open>load\<close> reads it.\<close>

definition loadedState :: "env \<Rightarrow> Limits \<Rightarrow> string \<Rightarrow> (string \<times> 64 word) option \<Rightarrow> MemoryProvider res" where
  "loadedState env limits tenant d =
     (case d of None \<Rightarrow> Inr (NewMemoryProvider limits)
      | Some (data, r) \<Rightarrow> unmarshalTenantState env data tenant limits)"

section \<open>What happened before the operation's own swap\<close>

text \<open>
  \<open>history\<close> relates a backend state to one that follows from it by loads, refused swaps, and swaps of other
  clients: nothing of the operation itself has been written yet.
\<close>

definition otherSwaps :: "surroundings \<Rightarrow> swap set" where
  "otherSwaps around = (\<Union>n. set (beforeLoad around n) \<union> set (beforeSwap around n))"

inductive history :: "'b DocumentBackend \<Rightarrow> swap set \<Rightarrow> 'b \<Rightarrow> 'b \<Rightarrow> bool" for backend calls b where
  history_start: "history backend calls b b"
| history_load: "history backend calls b b1 \<Longrightarrow> history backend calls b (fst (dbLoad backend ctx t b1))"
| history_other: "history backend calls b b1 \<Longrightarrow> c \<in> calls \<Longrightarrow>
    history backend calls b (fst (dbCompareAndSwap backend (swCtx c) (swTenant c) (swRevision c) (swData c) b1))"
| history_refused: "history backend calls b b1 \<Longrightarrow> dbCompareAndSwap backend ctx t r data b1 = (b2, Some ErrStorageConflict) \<Longrightarrow>
    history backend calls b b2"

lemma history_trans: "history backend calls b1 b2 \<Longrightarrow> history backend calls b b1 \<Longrightarrow> history backend calls b b2"
  by (induction rule: history.induct) (auto intro: history.intros)

lemma history_runSwaps: "set cs \<subseteq> calls \<Longrightarrow> history backend calls b b1 \<Longrightarrow> history backend calls b (runSwaps backend cs b1)"
  by (induction cs arbitrary: b1) (auto simp: runSwaps_def intro: history.intros)

lemma history_load_step: "history backend calls b b1 \<Longrightarrow> dbLoad backend ctx t b1 = (b2, reply) \<Longrightarrow> history backend calls b b2"
  using history_load [of backend calls b b1 ctx t] by simp

lemma otherSwaps_attempt [simp]: "set (beforeLoad around n) \<subseteq> otherSwaps around" "set (beforeSwap around n) \<subseteq> otherSwaps around"
  by (auto simp: otherSwaps_def)

text \<open>The number of swaps that \<open>left\<close> attempts from the \<open>n\<close>-th on can see, their own included.\<close>

fun swapCount :: "surroundings \<Rightarrow> nat \<Rightarrow> nat \<Rightarrow> nat" where
  "swapCount around 0 n = 0"
| "swapCount around (Suc left) n =
     length (beforeLoad around n) + length (beforeSwap around n) + 1 + swapCount around left (Suc n)"

text \<open>
  The operation took effect at one instant: right before its own swap the stored document read as
  \<open>memory\<close>, the mutation turned that into \<open>memory'\<close>, and the swap replaced the document by the encoding of
  \<open>memory'\<close> at the next revision and left every other place alone.
\<close>

definition takesEffect ::
  "('b \<Rightarrow> 'k \<Rightarrow> (string \<times> 64 word) option) \<Rightarrow> 'k \<Rightarrow> 'b DurableProvider \<Rightarrow> surroundings \<Rightarrow> string \<Rightarrow>
     (nat \<Rightarrow> MemoryProvider \<Rightarrow> MemoryProvider \<times> 'a res) \<Rightarrow> 'b \<Rightarrow> 'a \<Rightarrow> 'b \<Rightarrow> bool" where
  "takesEffect stored k p around tenant mutation b result b' \<longleftrightarrow>
     (\<exists>n before memory memory' data.
        history (dpBackend p) (otherSwaps around) b before \<and>
        loadedState (mapOrder around n) (dpLimits p) tenant (stored before k) = Inr memory \<and>
        mutation n memory = (memory', Inr result) \<and>
        marshalTenantState memory' tenant = Inr data \<and>
        stored b' = (stored before)(k \<mapsto> (data, currentRevision (stored before k) + 1)))"

text \<open>A failed operation wrote nothing, unless the failure is the service's answer to the swap itself.\<close>

definition failsCleanly :: "'b DurableProvider \<Rightarrow> surroundings \<Rightarrow> string \<Rightarrow> 'b \<Rightarrow> err \<Rightarrow> 'b \<Rightarrow> bool" where
  "failsCleanly p around tenant b e b' \<longleftrightarrow>
     history (dpBackend p) (otherSwaps around) b b' \<or>
     e \<noteq> ErrStorageConflict \<and> (\<exists>before ctx r data. history (dpBackend p) (otherSwaps around) b before \<and>
        dbCompareAndSwap (dpBackend p) ctx tenant r data before = (b', Some e))"

lemma takesEffect_history:
  "takesEffect stored k p around tenant mutation b1 result b' \<Longrightarrow>
     history (dpBackend p) (otherSwaps around) b b1 \<Longrightarrow> takesEffect stored k p around tenant mutation b result b'"
  unfolding takesEffect_def by (blast intro: history_trans)

lemma failsCleanly_history:
  "failsCleanly p around tenant b1 e b' \<Longrightarrow> history (dpBackend p) (otherSwaps around) b b1 \<Longrightarrow>
     failsCleanly p around tenant b e b'"
  unfolding failsCleanly_def by (blast intro: history_trans)

text \<open>The answer the memory provider gives on a stored document, and the document it would write.\<close>

definition answerOn ::
  "'b DurableProvider \<Rightarrow> surroundings \<Rightarrow> string \<Rightarrow> (nat \<Rightarrow> MemoryProvider \<Rightarrow> MemoryProvider \<times> 'a res) \<Rightarrow> nat \<Rightarrow>
     (string \<times> 64 word) option \<Rightarrow> ('a \<times> string) res" where
  "answerOn p around tenant mutation n d =
     rbind (loadedState (mapOrder around n) (dpLimits p) tenant d) (\<lambda>memory.
       case mutation n memory of
         (memory', Inl e) \<Rightarrow> Inl e
       | (memory', Inr result) \<Rightarrow> rbind (marshalTenantState memory' tenant) (\<lambda>data. Inr (result, data)))"

section \<open>One attempt\<close>

lemma durableLoop_attempt:
  assumes loop: "durableLoop p around tenant mutation (Suc left) n b = (b', reply)"
    and load: "load p (mapOrder around n) (atLoad around n) tenant (runSwaps (dpBackend p) (beforeLoad around n) b) = (b1, loaded)"
  obtains e where "reply = Inl e" "b' = b1"
      "rbind loaded (\<lambda>(memory, r). case mutation n memory of (memory', Inl e) \<Rightarrow> Inl e
         | (memory', Inr result) \<Rightarrow> rbind (marshalTenantState memory' tenant) (\<lambda>data. Inr (result, data))) = Inl e"
  | memory r memory' result data b3 ending where
      "loaded = Inr (memory, r)" "mutation n memory = (memory', Inr result)" "marshalTenantState memory' tenant = Inr data"
      "dbCompareAndSwap (dpBackend p) (atSwap around n) tenant r data (runSwaps (dpBackend p) (beforeSwap around n) b1) = (b3, ending)"
      "(b', reply) = (case ending of None \<Rightarrow> (b3, Inr result)
         | Some e \<Rightarrow> if e = ErrStorageConflict then durableLoop p around tenant mutation left (Suc n) b3 else (b3, Inl e))"
proof (cases loaded)
  case (Inl e)
  then show thesis using that(1) [of e] loop load by simp
next
  case (Inr x)
  obtain memory r where x: "x = (memory, r)" by fastforce
  obtain memory' answer where mut: "mutation n memory = (memory', answer)" by fastforce
  show thesis
  proof (cases answer)
    case (Inl e)
    then show thesis using that(1) [of e] loop load Inr x mut by simp
  next
    case result: (Inr result)
    show thesis
    proof (cases "marshalTenantState memory' tenant")
      case (Inl e)
      then show thesis using that(1) [of e] loop load Inr x mut result by simp
    next
      case data: (Inr data)
      obtain b3 ending where swap: "dbCompareAndSwap (dpBackend p) (atSwap around n) tenant r data
          (runSwaps (dpBackend p) (beforeSwap around n) b1) = (b3, ending)" by fastforce
      show thesis
        by (rule that(2) [OF _ _ data swap]) (use loop load Inr x mut result data swap in \<open>auto split: option.splits\<close>)
    qed
  qed
qed

section \<open>The contract\<close>

text \<open>
  \<open>stored\<close> reads the document and revision at the place of a tenant. Revisions are exact below \<open>top\<close>. A call
  that reports a failure of the service may or may not have been applied; a call that reports a conflict
  was not.
\<close>

locale document_backend =
  fixes backend :: "'b DocumentBackend"
    and stored :: "'b \<Rightarrow> 'k \<Rightarrow> (string \<times> 64 word) option"
    and place :: "string \<Rightarrow> 'k"
    and inv :: "'b \<Rightarrow> bool"
    and top :: nat
  assumes top_bound: "top < 2 ^ 64"
    and load_stored: "inv b \<Longrightarrow> dbLoad backend ctx t b = (b', reply) \<Longrightarrow> inv b' \<and> stored b' = stored b"
    and load_present: "inv b \<Longrightarrow> dbLoad backend ctx t b = (b', Inr (data, r, True)) \<Longrightarrow>
      stored b (place t) = Some (data, r) \<and> r \<noteq> 0"
    and load_absent: "inv b \<Longrightarrow> dbLoad backend ctx t b = (b', Inr (data, r, False)) \<Longrightarrow>
      stored b (place t) = None \<and> r = 0"
    and swap_inv: "inv b \<Longrightarrow> dbCompareAndSwap backend ctx t r data b = (b', ending) \<Longrightarrow> inv b'"
    and swap_done: "inv b \<Longrightarrow> unat (currentRevision (stored b (place t))) < top \<Longrightarrow>
      dbCompareAndSwap backend ctx t r data b = (b', None) \<Longrightarrow>
      swappable (stored b (place t)) r \<and> stored b' = (stored b)(place t \<mapsto> (data, r + 1))"
    and swap_conflict: "inv b \<Longrightarrow> dbCompareAndSwap backend ctx t r data b = (b', Some ErrStorageConflict) \<Longrightarrow>
      stored b' = stored b"
    and swap_failed: "inv b \<Longrightarrow> unat (currentRevision (stored b (place t))) < top \<Longrightarrow>
      dbCompareAndSwap backend ctx t r data b = (b', Some e) \<Longrightarrow>
      stored b' = stored b \<or> swappable (stored b (place t)) r \<and> stored b' = (stored b)(place t \<mapsto> (data, r + 1))"
begin

section \<open>Swaps only move revisions forward\<close>

definition within :: "nat \<Rightarrow> 'b \<Rightarrow> bool" where
  "within n b \<longleftrightarrow> inv b \<and> (\<forall>k. unat (currentRevision (stored b k)) \<le> n)"

lemma within_mono: "within n b \<Longrightarrow> n \<le> m \<Longrightarrow> within m b"
  by (fastforce simp: within_def intro: le_trans)

lemma unat_next: "unat (r :: 64 word) < top \<Longrightarrow> unat (r + 1) = Suc (unat r)"
  using top_bound by (simp add: unat_word_ariths)

lemma next_nonzero: "unat (r :: 64 word) < top \<Longrightarrow> r + 1 \<noteq> 0"
  using unat_next [of r] by (metis nat.distinct(1) unat_0)

text \<open>What one swap does to the document at a place: nothing, or the next revision.\<close>

definition advances :: "(string \<times> 64 word) option \<Rightarrow> (string \<times> 64 word) option \<Rightarrow> bool" where
  "advances d d' \<longleftrightarrow> d' = d \<or> unat (currentRevision d) < unat (currentRevision d')"

lemma advances_refl: "advances d d"
  by (simp add: advances_def)

lemma advances_trans: "advances d1 d2 \<Longrightarrow> advances d2 d3 \<Longrightarrow> advances d1 d3"
  by (auto simp: advances_def)

lemma advances_same: "advances d d' \<Longrightarrow> currentRevision d' = currentRevision d \<Longrightarrow> d' = d"
  by (auto simp: advances_def)

lemma swap_step:
  assumes b: "within n b" "n < top" and call: "dbCompareAndSwap backend ctx t r data b = (b', ending)"
  shows "within (Suc n) b' \<and> advances (stored b k) (stored b' k)"
proof -
  have now: "unat (currentRevision (stored b (place t))) < top" and inv: "inv b"
    using b by (auto simp: within_def intro: le_less_trans)
  have "stored b' = stored b \<or> swappable (stored b (place t)) r \<and> stored b' = (stored b)(place t \<mapsto> (data, r + 1))"
    using swap_done [OF inv now] swap_failed [OF inv now] call by (cases ending) blast+
  then show ?thesis
  proof
    assume "stored b' = stored b"
    then show ?thesis using b swap_inv [OF inv call] by (auto simp: within_def advances_refl intro: le_SucI)
  next
    assume swapped: "swappable (stored b (place t)) r \<and> stored b' = (stored b)(place t \<mapsto> (data, r + 1))"
    then have r: "currentRevision (stored b (place t)) = r" by (simp add: swappable_current)
    then have le: "unat r \<le> n" and succ: "unat (r + 1) = Suc (unat r)"
      using b now unat_next by (auto simp: within_def)
    have "unat (currentRevision (stored b' j)) \<le> Suc n" for j
      using b swapped le succ by (auto simp: within_def intro: le_SucI)
    moreover have "advances (stored b k) (stored b' k)"
      using swapped r succ by (auto simp: advances_def)
    ultimately show ?thesis using swap_inv [OF inv call] by (simp add: within_def)
  qed
qed

lemma runSwaps_step:
  assumes "within n b" "n + length calls \<le> top"
  shows "within (n + length calls) (runSwaps backend calls b) \<and> advances (stored b k) (stored (runSwaps backend calls b) k)"
  using assms
proof (induction calls arbitrary: n b)
  case Nil
  then show ?case by (simp add: runSwaps_def advances_refl)
next
  case (Cons c calls)
  obtain b1 ending where call: "dbCompareAndSwap backend (swCtx c) (swTenant c) (swRevision c) (swData c) b = (b1, ending)"
    by fastforce
  have step: "within (Suc n) b1 \<and> advances (stored b k) (stored b1 k)"
    using swap_step [OF Cons.prems(1) _ call] Cons.prems(2) by simp
  have "runSwaps backend (c # calls) b = runSwaps backend calls b1"
    using call by (simp add: runSwaps_def)
  then show ?case using step Cons.IH [of "Suc n" b1] Cons.prems(2) advances_trans by auto
qed

section \<open>One instant\<close>

lemma load_cases:
  assumes "inv b" "dpBackend p = backend" "load p env ctx t b = (b', reply)"
  shows "inv b' \<and> stored b' = stored b \<and> history backend calls b b' \<and>
    (case reply of Inl e \<Rightarrow> True | Inr (memory, r) \<Rightarrow>
       loadedState env (dpLimits p) t (stored b (place t)) = Inr memory \<and> r = currentRevision (stored b (place t)))"
proof (cases "providerInput ctx t (MaxKeyBytes (dpLimits p))")
  case (Some e)
  then show ?thesis using assms by (auto simp: load_def intro: history_start)
next
  case None
  obtain b1 answer where call: "dbLoad backend ctx t b = (b1, answer)" by fastforce
  have step: "b' = b1" using assms None call by (auto simp: load_def split: sum.splits prod.splits if_splits)
  have keep: "inv b1 \<and> stored b1 = stored b" using load_stored [OF assms(1) call] .
  have hist: "history backend calls b b1" using history_load_step [OF history_start call] .
  have "case reply of Inl e \<Rightarrow> True | Inr (memory, r) \<Rightarrow>
       loadedState env (dpLimits p) t (stored b (place t)) = Inr memory \<and> r = currentRevision (stored b (place t))"
  proof (cases answer)
    case (Inl e)
    then show ?thesis using assms None call by (auto simp: load_def)
  next
    case (Inr x)
    obtain data r present where x: "x = (data, r, present)" by (cases x) auto
    show ?thesis
    proof (cases present)
      case True
      then show ?thesis using load_present [of b ctx t b1 data r] assms None call Inr x
        by (auto simp: load_def loadedState_def rbind_def split: sum.splits)
    next
      case False
      then show ?thesis using load_absent [of b ctx t b1 data r] assms None call Inr x
        by (auto simp: load_def loadedState_def)
    qed
  qed
  with step keep hist show ?thesis by simp
qed

lemma durableLoop_instant:
  assumes "within N b" "N + swapCount around left n \<le> top" "dpBackend p = backend"
    and "durableLoop p around tenant mutation left n b = (b', reply)"
  shows "case reply of Inr result \<Rightarrow> takesEffect stored (place tenant) p around tenant mutation b result b'
    | Inl e \<Rightarrow> failsCleanly p around tenant b e b'"
  using assms
proof (induction left arbitrary: n N b)
  case 0
  then show ?case by (auto simp: failsCleanly_def intro: history_start)
next
  case (Suc left)
  let ?H = "history backend (otherSwaps around) b"
  let ?k = "place tenant"
  define b0 where "b0 = runSwaps backend (beforeLoad around n) b"
  have h0: "?H b0"
    unfolding b0_def by (rule history_runSwaps [OF otherSwaps_attempt(1) history_start])
  have b0: "within (N + length (beforeLoad around n)) b0"
    using runSwaps_step [OF Suc.prems(1), of "beforeLoad around n"] Suc.prems(2) by (simp add: b0_def)
  have inv0: "inv b0" using b0 by (simp add: within_def)
  obtain b1 loaded where load: "load p (mapOrder around n) (atLoad around n) tenant b0 = (b1, loaded)" by fastforce
  note ld = load_cases [OF inv0 Suc.prems(3) load, of "otherSwaps around"]
  have h1: "?H b1" by (rule history_trans [OF _ h0]) (use ld in simp)
  from Suc.prems(4) load [unfolded b0_def, folded Suc.prems(3)] show ?case
  proof (cases rule: durableLoop_attempt)
    case (1 e)
    then show ?thesis using h1 Suc.prems(3) by (simp add: failsCleanly_def)
  next
    case (2 memory r memory' result data b3 ending)
    define b2 where "b2 = runSwaps backend (beforeSwap around n) b1"
    have swap: "dbCompareAndSwap backend (atSwap around n) tenant r data b2 = (b3, ending)"
      using 2(4) Suc.prems(3) by (simp add: b2_def)
    have b1: "within (N + length (beforeLoad around n)) b1" using ld b0 by (auto simp: within_def)
    have count: "N + length (beforeLoad around n) + length (beforeSwap around n) < top"
      using Suc.prems(2) by simp
    have b2: "within (N + length (beforeLoad around n) + length (beforeSwap around n)) b2"
      and adv: "advances (stored b1 ?k) (stored b2 ?k)"
      using runSwaps_step [OF b1, of "beforeSwap around n" ?k] count by (auto simp: b2_def)
    have h2: "?H b2" unfolding b2_def by (rule history_runSwaps [OF otherSwaps_attempt(2) h1])
    have now: "unat (currentRevision (stored b2 ?k)) < top" and inv2: "inv b2"
      using b2 count by (auto simp: within_def intro: le_less_trans)
    show ?thesis
    proof (cases ending)
      case None
      then have swapped: "swappable (stored b2 ?k) r" "stored b3 = (stored b2)(?k \<mapsto> (data, r + 1))"
        using swap_done [OF inv2 now, of "atSwap around n" r data b3] swap by auto
      then have rev: "currentRevision (stored b2 ?k) = r" by (simp add: swappable_current)
      have "stored b2 ?k = stored b0 ?k"
        using advances_same [OF adv] rev ld 2(1) by simp
      then have "takesEffect stored ?k p around tenant mutation b result b3"
        unfolding takesEffect_def using h2 ld 2(1,2,3) swapped rev Suc.prems(3)
        by (intro exI [of _ n] exI [of _ b2] exI [of _ memory] exI [of _ memory'] exI [of _ data]) simp
      then show ?thesis using None 2(5) by simp
    next
      case (Some e)
      show ?thesis
      proof (cases "e = ErrStorageConflict")
        case True
        then have h3: "?H b3" using history_refused [OF h2] swap Some by blast
        have b3: "within (Suc (N + length (beforeLoad around n) + length (beforeSwap around n))) b3"
          using swap_step [OF b2 count swap] by simp
        have "durableLoop p around tenant mutation left (Suc n) b3 = (b', reply)"
          using 2(5) Some True by simp
        from Suc.IH [OF b3 _ Suc.prems(3) this] Suc.prems(2)
        have "case reply of Inr result \<Rightarrow> takesEffect stored ?k p around tenant mutation b3 result b'
            | Inl e \<Rightarrow> failsCleanly p around tenant b3 e b'" by simp
        then show ?thesis using h3 Suc.prems(3)
          by (cases reply) (auto intro: takesEffect_history failsCleanly_history)
      next
        case False
        then have "reply = Inl e" "b' = b3" using 2(5) Some by auto
        then show ?thesis using False h2 swap Some Suc.prems(3) by (auto simp: failsCleanly_def)
      qed
    qed
  qed
qed

end

text \<open>
  A backend that is up: calls made with a live context on a usable tenant are answered, a swap at the current
  revision is carried out and any other swap is refused as a conflict.
\<close>

locale available_backend = document_backend +
  fixes ready :: "'a \<Rightarrow> bool"
    and usable :: "string \<Rightarrow> bool"
  assumes ready_load: "inv b \<Longrightarrow> ready b \<Longrightarrow> usable t \<Longrightarrow> dbLoad backend None t b = (b', reply) \<Longrightarrow> \<not> isl reply"
    and ready_after_load: "ready b \<Longrightarrow> dbLoad backend ctx t b = (b', reply) \<Longrightarrow> ready b'"
    and ready_after_swap: "ready b \<Longrightarrow> dbCompareAndSwap backend ctx t r data b = (b', ending) \<Longrightarrow> ready b'"
    and ready_swap: "inv b \<Longrightarrow> ready b \<Longrightarrow> usable t \<Longrightarrow> unat (currentRevision (stored b (place t))) < top \<Longrightarrow> unat r < top \<Longrightarrow>
      dbCompareAndSwap backend None t r data b = (b', ending) \<Longrightarrow>
      ending = (if swappable (stored b (place t)) r then None else Some ErrStorageConflict)"
begin

lemma ready_runSwaps: "ready b \<Longrightarrow> ready (runSwaps backend calls b)"
  by (induction calls arbitrary: b) (auto simp: runSwaps_def intro: ready_after_swap [OF _ surjective_pairing])

lemma load_answers:
  assumes "inv b" "ready b" "usable t" "dpBackend p = backend" "providerInput None t (MaxKeyBytes (dpLimits p)) = None"
    and load: "load p env None t b = (b', reply)"
  shows "ready b' \<and> swappable (stored b (place t)) (currentRevision (stored b (place t))) \<and>
    reply = rbind (loadedState env (dpLimits p) t (stored b (place t)))
      (\<lambda>memory. Inr (memory, currentRevision (stored b (place t))))"
proof -
  obtain b1 answer where call: "dbLoad backend None t b = (b1, answer)" by fastforce
  then obtain data r present where answer: "answer = Inr (data, r, present)"
    using ready_load [OF assms(1,2,3) call] by (cases answer) auto
  have r1: "ready b1" using ready_after_load [OF assms(2) call] .
  show ?thesis
  proof (cases present)
    case True
    then show ?thesis using load_present [of b None t b1 data r] assms call answer r1
      by (auto simp: load_def loadedState_def swappable_def)
  next
    case False
    then show ?thesis using load_absent [of b None t b1 data r] assms call answer r1
      by (auto simp: load_def loadedState_def swappable_def)
  qed
qed

text \<open>Swaps at other places leave the document of this place alone.\<close>

lemma runSwaps_elsewhere:
  assumes "within n b" "n + length calls \<le> top" "\<forall>c \<in> set calls. place (swTenant c) \<noteq> k"
  shows "stored (runSwaps backend calls b) k = stored b k"
  using assms
proof (induction calls arbitrary: n b)
  case Nil
  then show ?case by (simp add: runSwaps_def)
next
  case (Cons c calls)
  obtain b1 ending where call: "dbCompareAndSwap backend (swCtx c) (swTenant c) (swRevision c) (swData c) b = (b1, ending)"
    by fastforce
  have inv: "inv b" and now: "unat (currentRevision (stored b (place (swTenant c)))) < top"
    using Cons.prems(1,2) by (auto simp: within_def intro: le_less_trans)
  have "stored b1 k = stored b k"
    using swap_done [OF inv now] swap_failed [OF inv now] call Cons.prems(3) by (cases ending) fastforce+
  moreover have "within (Suc n) b1" using swap_step [OF Cons.prems(1) _ call] Cons.prems(2) by simp
  moreover have "runSwaps backend (c # calls) b = runSwaps backend calls b1"
    using call by (simp add: runSwaps_def)
  ultimately show ?case using Cons.IH [of "Suc n" b1] Cons.prems(2,3) by simp
qed

text \<open>
  One attempt with a live context. \<open>d\<close> is the document it reads. Either the memory provider's answer is an
  error and nothing is written, or the swap is carried out, or it is refused because the document moved on
  while the answer was computed.
\<close>

lemma attempt_decides:
  assumes b: "within N b" "ready b" "N + length (beforeLoad around n) + length (beforeSwap around n) < top"
    and p: "dpBackend p = backend" "providerInput None tenant (MaxKeyBytes (dpLimits p)) = None" "usable tenant"
    and live: "atLoad around n = None" "atSwap around n = None"
    and loop: "durableLoop p around tenant mutation (Suc left) n b = (b', reply)"
    and b0: "b0 = runSwaps backend (beforeLoad around n) b" and d: "d = stored b0 (place tenant)"
  obtains e where "answerOn p around tenant mutation n d = Inl e" "reply = Inl e" "stored b' = stored b0" "inv b'"
  | result data b1 b2 where "answerOn p around tenant mutation n d = Inr (result, data)" "reply = Inr result"
      "within (N + length (beforeLoad around n)) b1" "stored b1 = stored b0"
      "b2 = runSwaps backend (beforeSwap around n) b1" "stored b' = (stored b2)(place tenant \<mapsto> (data, currentRevision d + 1))" "inv b'"
  | b1 b2 b3 where "within (N + length (beforeLoad around n)) b1" "stored b1 = stored b0"
      "b2 = runSwaps backend (beforeSwap around n) b1" "\<not> swappable (stored b2 (place tenant)) (currentRevision d)"
      "swappable d (currentRevision d)"
      "history backend (otherSwaps around) b b3" "ready b3"
      "within (Suc (N + length (beforeLoad around n) + length (beforeSwap around n))) b3"
      "durableLoop p around tenant mutation left (Suc n) b3 = (b', reply)"
proof -
  have w0: "within (N + length (beforeLoad around n)) b0" and r0: "ready b0"
    using runSwaps_step [OF b(1), of "beforeLoad around n"] b(2,3) ready_runSwaps by (simp_all add: b0)
  then have inv0: "inv b0" by (simp add: within_def)
  have h0: "history backend (otherSwaps around) b b0"
    unfolding b0 by (rule history_runSwaps [OF otherSwaps_attempt(1) history_start])
  obtain b1 loaded where load: "load p (mapOrder around n) (atLoad around n) tenant b0 = (b1, loaded)" by fastforce
  note ld = load_cases [OF inv0 p(1) load, of "otherSwaps around"]
  note ans = load_answers [OF inv0 r0 p(3,1,2) load [unfolded live], folded d]
  have w1: "within (N + length (beforeLoad around n)) b1" using ld w0 by (simp add: within_def)
  have h1: "history backend (otherSwaps around) b b1" by (rule history_trans [OF _ h0]) (use ld in simp)
  define b2 where "b2 = runSwaps backend (beforeSwap around n) b1"
  have w2: "within (N + length (beforeLoad around n) + length (beforeSwap around n)) b2" and r2: "ready b2"
    using runSwaps_step [OF w1, of "beforeSwap around n"] b(3) ans ready_runSwaps by (simp_all add: b2_def)
  have h2: "history backend (otherSwaps around) b b2"
    unfolding b2_def by (rule history_runSwaps [OF otherSwaps_attempt(2) h1])
  have inv2: "inv b2" and now: "unat (currentRevision (stored b2 (place tenant))) < top"
    using w2 b(3) by (auto simp: within_def intro: le_less_trans)
  from loop load [unfolded b0, folded p(1)] show thesis
  proof (cases rule: durableLoop_attempt)
    case (1 e)
    have "answerOn p around tenant mutation n d = Inl e"
      using ans 1(3) by (auto simp: answerOn_def rbind_def split: sum.splits)
    then show thesis using that(1) 1 ld by simp
  next
    case (2 memory r memory' result data b3 ending)
    have answer: "answerOn p around tenant mutation n d = Inr (result, data)" and r: "r = currentRevision d"
      using 2 ans by (auto simp: answerOn_def rbind_eq_Inr)
    have swap: "dbCompareAndSwap backend None tenant r data b2 = (b3, ending)"
      using 2(4) p(1) live by (simp add: b2_def)
    have "unat (currentRevision d) \<le> N + length (beforeLoad around n)" using w0 by (simp add: within_def d)
    then have "unat r < top" using r b(3) by simp
    note ending = ready_swap [OF inv2 r2 p(3) now this swap]
    show thesis
    proof (cases "swappable (stored b2 (place tenant)) r")
      case True
      then show thesis using that(2) [OF answer] 2(5) ending swap_done [OF inv2 now, of None r data b3]
          swap_inv [OF inv2 swap] swap w1 ld b2_def r by auto
    next
      case False
      have "history backend (otherSwaps around) b b3"
        using history_refused [OF h2] swap ending False by simp
      moreover have "ready b3" using ready_after_swap [OF r2 swap] .
      ultimately show thesis
        using that(3) [of b1 b2 b3] False 2(5) ending swap_step [OF w2 b(3) swap] w1 ld b2_def r ans by simp
    qed
  qed
qed

lemma durableLoop_decides:
  assumes "within N b" "ready b" "N + swapCount around left n \<le> top"
    and "dpBackend p = backend" "providerInput None tenant (MaxKeyBytes (dpLimits p)) = None" "usable tenant"
    and "\<And>i. n \<le> i \<Longrightarrow> i \<le> m \<Longrightarrow> atLoad around i = None \<and> atSwap around i = None"
    and "\<forall>c \<in> set (beforeSwap around m). place (swTenant c) \<noteq> place tenant" "n \<le> m" "m < n + left"
    and "durableLoop p around tenant mutation left n b = (b', reply)"
  shows "\<exists>i b0. i \<le> m \<and> history backend (otherSwaps around) b b0 \<and>
    reply = rbind (answerOn p around tenant mutation i (stored b0 (place tenant))) (\<lambda>(result, data). Inr result)"
  using assms
proof (induction left arbitrary: n N b)
  case 0
  then show ?case by simp
next
  case (Suc left)
  define b0 where "b0 = runSwaps backend (beforeLoad around n) b"
  have h0: "history backend (otherSwaps around) b b0"
    unfolding b0_def by (rule history_runSwaps [OF otherSwaps_attempt(1) history_start])
  have live: "atLoad around n = None" "atSwap around n = None" using Suc.prems(7) [of n] Suc.prems(9) by auto
  have "N + length (beforeLoad around n) + length (beforeSwap around n) < top" using Suc.prems(3) by simp
  note attempt = attempt_decides [OF Suc.prems(1,2) this Suc.prems(4,5,6) live Suc.prems(11) b0_def refl]
  show ?case
  proof (rule attempt, goal_cases)
    case (1 e)
    then show ?case using h0 Suc.prems(9) by (intro exI [of _ n] exI [of _ b0]) simp
  next
    case (2 result data b1 b2)
    then show ?case using h0 Suc.prems(9) by (intro exI [of _ n] exI [of _ b0]) simp
  next
    case (3 b1 b2 b3)
    have "n \<noteq> m"
    proof
      assume "n = m"
      then have "stored b2 (place tenant) = stored b0 (place tenant)"
        using runSwaps_elsewhere [OF 3(1), of "beforeSwap around n" "place tenant"] 3(2,3) Suc.prems(3,8) by simp
      then show False using 3(4,5) by simp
    qed
    then have "Suc n \<le> m" "m < Suc n + left" using Suc.prems(9,10) by auto
    moreover have "atLoad around i = None \<and> atSwap around i = None" if "Suc n \<le> i" "i \<le> m" for i
      using Suc.prems(7) [of i] that by simp
    ultimately obtain i b4 where "i \<le> m" "history backend (otherSwaps around) b3 b4"
        "reply = rbind (answerOn p around tenant mutation i (stored b4 (place tenant))) (\<lambda>(result, data). Inr result)"
      using Suc.IH [OF 3(8,7) _ Suc.prems(4,5,6) _ Suc.prems(8) _ _ 3(9)] Suc.prems(3) by auto
    then show ?case using history_trans [OF _ 3(6)] by blast
  qed
qed

lemma durableLoop_undisturbed:
  assumes "within N b" "ready b" "N < top"
    and p: "dpBackend p = backend" "providerInput None tenant (MaxKeyBytes (dpLimits p)) = None" "usable tenant"
    and live: "atLoad around 0 = None" "atSwap around 0 = None"
    and alone: "beforeLoad around 0 = []" "beforeSwap around 0 = []"
    and loop: "durableLoop p around tenant mutation (Suc left) 0 b = (b', reply)"
  shows "inv b' \<and> (case answerOn p around tenant mutation 0 (stored b (place tenant)) of
      Inl e \<Rightarrow> reply = Inl e \<and> stored b' = stored b
    | Inr (result, data) \<Rightarrow> reply = Inr result \<and>
        stored b' = (stored b)(place tenant \<mapsto> (data, currentRevision (stored b (place tenant)) + 1)))"
proof -
  have quiet: "b = runSwaps backend (beforeLoad around 0) b" "N + length (beforeLoad around 0) + length (beforeSwap around 0) < top"
    using alone assms(3) by (simp_all add: runSwaps_def)
  show ?thesis
    by (rule attempt_decides [OF assms(1,2) quiet(2) p live loop quiet(1) refl]) (auto simp: alone runSwaps_def)
qed

end

end
