(* ===== verification/Postgres.thy ===== *)
theory Postgres
  imports Backend_Contract
begin

text \<open>
  The PostgreSQL backend of \<^verbatim>\<open>postgres/backend.go\<close>. The connection pool is the application's: it is the
  parameter \<open>DB\<close> of every operation, and the locale \<open>postgres_service\<close> names what the backend relies on of
  the statements it sends.
\<close>

section \<open>The driver\<close>

text \<open>
  \<^verbatim>\<open>Exec\<close> answers the number of affected rows, \<^verbatim>\<open>QueryRow\<close> a row to scan. A call is made only with a context
  that is live; one that ends during the call shows as an error of the driver.
\<close>

datatype arg = TextArg string | BytesArg string | UintArg "64 word"

datatype column = ByteaColumn string | BigintColumn int | IntColumn int

datatype rowReply = RowError driverErr | NoRows | Row "column list"

record 'd DB =
  pgExec :: "string \<Rightarrow> arg list \<Rightarrow> 'd \<Rightarrow> 'd \<times> (driverErr + int)"
  pgQueryRow :: "string \<Rightarrow> arg list \<Rightarrow> 'd \<Rightarrow> 'd \<times> rowReply"

text \<open>\<^verbatim>\<open>Scan(&data, &revision)\<close> into a byte slice and a \<^verbatim>\<open>uint64\<close>, and \<^verbatim>\<open>Scan(&one)\<close> into an \<^verbatim>\<open>int\<close>.\<close>

fun scanDocument :: "column list \<Rightarrow> driverErr + string \<times> 64 word" where
  "scanDocument [ByteaColumn data, BigintColumn r] =
     (if r < 0 then Inl (DriverFailure ''cannot scan into dest'') else Inr (data, word_of_int r))"
| "scanDocument columns = Inl (DriverFailure ''cannot scan into dest'')"

fun scanInt :: "column list \<Rightarrow> driverErr + int" where
  "scanInt [IntColumn n] = Inr n"
| "scanInt columns = Inl (DriverFailure ''cannot scan into dest'')"

section \<open>Statements\<close>

definition newline :: string where "newline = [CHR 0x0A]"

definition schema :: string where
  "schema = ''CREATE TABLE IF NOT EXISTS feature_flag_tenant_state ('' @ newline @
     ''    tenant TEXT PRIMARY KEY,'' @ newline @
     ''    revision BIGINT NOT NULL CHECK (revision > 0),'' @ newline @
     ''    document BYTEA NOT NULL,'' @ newline @
     ''    updated_at TIMESTAMPTZ NOT NULL DEFAULT CURRENT_TIMESTAMP'' @ newline @
     '');'' @ newline"

definition selectDocument :: string where
  "selectDocument = ''SELECT document, revision'' @ newline @
     ''FROM feature_flag_tenant_state WHERE tenant = $1''"

definition insertDocument :: string where
  "insertDocument = ''INSERT INTO feature_flag_tenant_state'' @ newline @
     ''(tenant, revision, document) VALUES ($1, 1, $2)'' @ newline @
     ''ON CONFLICT (tenant) DO NOTHING''"

definition updateDocument :: string where
  "updateDocument = ''UPDATE feature_flag_tenant_state'' @ newline @
     ''SET revision = revision + 1, document = $3, updated_at = CURRENT_TIMESTAMP'' @ newline @
     ''WHERE tenant = $1 AND revision = $2''"

definition selectOne :: string where "selectOne = ''SELECT 1''"

definition Schema :: string where "Schema = schema"

section \<open>Operations\<close>

definition Migrate :: "'d DB \<Rightarrow> 'd \<Rightarrow> 'd \<times> err option" where
  "Migrate db d = (case pgExec db schema [] d of (d', Inl e) \<Rightarrow> (d', Some (wrapDriver e)) | (d', Inr n) \<Rightarrow> (d', None))"

definition PostgresLoad :: "'d DB \<Rightarrow> err option \<Rightarrow> string \<Rightarrow> 'd \<Rightarrow> 'd \<times> (string \<times> 64 word \<times> bool) res" where
  "PostgresLoad db ctx tenant d =
     (case ctx of
        Some e \<Rightarrow> (d, Inl e)
      | None \<Rightarrow>
          (case pgQueryRow db selectDocument [TextArg tenant] d of
             (d', NoRows) \<Rightarrow> (d', Inr ([], 0, False))
           | (d', RowError e) \<Rightarrow> (d', Inl (wrapDriver e))
           | (d', Row columns) \<Rightarrow>
               (case scanDocument columns of
                  Inl e \<Rightarrow> (d', Inl (wrapDriver e))
                | Inr (data, revision) \<Rightarrow> (d', Inr (data, revision, True)))))"

definition PostgresCompareAndSwap ::
  "'d DB \<Rightarrow> err option \<Rightarrow> string \<Rightarrow> 64 word \<Rightarrow> string \<Rightarrow> 'd \<Rightarrow> 'd \<times> err option" where
  "PostgresCompareAndSwap db ctx tenant expectedRevision data d =
     (case ctx of
        Some e \<Rightarrow> (d, Some e)
      | None \<Rightarrow>
          (case (if expectedRevision = 0 then pgExec db insertDocument [TextArg tenant, BytesArg data] d
                 else pgExec db updateDocument [TextArg tenant, UintArg expectedRevision, BytesArg data] d) of
             (d', Inl e) \<Rightarrow> (d', Some (wrapDriver e))
           | (d', Inr rows) \<Rightarrow> (d', if rows \<noteq> 1 then Some ErrStorageConflict else None)))"

definition PostgresHealth :: "'d DB \<Rightarrow> err option \<Rightarrow> 'd \<Rightarrow> 'd \<times> ProviderHealth" where
  "PostgresHealth db ctx d =
     (case ctx of
        Some e \<Rightarrow> (d, \<lparr> Healthy = False, hlCode = ''context_cancelled'' \<rparr>)
      | None \<Rightarrow>
          (case pgQueryRow db selectOne [] d of
             (d', Row columns) \<Rightarrow>
               (d', if scanInt columns = Inr 1 then \<lparr> Healthy = True, hlCode = ''ready'' \<rparr>
                    else \<lparr> Healthy = False, hlCode = ''postgres_unavailable'' \<rparr>)
           | (d', other) \<Rightarrow> (d', \<lparr> Healthy = False, hlCode = ''postgres_unavailable'' \<rparr>)))"

definition PostgresClose :: "err option \<Rightarrow> err option" where
  "PostgresClose ctx = ctx"

definition PostgresBackend :: "'d DB \<Rightarrow> 'd DocumentBackend" where
  "PostgresBackend db = \<lparr> dbLoad = PostgresLoad db, dbCompareAndSwap = PostgresCompareAndSwap db,
     dbHealth = PostgresHealth db, dbClose = PostgresClose \<rparr>"

definition PostgresNew :: "'d DB \<Rightarrow> Limits \<Rightarrow> 'd DurableProvider" where
  "PostgresNew db limits = NewDurableProvider (PostgresBackend db) limits"

section \<open>What the backend relies on\<close>

text \<open>
  \<open>rows\<close> is the table by its primary key. Of PostgreSQL the backend uses: a query on the primary key shows the
  row or its absence, the insertion with \<^verbatim>\<open>ON CONFLICT DO NOTHING\<close> affects one row exactly when the key is
  new, the update affects one row exactly when key and revision match, the check constraint and the type of
  the column bound the revision. A statement that fails may have been carried out.
\<close>

locale postgres_service =
  fixes db :: "'d DB"
    and rows :: "'d \<Rightarrow> string \<Rightarrow> (string \<times> int) option"
    and migrated :: "'d \<Rightarrow> bool"
  assumes revision_range: "migrated d \<Longrightarrow> rows d t = Some (data, r) \<Longrightarrow> 0 < r \<and> r < 2 ^ 63"
    and select_row: "migrated d \<Longrightarrow> pgQueryRow db selectDocument [TextArg t] d = (d', reply) \<Longrightarrow>
      migrated d' \<and> rows d' = rows d \<and>
      (case reply of RowError e \<Rightarrow> True | NoRows \<Rightarrow> rows d t = None
       | Row columns \<Rightarrow> \<exists>data r. rows d t = Some (data, r) \<and> columns = [ByteaColumn data, BigintColumn r])"
    and insert_row: "migrated d \<Longrightarrow> pgExec db insertDocument [TextArg t, BytesArg data] d = (d', Inr n) \<Longrightarrow>
      migrated d' \<and> (if rows d t = None then n = 1 \<and> rows d' = (rows d)(t \<mapsto> (data, 1)) else n = 0 \<and> rows d' = rows d)"
    and insert_failed: "migrated d \<Longrightarrow> pgExec db insertDocument [TextArg t, BytesArg data] d = (d', Inl e) \<Longrightarrow>
      migrated d' \<and> (rows d' = rows d \<or> rows d t = None \<and> rows d' = (rows d)(t \<mapsto> (data, 1)))"
    and update_row: "migrated d \<Longrightarrow> pgExec db updateDocument [TextArg t, UintArg w, BytesArg data] d = (d', Inr n) \<Longrightarrow>
      migrated d' \<and> (if \<exists>old. rows d t = Some (old, uint w) then n = 1 \<and> rows d' = (rows d)(t \<mapsto> (data, uint w + 1))
                       else n = 0 \<and> rows d' = rows d)"
    and update_failed: "migrated d \<Longrightarrow> pgExec db updateDocument [TextArg t, UintArg w, BytesArg data] d = (d', Inl e) \<Longrightarrow>
      migrated d' \<and> (rows d' = rows d \<or> (\<exists>old. rows d t = Some (old, uint w)) \<and> rows d' = (rows d)(t \<mapsto> (data, uint w + 1)))"

text \<open>The documents of a table.\<close>

definition documentAt :: "(string \<Rightarrow> (string \<times> int) option) \<Rightarrow> string \<Rightarrow> (string \<times> 64 word) option" where
  "documentAt table t = map_option (\<lambda>(data, r). (data, word_of_int r)) (table t)"

lemma documentAt_simps [simp]:
  "table t = None \<Longrightarrow> documentAt table t = None"
  "table t = Some (data, r) \<Longrightarrow> documentAt table t = Some (data, word_of_int r)"
  "documentAt (table(t \<mapsto> (data, r))) = (documentAt table)(t \<mapsto> (data, word_of_int r))"
  by (auto simp: documentAt_def)

lemma word_of_revision:
  assumes "0 < r" "r < 2 ^ 63"
  shows "uint (word_of_int r :: 64 word) = r" "(word_of_int r :: 64 word) \<noteq> 0"
proof -
  show "uint (word_of_int r :: 64 word) = r"
    using assms by (simp add: uint_word_of_int_eq take_bit_int_eq_self)
  then show "(word_of_int r :: 64 word) \<noteq> 0" using assms by force
qed

context postgres_service
begin

lemma swappable_row:
  assumes "migrated d"
  shows "swappable (documentAt (rows d) t) r \<longleftrightarrow> (if r = 0 then rows d t = None else \<exists>old. rows d t = Some (old, uint r))"
proof (cases "rows d t")
  case None
  then show ?thesis by (simp add: swappable_def)
next
  case (Some row)
  obtain data n where row: "row = (data, n)" by fastforce
  have n: "uint (word_of_int n :: 64 word) = n" "(word_of_int n :: 64 word) \<noteq> 0"
    using word_of_revision revision_range [OF assms, of t data n] Some row by auto
  have "(word_of_int n = r) = (n = uint r)" using n(1) by auto
  then show ?thesis using Some row n(2) by (auto simp: swappable_def)
qed

lemma rows_swapped: "rows d' = (rows d)(t \<mapsto> (data, uint (r :: 64 word) + 1)) \<Longrightarrow>
    documentAt (rows d') = (documentAt (rows d))(t \<mapsto> (data, r + 1))"
  by (simp add: of_int_uint)

lemma exec_insert:
  assumes "migrated d" "pgExec db insertDocument [TextArg t, BytesArg data] d = (d', answer)"
  shows "migrated d' \<and> (case answer of
      Inl e \<Rightarrow> rows d' = rows d \<or> swappable (documentAt (rows d) t) 0 \<and> documentAt (rows d') = (documentAt (rows d))(t \<mapsto> (data, 1))
    | Inr n \<Rightarrow> if swappable (documentAt (rows d) t) 0 then n = 1 \<and> documentAt (rows d') = (documentAt (rows d))(t \<mapsto> (data, 1))
        else n = 0 \<and> rows d' = rows d)"
  using insert_row [OF assms(1), of t data d'] insert_failed [OF assms(1), of t data d'] assms
  by (auto simp: swappable_row split: sum.split)

lemma exec_update:
  assumes "migrated d" "pgExec db updateDocument [TextArg t, UintArg r, BytesArg data] d = (d', answer)" "r \<noteq> 0"
  shows "migrated d' \<and> (case answer of
      Inl e \<Rightarrow> rows d' = rows d \<or> swappable (documentAt (rows d) t) r \<and> documentAt (rows d') = (documentAt (rows d))(t \<mapsto> (data, r + 1))
    | Inr n \<Rightarrow> if swappable (documentAt (rows d) t) r then n = 1 \<and> documentAt (rows d') = (documentAt (rows d))(t \<mapsto> (data, r + 1))
        else n = 0 \<and> rows d' = rows d)"
  using update_row [OF assms(1), of t r data d'] update_failed [OF assms(1), of t r data d'] assms rows_swapped [of d' d t data r]
  by (auto simp: swappable_row split: sum.split if_splits)

lemma swap_effect:
  assumes "migrated d" "PostgresCompareAndSwap db ctx t r data d = (d', ending)"
  shows "migrated d'" "ending = None \<Longrightarrow>
      swappable (documentAt (rows d) t) r \<and> documentAt (rows d') = (documentAt (rows d))(t \<mapsto> (data, r + 1))"
    "ending = Some ErrStorageConflict \<Longrightarrow> documentAt (rows d') = documentAt (rows d)"
    "ending = Some e \<Longrightarrow> documentAt (rows d') = documentAt (rows d) \<or>
      swappable (documentAt (rows d) t) r \<and> documentAt (rows d') = (documentAt (rows d))(t \<mapsto> (data, r + 1))"
proof -
  define exec where "exec = (if r = 0 then pgExec db insertDocument [TextArg t, BytesArg data] d
    else pgExec db updateDocument [TextArg t, UintArg r, BytesArg data] d)"
  obtain d1 answer where call: "exec = (d1, answer)" by fastforce
  have cas: "(d', ending) = (case ctx of Some e \<Rightarrow> (d, Some e) | None \<Rightarrow>
      (case answer of Inl e \<Rightarrow> (d1, Some (wrapDriver e)) | Inr n \<Rightarrow> (d1, if n \<noteq> 1 then Some ErrStorageConflict else None)))"
    using assms(2) [symmetric] call
    unfolding PostgresCompareAndSwap_def exec_def [symmetric] by (cases answer) (simp_all split: option.split)
  have effect: "migrated d1 \<and> (case answer of
      Inl e \<Rightarrow> rows d1 = rows d \<or> swappable (documentAt (rows d) t) r \<and> documentAt (rows d1) = (documentAt (rows d))(t \<mapsto> (data, r + 1))
    | Inr n \<Rightarrow> if swappable (documentAt (rows d) t) r then n = 1 \<and> documentAt (rows d1) = (documentAt (rows d))(t \<mapsto> (data, r + 1))
        else n = 0 \<and> rows d1 = rows d)"
    using exec_insert [OF assms(1), of t data d1 answer] exec_update [OF assms(1), of t r data d1 answer] call
    by (cases "r = 0"; cases answer) (simp_all add: exec_def)
  show "migrated d'" using cas effect assms(1) by (auto split: option.splits sum.splits)
  show "ending = None \<Longrightarrow>
      swappable (documentAt (rows d) t) r \<and> documentAt (rows d') = (documentAt (rows d))(t \<mapsto> (data, r + 1))"
    using cas effect by (auto split: option.splits sum.splits if_splits)
  show "ending = Some ErrStorageConflict \<Longrightarrow> documentAt (rows d') = documentAt (rows d)"
    using cas effect by (auto split: option.splits sum.splits if_splits dest: sym [of ErrStorageConflict])
  show "ending = Some e \<Longrightarrow> documentAt (rows d') = documentAt (rows d) \<or>
      swappable (documentAt (rows d) t) r \<and> documentAt (rows d') = (documentAt (rows d))(t \<mapsto> (data, r + 1))"
    using cas effect by (auto split: option.splits sum.splits if_splits)
qed

lemma load_effect:
  assumes "migrated d" "PostgresLoad db ctx t d = (d', reply)"
  shows "migrated d'" "rows d' = rows d"
    "reply = Inr (data, r, True) \<Longrightarrow> documentAt (rows d) t = Some (data, r) \<and> r \<noteq> 0"
    "reply = Inr (data, r, False) \<Longrightarrow> documentAt (rows d) t = None \<and> r = 0"
proof -
  obtain d1 answer where call: "pgQueryRow db selectDocument [TextArg t] d = (d1, answer)" by fastforce
  note row = select_row [OF assms(1) call]
  have answers: "ctx = None \<longrightarrow> (case answer of NoRows \<Rightarrow> rows d t = None \<and> reply = Inr ([], 0, False)
      | RowError e \<Rightarrow> reply = Inl (wrapDriver e)
      | Row columns \<Rightarrow> \<exists>data n. rows d t = Some (data, n) \<and> reply = Inr (data, word_of_int n, True))"
    using assms call row revision_range [OF assms(1), of t]
    by (auto simp: PostgresLoad_def split: rowReply.splits)
  show "migrated d'" "rows d' = rows d"
    using assms call row by (auto simp: PostgresLoad_def split: option.splits rowReply.splits sum.splits)
  show "documentAt (rows d) t = Some (data, r) \<and> r \<noteq> 0" if "reply = Inr (data, r, True)"
    using answers assms that word_of_revision(2) revision_range [OF assms(1), of t]
    by (cases ctx) (auto simp: PostgresLoad_def split: rowReply.splits)
  show "documentAt (rows d) t = None \<and> r = 0" if "reply = Inr (data, r, False)"
    using answers assms that by (cases ctx) (auto simp: PostgresLoad_def split: rowReply.splits)
qed

end

sublocale postgres_service \<subseteq> pg: document_backend "PostgresBackend db" "\<lambda>d. documentAt (rows d)" "\<lambda>t. t" migrated "2 ^ 63 - 1"
proof (unfold_locales, goal_cases)
  case (2 b ctx t b' reply)
  then show ?case using load_effect(1,2) by (simp add: PostgresBackend_def)
next
  case (3 b ctx t b' data r)
  then show ?case using load_effect(3) by (simp add: PostgresBackend_def)
next
  case (4 b ctx t b' data r)
  then show ?case using load_effect(4) by (simp add: PostgresBackend_def)
next
  case (5 b ctx t r data b' ending)
  then show ?case using swap_effect(1) by (simp add: PostgresBackend_def)
next
  case (6 b t ctx r data b')
  then show ?case using swap_effect(2) by (simp add: PostgresBackend_def)
next
  case (7 b ctx t r data b')
  then show ?case using swap_effect(3) by (simp add: PostgresBackend_def)
next
  case (8 b t ctx r data b' e)
  then show ?case using swap_effect(4) by (simp add: PostgresBackend_def)
qed simp

section \<open>A service that is up\<close>

text \<open>
  While the service is up, statements on a storable tenant (a text PostgreSQL accepts) are answered, unless
  the next revision leaves the range of the column.
\<close>

locale postgres_up = postgres_service +
  fixes up :: "'a \<Rightarrow> bool"
    and storable :: "string \<Rightarrow> bool"
  assumes up_select: "up d \<Longrightarrow> storable t \<Longrightarrow> pgQueryRow db selectDocument [TextArg t] d \<noteq> (d', RowError e)"
    and up_insert: "up d \<Longrightarrow> storable t \<Longrightarrow> pgExec db insertDocument [TextArg t, BytesArg data] d \<noteq> (d', Inl e)"
    and up_update: "up d \<Longrightarrow> storable t \<Longrightarrow> unat w < 2 ^ 63 - 1 \<Longrightarrow>
      pgExec db updateDocument [TextArg t, UintArg w, BytesArg data] d \<noteq> (d', Inl e)"
    and up_query: "up d \<Longrightarrow> up (fst (pgQueryRow db sql args d))"
    and up_exec: "up d \<Longrightarrow> up (fst (pgExec db sql args d))"
begin

lemma up_load: "up d \<Longrightarrow> PostgresLoad db ctx t d = (d', reply) \<Longrightarrow> up d'"
  using up_query [of d selectDocument "[TextArg t]"]
  by (auto simp: PostgresLoad_def split: option.splits prod.splits rowReply.splits sum.splits)

lemma up_swap: "up d \<Longrightarrow> PostgresCompareAndSwap db ctx t r data d = (d', ending) \<Longrightarrow> up d'"
  using up_exec [of d insertDocument "[TextArg t, BytesArg data]"] up_exec [of d updateDocument "[TextArg t, UintArg r, BytesArg data]"]
  by (auto simp: PostgresCompareAndSwap_def split: option.splits prod.splits sum.splits if_splits)

lemma up_load_answers:
  assumes "migrated d" "up d" "storable t" "PostgresLoad db None t d = (d', reply)"
  shows "\<not> isl reply"
proof -
  obtain d1 answer where call: "pgQueryRow db selectDocument [TextArg t] d = (d1, answer)" by fastforce
  then show ?thesis
    using assms select_row [OF assms(1) call] up_select [OF assms(2,3)] revision_range [OF assms(1), of t]
    by (cases answer) (auto simp: PostgresLoad_def)
qed

lemma up_swap_answers:
  assumes "migrated d" "up d" "storable t" "unat r < 2 ^ 63 - 1" "PostgresCompareAndSwap db None t r data d = (d', ending)"
  shows "ending = (if swappable (documentAt (rows d) t) r then None else Some ErrStorageConflict)"
proof (cases "r = 0")
  case True
  obtain d1 answer where call: "pgExec db insertDocument [TextArg t, BytesArg data] d = (d1, answer)" by fastforce
  then show ?thesis
    using assms True exec_insert [OF assms(1) call] up_insert [OF assms(2,3)]
    by (cases answer) (auto simp: PostgresCompareAndSwap_def split: if_splits)
next
  case False
  obtain d1 answer where call: "pgExec db updateDocument [TextArg t, UintArg r, BytesArg data] d = (d1, answer)" by fastforce
  then show ?thesis
    using assms False exec_update [OF assms(1) call] up_update [OF assms(2,3,4)]
    by (cases answer) (auto simp: PostgresCompareAndSwap_def split: if_splits)
qed

end

sublocale postgres_up \<subseteq> up: available_backend "PostgresBackend db" "\<lambda>d. documentAt (rows d)" "\<lambda>t. t" migrated "2 ^ 63 - 1" up storable
proof (unfold_locales, goal_cases)
  case (1 b t b' reply)
  then show ?case using up_load_answers by (simp add: PostgresBackend_def)
next
  case (2 b ctx t b' reply)
  then show ?case using up_load by (simp add: PostgresBackend_def)
next
  case (3 b ctx t r data b' ending)
  then show ?case using up_swap by (simp add: PostgresBackend_def)
next
  case (4 b t r data b' ending)
  then show ?case using up_swap_answers [of b t r data b' ending] by (simp add: PostgresBackend_def)
qed

lemma next_revision_range: "unat (w :: 64 word) < 2 ^ 63 - 1 \<Longrightarrow> uint w + 1 < 2 ^ 63"
  by (simp add: unat_eq_nat_uint nat_less_iff del: nat_uint_eq)

section \<open>A table in memory\<close>

text \<open>
  A database that carries out the statements of the backend on an association list. \<open>tbFaults\<close> are the
  failures still to come: each ends one call, after it was carried out or before.
\<close>

record table =
  tbRows :: "(string \<times> string \<times> int) list"
  tbFaults :: "(driverErr \<times> bool) list"

definition tableRun :: "string \<Rightarrow> arg list \<Rightarrow> table \<Rightarrow> table \<times> (driverErr + int)" where
  "tableRun sql args d =
     (if sql = insertDocument then
        (case args of
           [TextArg t, BytesArg data] \<Rightarrow>
             if map_of (tbRows d) t = None then (d\<lparr> tbRows := AList.update t (data, 1) (tbRows d) \<rparr>, Inr 1) else (d, Inr 0)
         | _ \<Rightarrow> (d, Inl (DriverFailure ''arguments'')))
      else if sql = updateDocument then
        (case args of
           [TextArg t, UintArg r, BytesArg data] \<Rightarrow>
             (case map_of (tbRows d) t of
                None \<Rightarrow> (d, Inr 0)
              | Some (old, current) \<Rightarrow>
                  if current \<noteq> uint r then (d, Inr 0)
                  else if current + 1 \<ge> 2 ^ 63 then (d, Inl (DriverFailure ''bigint out of range''))
                  else (d\<lparr> tbRows := AList.update t (data, current + 1) (tbRows d) \<rparr>, Inr 1))
         | _ \<Rightarrow> (d, Inl (DriverFailure ''arguments'')))
      else if sql = schema then (d, Inr 0)
      else (d, Inl (DriverFailure ''statement'')))"

definition tableExec :: "string \<Rightarrow> arg list \<Rightarrow> table \<Rightarrow> table \<times> (driverErr + int)" where
  "tableExec sql args d =
     (case tbFaults d of
        [] \<Rightarrow> tableRun sql args d
      | (e, applied) # faults \<Rightarrow> ((if applied then fst (tableRun sql args d) else d)\<lparr> tbFaults := faults \<rparr>, Inl e))"

definition tableQuery :: "string \<Rightarrow> arg list \<Rightarrow> table \<Rightarrow> table \<times> rowReply" where
  "tableQuery sql args d =
     (case tbFaults d of
        (e, applied) # faults \<Rightarrow> (d\<lparr> tbFaults := faults \<rparr>, RowError e)
      | [] \<Rightarrow>
          (d, if sql = selectOne then Row [IntColumn 1]
              else (case args of
                 [TextArg t] \<Rightarrow> (case map_of (tbRows d) t of None \<Rightarrow> NoRows | Some (data, r) \<Rightarrow> Row [ByteaColumn data, BigintColumn r])
               | _ \<Rightarrow> RowError (DriverFailure ''arguments''))))"

definition tableDB :: "table DB" where
  "tableDB = \<lparr> pgExec = tableExec, pgQueryRow = tableQuery \<rparr>"

definition tableMigrated :: "table \<Rightarrow> bool" where
  "tableMigrated d \<longleftrightarrow> (\<forall>t data r. map_of (tbRows d) t = Some (data, r) \<longrightarrow> 0 < r \<and> r < 2 ^ 63)"

lemma statements_distinct [simp]:
  "insertDocument \<noteq> updateDocument" "updateDocument \<noteq> insertDocument" "selectDocument \<noteq> selectOne"
  by (simp_all add: insertDocument_def updateDocument_def selectDocument_def selectOne_def newline_def)

lemma tableRun_insert: "tableRun insertDocument [TextArg t, BytesArg data] d =
    (if map_of (tbRows d) t = None then (d\<lparr> tbRows := AList.update t (data, 1) (tbRows d) \<rparr>, Inr 1) else (d, Inr 0))"
  by (simp add: tableRun_def)

lemma tableRun_update: "tableRun updateDocument [TextArg t, UintArg r, BytesArg data] d =
    (case map_of (tbRows d) t of
       None \<Rightarrow> (d, Inr 0)
     | Some (old, current) \<Rightarrow>
         if current \<noteq> uint r then (d, Inr 0)
         else if current + 1 \<ge> 2 ^ 63 then (d, Inl (DriverFailure ''bigint out of range''))
         else (d\<lparr> tbRows := AList.update t (data, current + 1) (tbRows d) \<rparr>, Inr 1))"
  by (simp add: tableRun_def)

lemma tableMigrated_faults [simp]: "tableMigrated (d\<lparr> tbFaults := faults \<rparr>) = tableMigrated d"
  by (simp add: tableMigrated_def)

lemma tableMigrated_update: "tableMigrated d \<Longrightarrow> 0 < r \<Longrightarrow> r < 2 ^ 63 \<Longrightarrow> tbRows d' = AList.update t (data, r) (tbRows d) \<Longrightarrow> tableMigrated d'"
  by (auto simp: tableMigrated_def map_of_AList_update)

lemma tableRun_update_keeps:
  assumes "tableMigrated d"
  shows "tableMigrated (fst (tableRun updateDocument [TextArg t, UintArg w, BytesArg data] d)) \<and>
    (map_of (tbRows (fst (tableRun updateDocument [TextArg t, UintArg w, BytesArg data] d))) = map_of (tbRows d) \<or>
     (\<exists>old. map_of (tbRows d) t = Some (old, uint w)) \<and>
     map_of (tbRows (fst (tableRun updateDocument [TextArg t, UintArg w, BytesArg data] d))) = (map_of (tbRows d))(t \<mapsto> (data, uint w + 1)))"
  using assms by (auto simp: tableRun_update map_of_AList_update split: option.splits
      intro: tableMigrated_update [where r = "uint w + 1"])

interpretation table: postgres_up tableDB "\<lambda>d. map_of (tbRows d)" tableMigrated "\<lambda>d. tbFaults d = []" "\<lambda>t. True"
proof (unfold_locales, goal_cases)
  case (1 d t data r)
  then show ?case by (simp add: tableMigrated_def)
next
  case (2 d t d' reply)
  then show ?case
    by (auto simp: tableDB_def tableQuery_def tableMigrated_def split: list.splits option.splits)
next
  case (3 d t data d' n)
  then show ?case
    by (auto simp: tableDB_def tableExec_def tableRun_insert map_of_AList_update split: list.splits if_splits
        intro: tableMigrated_update [where r = 1])
next
  case (4 d t data d' e)
  then show ?case
    by (auto simp: tableDB_def tableExec_def tableRun_insert map_of_AList_update split: list.splits if_splits
        intro: tableMigrated_update [where r = 1]) (auto simp: tableMigrated_def)
next
  case (5 d t w data d' n)
  then show ?case using tableRun_update_keeps [of d t w data]
    by (auto simp: tableDB_def tableExec_def tableRun_update map_of_AList_update split: list.splits option.splits if_splits)
next
  case (6 d t w data d' e)
  note keeps = tableRun_update_keeps [OF 6(1), of t w data]
  show ?case
  proof (cases "tbFaults d")
    case Nil
    then have "d' = fst (tableRun updateDocument [TextArg t, UintArg w, BytesArg data] d)"
      using 6(2) by (simp add: tableDB_def tableExec_def)
    then show ?thesis using keeps by simp
  next
    case (Cons fault faults)
    then have "d' = (if snd fault then fst (tableRun updateDocument [TextArg t, UintArg w, BytesArg data] d) else d)\<lparr> tbFaults := faults \<rparr>"
      using 6(2) by (auto simp: tableDB_def tableExec_def split: prod.splits)
    then show ?thesis using keeps 6(1) by (cases "snd fault") simp_all
  qed
next
  case (9 d t w data d' e)
  have "uint w + 1 < 2 ^ 63" using 9(3) by (rule next_revision_range)
  with 9 show ?case by (auto simp: tableDB_def tableExec_def tableRun_update split: option.splits if_splits)
qed (auto simp: tableDB_def tableExec_def tableQuery_def tableRun_def split: list.splits option.splits if_splits arg.splits)

end
