(* ===== verification/Json_Round.thy ===== *)
theory Json_Round
  imports Json_Codec
begin

text \<open>
  What \<^verbatim>\<open>Marshal\<close> writes, the decoder reads back: for every well-formed schema, a value within the limits
  of the format decodes to itself, with maps in the order of their keys, raw messages compacted and
  empty \<^verbatim>\<open>omitempty\<close> fields zero.
\<close>

section \<open>Literals\<close>

lemma literalOKI: "(\<And>rest. scanString (t @ quote # rest) = Some (t, rest)) \<Longrightarrow> literalOK t"
  by (simp add: literalOK_def)

lemma literalOK_Nil [simp]: "literalOK []"
  by (simp add: literalOK_def scanString.simps)

lemma literalOK_quoteChars [simp]: "literalOK (quoteChars s)"
  by (simp add: literalOKI scanString_quoteChars)

lemma literalOK_cases:
  assumes "literalOK (c # t)"
  obtains e t1 where "c = backslash" "t = e # t1" "simpleEscape e" "literalOK t1"
  | h1 h2 h3 h4 t5 where "c = backslash" "t = CHR ''u'' # h1 # h2 # h3 # h4 # t5"
      "isHex h1" "isHex h2" "isHex h3" "isHex h4" "literalOK t5"
  | "c \<noteq> quote" "c \<noteq> backslash" "\<not> of_char c < (32 :: nat)" "literalOK t"
proof -
  have "scanString (c # (t @ [quote])) = Some (c # t, [])"
    using assms by (simp add: literalOK_def)
  then show ?thesis
    by (rule scanString_cases)
       (use that in \<open>auto simp: literalOK_def append_eq_Cons_conv Cons_eq_append_conv\<close>)
qed

lemma literalOK_plain:
  "c \<noteq> quote \<Longrightarrow> c \<noteq> backslash \<Longrightarrow> \<not> of_char c < (32 :: nat) \<Longrightarrow> literalOK t \<Longrightarrow> literalOK (c # t)"
  by (simp add: literalOK_def scanString.simps(2))

lemma literalOK_escape: "simpleEscape e \<Longrightarrow> literalOK t \<Longrightarrow> literalOK (backslash # e # t)"
  by (simp add: literalOK_def scanString.simps(2))

lemma literalOK_hex:
  "isHex h1 \<Longrightarrow> isHex h2 \<Longrightarrow> isHex h3 \<Longrightarrow> isHex h4 \<Longrightarrow> literalOK t \<Longrightarrow>
     literalOK (backslash # CHR ''u'' # h1 # h2 # h3 # h4 # t)"
  by (simp add: literalOK_def scanString.simps(2) simpleEscape_def)

lemma htmlEscape_skip:
  "c \<notin> {CHR ''<'', CHR ''>'', CHR ''&''} \<Longrightarrow> c \<noteq> CHR 0xE2 \<Longrightarrow> htmlEscape (c # t) = c # htmlEscape t"
  by (auto simp: htmlEscape.simps(2) lineSeparator_def split: list.split)

lemma htmlEscape_cases:
  "c \<in> {CHR ''<'', CHR ''>'', CHR ''&''} \<or>
   c \<notin> {CHR ''<'', CHR ''>'', CHR ''&''} \<and> (\<exists>b d r2. r = b # d # r2 \<and> lineSeparator c b d) \<or>
   htmlEscape (c # r) = c # htmlEscape r"
  by (auto simp: htmlEscape.simps(2) split: list.split)

lemma isHex_skip: "isHex c \<Longrightarrow> c \<notin> {CHR ''<'', CHR ''>'', CHR ''&''} \<and> c \<noteq> CHR 0xE2"
  by (auto simp: isHex_def isDigit_def)

lemma simpleEscape_skip: "simpleEscape c \<Longrightarrow> c \<notin> {CHR ''<'', CHR ''>'', CHR ''&''} \<and> c \<noteq> CHR 0xE2"
  by (auto simp: simpleEscape_def)

lemma literalOK_escapeU: "literalOK t \<Longrightarrow> byteIn 0 127 c \<Longrightarrow> literalOK (escapeU c @ t)"
  using hexDigit_16 [of "of_char c div 16"] hexDigit_16 [of "of_char c mod 16"]
  by (auto simp: escapeU_def byteIn_def intro!: literalOK_hex) (auto simp: isHex_def isDigit_def)

lemma literalOK_separator: "lineSeparator a b c \<Longrightarrow> literalOK t \<Longrightarrow> literalOK (separatorEscape c @ t)"
  by (auto simp: lineSeparator_def separatorEscape_def hexDigit_def isHex_def isDigit_def intro!: literalOK_hex)

lemma literalOK_tail: "literalOK (c # t) \<Longrightarrow> c \<noteq> backslash \<Longrightarrow> literalOK t"
  by (auto elim: literalOK_cases)

lemma literalOK_htmlEscape: "literalOK t \<Longrightarrow> literalOK (htmlEscape t)"
proof (induction t rule: length_induct)
  case (1 t)
  show ?case
  proof (cases t)
    case Nil
    then show ?thesis by simp
  next
    case (Cons c r)
    from \<open>literalOK t\<close> [unfolded Cons] show ?thesis
    proof (cases rule: literalOK_cases)
      case (1 e t1)
      have "htmlEscape t = backslash # e # htmlEscape t1"
        unfolding Cons 1 using simpleEscape_skip [OF 1(3)] by (simp add: htmlEscape_skip)
      then show ?thesis
        using "1.IH" 1 Cons by (simp add: literalOK_escape)
    next
      case (2 h1 h2 h3 h4 t5)
      have "htmlEscape t = backslash # CHR ''u'' # h1 # h2 # h3 # h4 # htmlEscape t5"
        unfolding Cons 2 using isHex_skip [OF 2(3)] isHex_skip [OF 2(4)] isHex_skip [OF 2(5)] isHex_skip [OF 2(6)]
        by (simp add: htmlEscape_skip)
      then show ?thesis
        using "1.IH" 2 Cons by (simp add: literalOK_hex)
    next
      case 3
      have IH: "literalOK (htmlEscape r)"
        using "1.IH" 3 Cons by simp
      consider (html) "c \<in> {CHR ''<'', CHR ''>'', CHR ''&''}"
        | (separator) b d r2 where "c \<notin> {CHR ''<'', CHR ''>'', CHR ''&''}" "r = b # d # r2" "lineSeparator c b d"
        | (plain) "htmlEscape t = c # htmlEscape r"
        using htmlEscape_cases [of c r] Cons by blast
      then show ?thesis
      proof cases
        case html
        then have "htmlEscape t = escapeU c @ htmlEscape r" "byteIn 0 127 c"
          unfolding Cons htmlEscape.simps(2) by (auto simp: byteIn_def)
        then show ?thesis
          using IH by (simp add: literalOK_escapeU)
      next
        case separator
        then have "literalOK r2" "htmlEscape t = separatorEscape d @ htmlEscape r2"
          using 3 unfolding Cons htmlEscape.simps(2) by (auto simp: lineSeparator_def dest!: literalOK_tail)
        then show ?thesis
          using "1.IH" Cons separator by (simp add: literalOK_separator)
      next
        case plain
        then show ?thesis
          using 3 IH by (simp add: literalOK_plain)
      qed
    qed
  qed
qed

lemma wfJson_compact: "wfJson room j \<Longrightarrow> wfJson room (compactJson j)"
  by (induction j arbitrary: room rule: compactJson.induct)
     (fastforce simp: list_all_iff literalOK_htmlEscape)+

lemma sourceOf_canonJson [simp]: "sourceOf (canonJson j) = printJson j"
  by (cases j) simp_all

section \<open>Numbers\<close>

lemma decimal_nonempty [simp]: "decimal x \<noteq> []"
  by (subst decimal.simps) simp

lemma decimal_digits: "0 \<le> x \<Longrightarrow> list_all isDigit (decimal x)"
  by (induction x rule: decimal.induct) (subst decimal.simps, simp)

lemma digitsValue_decimal: "0 \<le> x \<Longrightarrow> digitsValue (decimal x) = x"
proof (induction x rule: decimal.induct)
  case (1 x)
  show ?case
  proof (cases "x < 10")
    case True
    then have "decimal x = [] @ [char_of (48 + x)]"
      by (simp add: decimal.simps)
    then show ?thesis
      using True 1(2) by (simp only: digitsValue_append digitValue_char) (simp add: digitsValue_def)
  next
    case False
    then have "decimal x = decimal (x div 10) @ [char_of (48 + x mod 10)]"
      by (subst decimal.simps) simp
    then show ?thesis
      using 1 False by (simp only: digitsValue_append digitValue_char pos_mod_sign pos_mod_bound) simp
  qed
qed

lemma decimal_head: "0 < x \<Longrightarrow> \<exists>c r. decimal x = c # r \<and> isDigit19 c"
proof (induction x rule: decimal.induct)
  case (1 x)
  show ?case
  proof (cases "x < 10")
    case True
    then have "isDigit19 (char_of (48 + x))"
      using 1(2) isDigit_char [of x] digitValue_char [of x]
      by (auto simp: isDigit19_def isDigit_def digitValue_def simp flip: of_nat_of_char [where ?'a = int])
    then show ?thesis
      using True by (simp add: decimal.simps)
  next
    case False
    then have "\<exists>c r. decimal (x div 10) = c # r \<and> isDigit19 c"
      using 1(1) by simp
    then show ?thesis
      using False by (subst decimal.simps) auto
  qed
qed

lemma intPart_decimal: "0 \<le> x \<Longrightarrow> intPart (decimal x) = Some (decimal x, [])"
proof (cases "x = 0")
  case True
  then show ?thesis
    by (simp add: decimal.simps intPart_def char_of_eq_iff take_bit_eq_mod)
next
  case False
  assume "0 \<le> x"
  then obtain c r where eq: "decimal x = c # r" "isDigit19 c"
    using False decimal_head [of x] by auto
  then have "c \<noteq> CHR ''0''" "\<forall>d\<in>set r. isDigit d"
    using decimal_digits [OF \<open>0 \<le> x\<close>] by (auto simp: list_all_iff isDigit19_def)
  then show ?thesis
    using eq by (simp add: intPart_def)
qed

lemma optSign_decimal: "0 \<le> x \<Longrightarrow> optSign (decimal x) = ([], decimal x)"
  using decimal_digits [of x] by (cases "decimal x") (auto simp: optSign_def isDigit_def)

lemma optSign_intText: "optSign (intText i) = (if i < 0 then ''-'' else [], decimal \<bar>i\<bar>)"
  by (simp add: intText_def optSign_decimal) (simp add: optSign_def)

lemma parse_intText: "parseIntText (intText i) = Some i"
  using decimal_digits [of "\<bar>i\<bar>"]
  by (simp add: parseIntText_def optSign_intText digitsValue_decimal)

lemma validNumber_intText: "validNumber (intText i)"
  using intPart_decimal [of "\<bar>i\<bar>"]
  by (simp add: validNumber_def parseNumber_def optSign_intText fracPart_def expPart_def) (simp add: intText_def)

section \<open>Schemas and values that survive\<close>

fun nullable :: "jtype \<Rightarrow> bool" where
  "nullable (JTPtr ty) = True"
| "nullable (JTSlice ty) = True"
| "nullable (JTMap ty) = True"
| "nullable JTRaw = True"
| "nullable _ = False"

definition plainName :: "string \<Rightarrow> bool" where
  "plainName s \<longleftrightarrow> literalOK s \<and> unquoteChars s = s"

fun wfType :: "jtype \<Rightarrow> bool" where
  "wfType (JTPtr ty) = (\<not> nullable ty \<and> wfType ty)"
| "wfType (JTSlice ty) = wfType ty"
| "wfType (JTMap ty) = wfType ty"
| "wfType (JTStruct fs) =
     (distinct (map fst fs) \<and> list_all (\<lambda>(name, omit, ty). plainName name \<and> wfType ty) fs)"
| "wfType ty = True"

text \<open>
  Values that the format carries: strings of valid UTF-8, integers of their type, times whose year has four
  digits, maps with distinct keys, and raw messages that do not nest too deep where they stand (\<open>room\<close> is
  the nesting left).
\<close>

fun okJ :: "nat \<Rightarrow> jtype \<Rightarrow> jval \<Rightarrow> bool"
  and okFields :: "nat \<Rightarrow> (string \<times> bool \<times> jtype) list \<Rightarrow> jval list \<Rightarrow> bool"
where
  "okJ room JTBool v = (case v of VBool b \<Rightarrow> True | _ \<Rightarrow> False)"
| "okJ room JTString v = (case v of VString s \<Rightarrow> ValidString s | _ \<Rightarrow> False)"
| "okJ room JTInt v = (case v of VInt i \<Rightarrow> - (2 ^ 63) \<le> i \<and> i < 2 ^ 63 | _ \<Rightarrow> False)"
| "okJ room (JTUint w) v = (case v of VInt i \<Rightarrow> 0 \<le> i \<and> i < 2 ^ w | _ \<Rightarrow> False)"
| "okJ room JTFloat v = (case v of VFloat f \<Rightarrow> formatFloat f \<noteq> None | _ \<Rightarrow> False)"
| "okJ room JTRaw v =
     (case v of
        VRaw None \<Rightarrow> True
      | VRaw (Some s) \<Rightarrow> (case parseJson s of None \<Rightarrow> False | Some j \<Rightarrow> wfJson room j)
      | _ \<Rightarrow> False)"
| "okJ room JTTime v = (case v of VTime t \<Rightarrow> 0 \<le> yearOf t \<and> yearOf t \<le> 9999 | _ \<Rightarrow> False)"
| "okJ room (JTPtr ty) v = (case v of VPtr None \<Rightarrow> True | VPtr (Some w) \<Rightarrow> okJ room ty w | _ \<Rightarrow> False)"
| "okJ room (JTSlice ty) v = (case v of VSlice vs \<Rightarrow> room \<noteq> 0 \<and> list_all (okJ (room - 1) ty) vs | _ \<Rightarrow> False)"
| "okJ room (JTMap ty) v =
     (case v of
        VMap m \<Rightarrow>
          room \<noteq> 0 \<and> distinct (map fst m) \<and> list_all (\<lambda>(k, w). ValidString k \<and> okJ (room - 1) ty w) m
      | _ \<Rightarrow> False)"
| "okJ room (JTStruct fs) v = (case v of VStruct vs \<Rightarrow> room \<noteq> 0 \<and> okFields (room - 1) fs vs | _ \<Rightarrow> False)"
| "okFields room [] vs = (vs = [])"
| "okFields room (f # fs) vs =
     (case (f, vs) of
        ((name, omit, ty), v # vs') \<Rightarrow> (omit \<and> isEmptyValue v \<or> okJ room ty v) \<and> okFields room fs vs'
      | _ \<Rightarrow> False)"

text \<open>The value read back.\<close>

fun normJ :: "jtype \<Rightarrow> jval \<Rightarrow> jval"
  and normFields :: "(string \<times> bool \<times> jtype) list \<Rightarrow> jval list \<Rightarrow> jval list"
where
  "normJ JTRaw v =
     (case v of
        VRaw None \<Rightarrow> VRaw (Some ''null'')
      | VRaw (Some s) \<Rightarrow> VRaw (map_option (\<lambda>j. printJson (compactJson j)) (parseJson s))
      | _ \<Rightarrow> v)"
| "normJ (JTPtr ty) v = (case v of VPtr (Some w) \<Rightarrow> VPtr (Some (normJ ty w)) | _ \<Rightarrow> v)"
| "normJ (JTSlice ty) v = (case v of VSlice vs \<Rightarrow> VSlice (map (normJ ty) vs) | _ \<Rightarrow> v)"
| "normJ (JTMap ty) v =
     (case v of VMap m \<Rightarrow> VMap (map (\<lambda>(k, w). (k, normJ ty w)) (sort_key fst m)) | _ \<Rightarrow> v)"
| "normJ (JTStruct fs) v = (case v of VStruct vs \<Rightarrow> VStruct (normFields fs vs) | _ \<Rightarrow> v)"
| "normJ ty v = v"
| "normFields [] vs = []"
| "normFields (f # fs) vs =
     (case (f, vs) of
        ((name, omit, ty), v # vs') \<Rightarrow>
          (if omit \<and> isEmptyValue v then zeroJ ty else normJ ty v) # normFields fs vs'
      | _ \<Rightarrow> [])"

section \<open>Round trip\<close>

definition roundTrips :: "nat \<Rightarrow> jtype \<Rightarrow> jval \<Rightarrow> bool" where
  "roundTrips room ty v \<longleftrightarrow>
     (\<exists>j. encodeJ ty v = Inr j \<and> wfJson room j \<and> (j = JNull \<longrightarrow> nullable ty) \<and>
          decodeJ ty (canonJson j) (zeroJ ty) = Inr (normJ ty v))"

lemma canonJson_null [simp]: "canonJson j = JNull \<longleftrightarrow> j = JNull"
  by (cases j) simp_all

lemma mapRes_list_all2:
  assumes "\<And>x. x \<in> set xs \<Longrightarrow> \<exists>y. f x = Inr y \<and> R x y"
  shows "\<exists>ys. mapRes f xs = Inr ys \<and> list_all2 R xs ys"
  using assms
proof (induction xs)
  case (Cons x xs)
  then obtain y ys where "f x = Inr y" "R x y" "mapRes f xs = Inr ys" "list_all2 R xs ys"
    by (metis list.set_intros)
  then show ?case
    by simp
qed simp

lemma roundTrips_scalars:
  "roundTrips room JTBool (VBool b)"
  "ValidString s \<Longrightarrow> roundTrips room JTString (VString s)"
  "- (2 ^ 63) \<le> i \<Longrightarrow> i < 2 ^ 63 \<Longrightarrow> roundTrips room JTInt (VInt i)"
  "0 \<le> i \<Longrightarrow> i < 2 ^ w \<Longrightarrow> roundTrips room (JTUint w) (VInt i)"
  by (simp_all add: roundTrips_def unquote_quoteChars parse_intText validNumber_intText optSign_intText)

lemma roundTrips_float: "formatFloat f \<noteq> None \<Longrightarrow> roundTrips room JTFloat (VFloat f)"
  by (auto simp: roundTrips_def parse_formatFloat)

lemma roundTrips_raw:
  "roundTrips room JTRaw (VRaw None)"
  "parseJson s = Some j \<Longrightarrow> wfJson room j \<Longrightarrow> roundTrips room JTRaw (VRaw (Some s))"
  by (simp_all add: roundTrips_def wfJson_compact)

lemma roundTrips_nil: "roundTrips room (JTPtr ty) (VPtr None)"
  by (simp add: roundTrips_def)

lemma roundTrips_ptr:
  assumes "\<not> nullable ty" "roundTrips room ty v"
  shows "roundTrips room (JTPtr ty) (VPtr (Some v))"
proof -
  obtain j where "encodeJ ty v = Inr j" "wfJson room j" "j \<noteq> JNull" "decodeJ ty (canonJson j) (zeroJ ty) = Inr (normJ ty v)"
    using assms unfolding roundTrips_def by blast
  then show ?thesis
    by (simp add: roundTrips_def)
qed

lemma roundTrips_slice:
  assumes "room \<noteq> 0" "\<And>v. v \<in> set vs \<Longrightarrow> roundTrips (room - 1) ty v"
  shows "roundTrips room (JTSlice ty) (VSlice vs)"
proof (cases "vs = []")
  case False
  define R where "R = (\<lambda>v j. wfJson (room - 1) j \<and> decodeJ ty (canonJson j) (zeroJ ty) = Inr (normJ ty v))"
  obtain js where js: "mapRes (encodeJ ty) vs = Inr js" "list_all2 R vs js"
    using mapRes_list_all2 [of vs "encodeJ ty" R] assms(2) by (auto simp: roundTrips_def R_def)
  have "list_all (wfJson (room - 1)) js"
       "mapRes (\<lambda>(x, v). decodeJ ty x v) (zip (map canonJson js) (replicate (length js) (zeroJ ty))) = Inr (map (normJ ty) vs)"
    using js(2) by (induction rule: list_all2_induct) (simp_all add: R_def)
  then show ?thesis
    using js(1) False assms(1) by (simp add: roundTrips_def)
qed (simp add: roundTrips_def)

lemma roundTrips_time:
  assumes "0 \<le> yearOf t" "yearOf t \<le> 9999" "literalOK (formatRFC3339Nano t)"
  shows "roundTrips room JTTime (VTime t)"
  using assms by (simp add: roundTrips_def parse_format)

lemma roundTrips_map:
  assumes "room \<noteq> 0" "distinct (map fst m)"
    and "\<And>k v. (k, v) \<in> set m \<Longrightarrow> ValidString k \<and> roundTrips (room - 1) ty v"
  shows "roundTrips room (JTMap ty) (VMap m)"
proof (cases "m = []")
  case False
  define step where "step = (\<lambda>(k, x) m. rbind (decodeJ ty x (zeroJ ty)) (\<lambda>v. Inr (AList.update (unquoteChars k) v m)))"
  define enc where "enc = (\<lambda>(k, w). rbind (encodeJ ty w) (\<lambda>j. Inr (quoteChars k, j)))"
  define R where "R = (\<lambda>(k, v) (k', j). literalOK k' \<and> unquoteChars k' = k \<and> wfJson (room - 1) j \<and>
      decodeJ ty (canonJson j) (zeroJ ty) = Inr (normJ ty v))"
  have "\<exists>y. enc kv = Inr y \<and> R kv y" if "kv \<in> set (sort_key fst m)" for kv
    using assms(3) [of "fst kv" "snd kv"] that
    by (auto simp: enc_def R_def roundTrips_def unquote_quoteChars split: prod.split)
  then obtain kvs where kvs: "mapRes enc (sort_key fst m) = Inr kvs" "list_all2 R (sort_key fst m) kvs"
    using mapRes_list_all2 [of "sort_key fst m" enc R] by blast
  have fold: "distinct (map fst (acc @ ms)) \<Longrightarrow>
      foldRes step (map (\<lambda>(k, j). (k, canonJson j)) ks) acc = Inr (acc @ map (\<lambda>(k, w). (k, normJ ty w)) ms)"
    if "list_all2 R ms ks" for ms ks acc
    using that
  proof (induction arbitrary: acc rule: list_all2_induct)
    case (Cons x xs y ys)
    then show ?case
      by (auto simp: step_def R_def set_update_new split: prod.splits)
  qed simp
  have "distinct (map fst (sort_key fst m))"
    using assms(2) by (simp add: distinct_map)
  then have "foldRes step (map (\<lambda>(k, j). (k, canonJson j)) kvs) [] = Inr (map (\<lambda>(k, w). (k, normJ ty w)) (sort_key fst m))"
    using fold [OF kvs(2), of "[]"] by simp
  moreover have "list_all (\<lambda>(k, j). literalOK k \<and> wfJson (room - 1) j) kvs"
    using kvs(2) by (induction rule: list_all2_induct) (auto simp: R_def)
  ultimately show ?thesis
    using kvs(1) False assms(1) by (simp add: roundTrips_def step_def enc_def)
qed (simp add: roundTrips_def)

definition decodeMember :: "(string \<times> bool \<times> jtype) list \<Rightarrow> string \<times> json \<Rightarrow> jval list \<Rightarrow> jval list res" where
  "decodeMember fs = (\<lambda>(k, x) vs.
     case matchField fs (unquoteChars k) of
       None \<Rightarrow> Inl (ErrMsg ''json: unknown field'')
     | Some name \<Rightarrow> decodeField fs name x vs)"

lemma decodeField_at:
  "length pre = length pvs \<Longrightarrow> name \<notin> fst ` set pre \<Longrightarrow>
     decodeField (pre @ (name, omit, ty) # post) name j (pvs @ v # qvs) =
       rbind (decodeJ ty j v) (\<lambda>v'. Inr (pvs @ v' # qvs))"
  by (induction pre pvs rule: list_induct2) (auto simp: rbind_def split: prod.split sum.split)

definition fieldsRoundTrip :: "nat \<Rightarrow> (string \<times> bool \<times> jtype) list \<Rightarrow> jval list \<Rightarrow> bool" where
  "fieldsRoundTrip room fs vs \<longleftrightarrow>
     (\<exists>kvs. encodeFields fs vs = Inr kvs \<and> list_all (\<lambda>(k, j). literalOK k \<and> wfJson room j) kvs \<and>
        (\<forall>pre pvs. length pre = length pvs \<longrightarrow> distinct (map fst (pre @ fs)) \<longrightarrow>
           foldRes (decodeMember (pre @ fs)) (map (\<lambda>(k, j). (k, canonJson j)) kvs)
             (pvs @ map (\<lambda>(name, omit, t). zeroJ t) fs) = Inr (pvs @ normFields fs vs)))"

lemma fieldsRoundTrip_Nil: "fieldsRoundTrip room [] []"
  by (simp add: fieldsRoundTrip_def)

lemma fieldsRoundTrip_omit:
  assumes "isEmptyValue v" "fieldsRoundTrip room fs vs"
  shows "fieldsRoundTrip room ((name, True, ty) # fs) (v # vs)"
proof -
  obtain kvs where kvs: "encodeFields fs vs = Inr kvs" "list_all (\<lambda>(k, j). literalOK k \<and> wfJson room j) kvs"
    "\<And>pre pvs. length pre = length pvs \<Longrightarrow> distinct (map fst (pre @ fs)) \<Longrightarrow>
           foldRes (decodeMember (pre @ fs)) (map (\<lambda>(k, j). (k, canonJson j)) kvs)
             (pvs @ map (\<lambda>(name, omit, t). zeroJ t) fs) = Inr (pvs @ normFields fs vs)"
    using assms(2) unfolding fieldsRoundTrip_def by blast
  show ?thesis
    unfolding fieldsRoundTrip_def
    using kvs(1,2) kvs(3) [of "_ @ [(name, True, ty)]" "_ @ [zeroJ ty]"] assms(1) by auto
qed

lemma fieldsRoundTrip_Cons:
  assumes "roundTrips room ty v" "\<not> (omit \<and> isEmptyValue v)" "plainName name" "fieldsRoundTrip room fs vs"
  shows "fieldsRoundTrip room ((name, omit, ty) # fs) (v # vs)"
proof -
  obtain kvs where kvs: "encodeFields fs vs = Inr kvs" "list_all (\<lambda>(k, j). literalOK k \<and> wfJson room j) kvs"
    "\<And>pre pvs. length pre = length pvs \<Longrightarrow> distinct (map fst (pre @ fs)) \<Longrightarrow>
           foldRes (decodeMember (pre @ fs)) (map (\<lambda>(k, j). (k, canonJson j)) kvs)
             (pvs @ map (\<lambda>(name, omit, t). zeroJ t) fs) = Inr (pvs @ normFields fs vs)"
    using assms(4) unfolding fieldsRoundTrip_def by blast
  obtain j where j: "encodeJ ty v = Inr j" "wfJson room j" "decodeJ ty (canonJson j) (zeroJ ty) = Inr (normJ ty v)"
    using assms(1) unfolding roundTrips_def by blast
  have "foldRes (decodeMember (pre @ (name, omit, ty) # fs)) (map (\<lambda>(k, j). (k, canonJson j)) ((name, j) # kvs))
          (pvs @ zeroJ ty # map (\<lambda>(name, omit, t). zeroJ t) fs) = Inr (pvs @ normJ ty v # normFields fs vs)"
    if "length pre = length pvs" "distinct (map fst (pre @ (name, omit, ty) # fs))" for pre pvs
    using that kvs(3) [of "pre @ [(name, omit, ty)]" "pvs @ [normJ ty v]"] assms(3) j(3)
    by (auto simp: decodeMember_def matchField_def plainName_def decodeField_at)
  then show ?thesis
    using kvs(1,2) j(1,2) assms(2,3) unfolding fieldsRoundTrip_def by (auto simp: plainName_def)
qed

lemma roundTrips_struct:
  assumes "room \<noteq> 0" "fieldsRoundTrip (room - 1) fs vs" "distinct (map fst fs)"
  shows "roundTrips room (JTStruct fs) (VStruct vs)"
proof -
  obtain kvs where kvs: "encodeFields fs vs = Inr kvs" "list_all (\<lambda>(k, j). literalOK k \<and> wfJson (room - 1) j) kvs"
    "\<And>pre pvs. length pre = length pvs \<Longrightarrow> distinct (map fst (pre @ fs)) \<Longrightarrow>
           foldRes (decodeMember (pre @ fs)) (map (\<lambda>(k, j). (k, canonJson j)) kvs)
             (pvs @ map (\<lambda>(name, omit, t). zeroJ t) fs) = Inr (pvs @ normFields fs vs)"
    using assms(2) unfolding fieldsRoundTrip_def by blast
  then show ?thesis
    using kvs(3) [of "[]" "[]"] assms(1,3) by (simp add: roundTrips_def decodeMember_def)
qed

lemma literalOK_plains:
  "list_all (\<lambda>c. c \<noteq> quote \<and> c \<noteq> backslash \<and> \<not> of_char c < (32 :: nat)) t \<Longrightarrow> literalOK t"
  by (induction t) (auto intro: literalOK_plain)

lemma isDigit_plain: "isDigit c \<Longrightarrow> c \<noteq> quote \<and> c \<noteq> backslash \<and> \<not> of_char c < (32 :: nat)"
  by (auto simp: isDigit_def)

text \<open>A formatted time is plain ASCII.\<close>

definition timeByte :: "char \<Rightarrow> bool" where
  "timeByte c \<longleftrightarrow> isDigit c \<or> c \<in> set ''-:.TZ''"

lemma timeBytes_format: "list_all timeByte (formatRFC3339Nano t)"
proof -
  have padded: "list_all timeByte (padded n x)" for n x
    using isDigit_padded [of n x] by (auto simp: list_all_iff timeByte_def)
  have "list_all timeByte (decimal x)" if "0 \<le> x" for x
    using decimal_digits [OF that] by (auto simp: list_all_iff timeByte_def)
  then have "list_all timeByte (appendYear y)" for y
    using padded by (auto simp: appendYear_def) (auto simp: timeByte_def)
  moreover have "list_all timeByte (appendFraction x)" for x
    using padded [of 9 x]
    by (auto simp: appendFraction_def trimZeros_def list_all_iff dest!: set_dropWhileD) (simp add: timeByte_def)
  ultimately show ?thesis
    using padded by (auto simp: formatRFC3339Nano_def Let_def split: prod.split) (auto simp: timeByte_def)
qed

lemma timeByte_plain: "timeByte c \<Longrightarrow> c \<noteq> quote \<and> c \<noteq> backslash \<and> \<not> of_char c < (32 :: nat) \<and> byteIn 0 127 c"
  by (auto simp: timeByte_def isDigit_def byteIn_def)

lemma literalOK_time: "literalOK (formatRFC3339Nano t)"
  by (rule literalOK_plains) (use timeBytes_format [of t] in \<open>auto simp: list_all_iff dest: timeByte_plain\<close>)

lemma ValidString_ascii: "list_all (byteIn 0 127) s \<Longrightarrow> ValidString s"
  by (induction s) simp_all

lemma ValidString_time: "ValidString (formatRFC3339Nano t)"
  by (rule ValidString_ascii) (use timeBytes_format [of t] in \<open>auto simp: list_all_iff dest: timeByte_plain\<close>)

lemma okJ_roundTrips:
  "wfType ty \<Longrightarrow> okJ room ty v \<Longrightarrow> roundTrips room ty v"
  "list_all (\<lambda>(name, omit, ty). plainName name \<and> wfType ty) fs \<Longrightarrow> okFields room fs vs \<Longrightarrow> fieldsRoundTrip room fs vs"
proof (induction room ty v and room fs vs rule: okJ_okFields.induct)
  case (11 room fs v)
  then obtain vs where "v = VStruct vs" "room \<noteq> 0" "fieldsRoundTrip (room - 1) fs vs" "distinct (map fst fs)"
    by (auto split: jval.splits)
  then show ?case
    by (simp add: roundTrips_struct)
next
  case (13 room f fs vs)
  obtain name omit ty where f: "f = (name, omit, ty)"
    by (cases f)
  obtain v vs' where vs: "vs = v # vs'" "omit \<and> isEmptyValue v \<or> okJ room ty v" "okFields room fs vs'"
    using 13(4) f by (auto split: list.splits)
  have "fieldsRoundTrip room fs vs'"
    using 13 f vs by auto
  then show ?case
    using 13 f vs by (cases "omit \<and> isEmptyValue v") (auto intro: fieldsRoundTrip_omit fieldsRoundTrip_Cons)
qed (auto simp: roundTrips_scalars roundTrips_float roundTrips_raw roundTrips_time literalOK_time roundTrips_nil
       list_all_iff intro!: roundTrips_ptr roundTrips_slice roundTrips_map fieldsRoundTrip_Nil
       split: jval.splits option.splits)

theorem marshal_unmarshal:
  assumes "wfType ty" "okJ maxNestingDepth ty v"
  shows "\<exists>text. marshal ty v = Inr text \<and> unmarshal ty text = Inr (normJ ty v)"
proof -
  obtain j where j: "encodeJ ty v = Inr j" "wfJson maxNestingDepth j" "decodeJ ty (canonJson j) (zeroJ ty) = Inr (normJ ty v)"
    using okJ_roundTrips(1) [OF assms] unfolding roundTrips_def by blast
  then show ?thesis
    by (simp add: marshal_def unmarshal_def parse_print)
qed

end
