(* ===== verification/Valkey.thy ===== *)
theory Valkey
  imports Backend_Contract Json_Round
begin

text \<open>
  The Valkey backend of \<^verbatim>\<open>valkey/backend.go\<close> and its native transport of \<^verbatim>\<open>valkey/native.go\<close>, down to the
  commands sent to the client. The two Lua scripts of the transport are functions on the hashes of the
  server; the client is a parameter, and the locale \<open>valkey_service\<close> says that it runs the scripts
  atomically.
\<close>

section \<open>The client\<close>

datatype message = MsgNil | MsgInt int | MsgBulk string | MsgArray "message list" | MsgFail driverErr

datatype clientErr = ValkeyNil | ClientErr driverErr

fun wrapClient :: "clientErr \<Rightarrow> err" where
  "wrapClient ValkeyNil = ErrExternal ''valkey nil message''"
| "wrapClient (ClientErr e) = wrapDriver e"

lemma wrapClient_no_conflict [simp]: "wrapClient e \<noteq> ErrStorageConflict"
  by (cases e) auto

fun toArray :: "message \<Rightarrow> clientErr + message list" where
  "toArray (MsgArray ms) = Inr ms"
| "toArray MsgNil = Inl ValkeyNil"
| "toArray (MsgFail e) = Inl (ClientErr e)"
| "toArray m = Inl (ClientErr (DriverFailure ''message is not an array''))"

fun toInt64 :: "message \<Rightarrow> clientErr + int" where
  "toInt64 (MsgInt n) = Inr n"
| "toInt64 MsgNil = Inl ValkeyNil"
| "toInt64 (MsgFail e) = Inl (ClientErr e)"
| "toInt64 m = Inl (ClientErr (DriverFailure ''message is not an int64''))"

fun asBytes :: "message \<Rightarrow> clientErr + string" where
  "asBytes (MsgBulk s) = Inr s"
| "asBytes MsgNil = Inl ValkeyNil"
| "asBytes (MsgFail e) = Inl (ClientErr e)"
| "asBytes m = Inl (ClientErr (DriverFailure ''message is not a string''))"

record 'c commandClient =
  clDo :: "string list \<Rightarrow> 'c \<Rightarrow> 'c \<times> message"

record 'c nativeExecutor =
  evalArray :: "string \<Rightarrow> string \<Rightarrow> string list \<Rightarrow> 'c \<Rightarrow> 'c \<times> (clientErr + message list)"
  evalInt :: "string \<Rightarrow> string \<Rightarrow> string list \<Rightarrow> 'c \<Rightarrow> 'c \<times> (clientErr + int)"
  xPing :: "'c \<Rightarrow> 'c \<times> clientErr option"

definition commandExecutor :: "'c commandClient \<Rightarrow> 'c nativeExecutor" where
  "commandExecutor client =
     \<lparr> evalArray = (\<lambda>script key arguments c.
          case clDo client ([''EVAL'', script, ''1'', key] @ arguments) c of (c', m) \<Rightarrow> (c', toArray m)),
       evalInt = (\<lambda>script key arguments c.
          case clDo client ([''EVAL'', script, ''1'', key] @ arguments) c of (c', m) \<Rightarrow> (c', toInt64 m)),
       xPing = (\<lambda>c. case clDo client [''PING''] c of
            (c', MsgFail e) \<Rightarrow> (c', Some (ClientErr e))
          | (c', MsgNil) \<Rightarrow> (c', Some ValkeyNil)
          | (c', m) \<Rightarrow> (c', None)) \<rparr>"

section \<open>The scripts\<close>

definition scriptLines :: "string list \<Rightarrow> string" where
  "scriptLines ls = concat (map (\<lambda>l. l @ [CHR 0x0A]) ls)"

definition loadScript :: string where
  "loadScript = scriptLines
     [[],
      ''local revision = redis.call('HGET', KEYS[1], 'revision')'',
      ''if not revision then'',
      ''  return nil'',
      ''end'',
      ''return {tonumber(revision), redis.call('HGET', KEYS[1], 'document')}'']"

definition compareAndSwapScript :: string where
  "compareAndSwapScript = scriptLines
     [[],
      ''local current = redis.call('HGET', KEYS[1], 'revision')'',
      ''local expected = tonumber(ARGV[1])'',
      ''if not current then'',
      ''  if expected ~= 0 then'',
      ''    return 0'',
      ''  end'',
      ''  redis.call('HSET', KEYS[1], 'revision', 1, 'document', ARGV[2])'',
      ''  return 1'',
      ''end'',
      ''if tonumber(current) ~= expected then'',
      ''  return 0'',
      ''end'',
      ''redis.call('HSET', KEYS[1], 'revision', expected + 1, 'document', ARGV[2])'',
      ''return 1'']"

text \<open>
  Numbers of Lua are doubles: a natural number below \<open>2 ^ 64\<close> becomes the nearest multiple of \<open>2 ^ k\<close>, ties
  to even, where \<open>k\<close> is the number of its bits beyond 53. The revisions the scripts meet are texts of
  decimal digits.
\<close>

function excessBits :: "int \<Rightarrow> nat" where
  "excessBits n = (if n < 2 ^ 53 then 0 else Suc (excessBits (n div 2)))"
  by pat_completeness auto
termination
  by (relation "measure nat") auto

declare excessBits.simps [simp del]

definition luaRound :: "int \<Rightarrow> int" where
  "luaRound n = (let k = excessBits n; q = n div 2 ^ k; r = n mod 2 ^ k in
     if 2 * r < 2 ^ k \<or> 2 * r = 2 ^ k \<and> even q then q * 2 ^ k else (q + 1) * 2 ^ k)"

definition luaNumber :: "string \<Rightarrow> int option" where
  "luaNumber s = (if s \<noteq> [] \<and> list_all isDigit s then Some (luaRound (digitsValue s)) else None)"

text \<open>The hashes of the server: key, field, value.\<close>

type_synonym hashes = "string \<Rightarrow> string \<Rightarrow> string option"

definition hset :: "string \<Rightarrow> string \<Rightarrow> string \<Rightarrow> hashes \<Rightarrow> hashes" where
  "hset key revision document h = h(key := (h key)(''revision'' \<mapsto> revision, ''document'' \<mapsto> document))"

definition runLoadScript :: "hashes \<Rightarrow> string \<Rightarrow> message" where
  "runLoadScript h key =
     (case h key ''revision'' of
        None \<Rightarrow> MsgNil
      | Some revision \<Rightarrow>
          (case luaNumber revision of
             None \<Rightarrow> MsgArray []
           | Some n \<Rightarrow> MsgArray [MsgInt n, case h key ''document'' of None \<Rightarrow> MsgNil | Some d \<Rightarrow> MsgBulk d]))"

definition runSwapScript :: "hashes \<Rightarrow> string \<Rightarrow> string \<Rightarrow> string \<Rightarrow> hashes \<times> message" where
  "runSwapScript h key expectedText document =
     (case luaNumber expectedText of
        None \<Rightarrow> (h, MsgInt 0)
      | Some expected \<Rightarrow>
          (case h key ''revision'' of
             None \<Rightarrow>
               if expected \<noteq> 0 then (h, MsgInt 0) else (hset key (decimal 1) document h, MsgInt 1)
           | Some current \<Rightarrow>
               if luaNumber current \<noteq> Some expected then (h, MsgInt 0)
               else (hset key (decimal (luaRound (expected + 1))) document h, MsgInt 1)))"

section \<open>The native transport\<close>

record 'c Transport =
  tpLoad :: "string \<Rightarrow> 'c \<Rightarrow> 'c \<times> (string \<times> 64 word \<times> bool) res"
  tpCompareAndSwap :: "string \<Rightarrow> 64 word \<Rightarrow> string \<Rightarrow> 'c \<Rightarrow> 'c \<times> bool res"
  tpPing :: "'c \<Rightarrow> 'c \<times> err option"

definition decodeState :: "message list \<Rightarrow> (string \<times> 64 word \<times> bool) res" where
  "decodeState result =
     (if length result \<noteq> 2 then Inl (ErrMsg ''valkey tenant state reply'')
      else case toInt64 (result ! 0) of
        Inl e \<Rightarrow> Inl (wrapClient e)
      | Inr revision \<Rightarrow>
          if revision \<le> 0 then Inl (ErrMsg ''decode valkey tenant revision'')
          else (case asBytes (result ! 1) of
             Inl e \<Rightarrow> Inl (wrapClient e)
           | Inr data \<Rightarrow> Inr (data, word_of_int revision, True)))"

definition NativeLoad :: "'c nativeExecutor \<Rightarrow> string \<Rightarrow> 'c \<Rightarrow> 'c \<times> (string \<times> 64 word \<times> bool) res" where
  "NativeLoad executor key c =
     (case evalArray executor loadScript key [] c of
        (c', Inl ValkeyNil) \<Rightarrow> (c', Inr ([], 0, False))
      | (c', Inl (ClientErr e)) \<Rightarrow> (c', Inl (wrapDriver e))
      | (c', Inr result) \<Rightarrow> (c', decodeState result))"

definition NativeCompareAndSwap :: "'c nativeExecutor \<Rightarrow> string \<Rightarrow> 64 word \<Rightarrow> string \<Rightarrow> 'c \<Rightarrow> 'c \<times> bool res" where
  "NativeCompareAndSwap executor key expectedRevision data c =
     (case evalInt executor compareAndSwapScript key [decimal (uint expectedRevision), data] c of
        (c', Inl e) \<Rightarrow> (c', Inl (wrapClient e))
      | (c', Inr result) \<Rightarrow> (c', Inr (result = 1)))"

definition NativePing :: "'c nativeExecutor \<Rightarrow> 'c \<Rightarrow> 'c \<times> err option" where
  "NativePing executor c = (case xPing executor c of (c', e) \<Rightarrow> (c', map_option wrapClient e))"

definition NewNativeTransport :: "'c commandClient \<Rightarrow> 'c Transport" where
  "NewNativeTransport client = (let executor = commandExecutor client in
     \<lparr> tpLoad = NativeLoad executor, tpCompareAndSwap = NativeCompareAndSwap executor, tpPing = NativePing executor \<rparr>)"

section \<open>The backend\<close>

record 'c ValkeyBackend =
  vbTransport :: "'c Transport"
  vbPrefix :: string

definition NewValkeyBackend :: "'c Transport \<Rightarrow> string \<Rightarrow> 'c ValkeyBackend" where
  "NewValkeyBackend transport prefix =
     \<lparr> vbTransport = transport, vbPrefix = (if prefix = [] then ''go-feature-flags'' else prefix) \<rparr>"

definition hexEncode :: "string \<Rightarrow> string" where
  "hexEncode s = concat (map (\<lambda>c. [hexDigit (of_char c div 16), hexDigit (of_char c mod 16)]) s)"

definition valkeyKey :: "string \<Rightarrow> string \<Rightarrow> string" where
  "valkeyKey prefix tenant = prefix @ '':tenant:'' @ hexEncode (sha256 tenant)"

definition ValkeyLoad :: "'c ValkeyBackend \<Rightarrow> err option \<Rightarrow> string \<Rightarrow> 'c \<Rightarrow> 'c \<times> (string \<times> 64 word \<times> bool) res" where
  "ValkeyLoad backend ctx tenant c =
     (case ctx of
        Some e \<Rightarrow> (c, Inl e)
      | None \<Rightarrow> tpLoad (vbTransport backend) (valkeyKey (vbPrefix backend) tenant) c)"

definition ValkeyCompareAndSwap ::
  "'c ValkeyBackend \<Rightarrow> err option \<Rightarrow> string \<Rightarrow> 64 word \<Rightarrow> string \<Rightarrow> 'c \<Rightarrow> 'c \<times> err option" where
  "ValkeyCompareAndSwap backend ctx tenant expectedRevision data c =
     (case ctx of
        Some e \<Rightarrow> (c, Some e)
      | None \<Rightarrow>
          (case tpCompareAndSwap (vbTransport backend) (valkeyKey (vbPrefix backend) tenant) expectedRevision data c of
             (c', Inl e) \<Rightarrow> (c', Some e)
           | (c', Inr swapped) \<Rightarrow> (c', if \<not> swapped then Some ErrStorageConflict else None)))"

definition ValkeyHealth :: "'c ValkeyBackend \<Rightarrow> err option \<Rightarrow> 'c \<Rightarrow> 'c \<times> ProviderHealth" where
  "ValkeyHealth backend ctx c =
     (case ctx of
        Some e \<Rightarrow> (c, \<lparr> Healthy = False, hlCode = ''context_cancelled'' \<rparr>)
      | None \<Rightarrow>
          (case tpPing (vbTransport backend) c of
             (c', Some e) \<Rightarrow> (c', \<lparr> Healthy = False, hlCode = ''valkey_unavailable'' \<rparr>)
           | (c', None) \<Rightarrow> (c', \<lparr> Healthy = True, hlCode = ''ready'' \<rparr>)))"

definition ValkeyClose :: "err option \<Rightarrow> err option" where
  "ValkeyClose ctx = ctx"

definition valkeyDocuments :: "'c ValkeyBackend \<Rightarrow> 'c DocumentBackend" where
  "valkeyDocuments backend = \<lparr> dbLoad = ValkeyLoad backend, dbCompareAndSwap = ValkeyCompareAndSwap backend,
     dbHealth = ValkeyHealth backend, dbClose = ValkeyClose \<rparr>"

definition ValkeyNew :: "'c Transport \<Rightarrow> string \<Rightarrow> Limits \<Rightarrow> 'c DurableProvider" where
  "ValkeyNew transport prefix limits = NewDurableProvider (valkeyDocuments (NewValkeyBackend transport prefix)) limits"

section \<open>Numbers below \<open>2 ^ 53\<close> are exact\<close>

lemma excessBits_exact: "n < 2 ^ 53 \<Longrightarrow> excessBits n = 0"
  by (simp add: excessBits.simps)

lemma excessBits_quotient: "2 ^ 52 \<le> n \<Longrightarrow> 2 ^ 52 \<le> n div 2 ^ excessBits n"
proof (induction n rule: excessBits.induct)
  case (1 n)
  show ?case
  proof (cases "n < 2 ^ 53")
    case True
    then show ?thesis using 1(2) by (simp add: excessBits_exact)
  next
    case False
    then have "2 ^ 52 \<le> (n div 2) div 2 ^ excessBits (n div 2)" using 1(1) by simp
    then show ?thesis using False by (simp add: excessBits.simps [of n] zdiv_zmult2_eq)
  qed
qed

lemma luaRound_exact: "n < 2 ^ 53 \<Longrightarrow> luaRound n = n"
  by (simp add: luaRound_def excessBits_exact Let_def)

lemma luaRound_limit: "luaRound (2 ^ 53 + 1) = 2 ^ 53" "luaRound (2 ^ 53) = 2 ^ 53"
  by code_simp+

lemma luaRound_large:
  assumes "2 ^ 53 \<le> n"
  shows "2 ^ 53 \<le> luaRound n"
proof -
  define k q where "k = excessBits n" and "q = n div 2 ^ k"
  have q: "2 ^ 52 \<le> q" using excessBits_quotient [of n] assms by (simp add: k_def q_def)
  have "(2 :: int) \<le> 2 ^ k" using assms by (simp add: k_def excessBits.simps [of n])
  then have "2 ^ 52 * 2 \<le> q * 2 ^ k" using q by (intro mult_mono) auto
  moreover have "q * 2 ^ k \<le> luaRound n"
    by (simp add: luaRound_def Let_def k_def q_def distrib_right)
  ultimately show ?thesis by simp
qed

lemma luaNumber_decimal: "0 \<le> n \<Longrightarrow> luaNumber (decimal n) = Some (luaRound n)"
  by (simp add: luaNumber_def decimal_digits digitsValue_decimal)

section \<open>The documents of the hashes\<close>

definition hashDocument :: "hashes \<Rightarrow> string \<Rightarrow> (string \<times> 64 word) option" where
  "hashDocument h key =
     (case (h key ''revision'', h key ''document'') of
        (Some revision, Some d) \<Rightarrow> Some (d, word_of_int (digitsValue revision))
      | _ \<Rightarrow> None)"

text \<open>What the scripts keep: a revision is a positive exact number, next to a document.\<close>

definition wellKept :: "hashes \<Rightarrow> bool" where
  "wellKept h \<longleftrightarrow> (\<forall>key revision. h key ''revision'' = Some revision \<longrightarrow>
     (\<exists>n. revision = decimal n \<and> 0 < n \<and> n \<le> 2 ^ 53) \<and> h key ''document'' \<noteq> None)"

lemma wellKept_cases:
  assumes "wellKept h"
  obtains "h key ''revision'' = None" "hashDocument h key = None"
  | n d where "h key ''revision'' = Some (decimal n)" "0 < n" "n \<le> 2 ^ 53" "h key ''document'' = Some d"
      "hashDocument h key = Some (d, word_of_int n)"
proof (cases "h key ''revision''")
  case None
  then show thesis using that(1) by (simp add: hashDocument_def)
next
  case (Some revision)
  then obtain n d where n: "revision = decimal n" "0 < n" "n \<le> 2 ^ 53" and d: "h key ''document'' = Some d"
    using assms by (fastforce simp: wellKept_def)
  then show thesis using that(2) [of n d] Some by (simp add: hashDocument_def digitsValue_decimal)
qed

lemma hashDocument_hset:
  "0 \<le> n \<Longrightarrow> hashDocument (hset key (decimal n) d h) = (hashDocument h)(key \<mapsto> (d, word_of_int n))"
  by (rule ext) (simp add: hashDocument_def hset_def digitsValue_decimal)

lemma wellKept_hset: "wellKept h \<Longrightarrow> 0 < n \<Longrightarrow> n \<le> 2 ^ 53 \<Longrightarrow> wellKept (hset key (decimal n) d h)"
  by (auto simp: wellKept_def hset_def)

lemma luaRound_kept: "n \<le> 2 ^ 53 \<Longrightarrow> luaRound n = n"
  using luaRound_exact [of n] luaRound_limit(2) by (cases "n = 2 ^ 53") auto

lemma luaRound_next: "0 \<le> n \<Longrightarrow> n \<le> 2 ^ 53 \<Longrightarrow> 0 < luaRound (n + 1) \<and> luaRound (n + 1) \<le> 2 ^ 53"
  using luaRound_kept [of "n + 1"] luaRound_limit(1) by (cases "n = 2 ^ 53") auto

lemma luaRound_word: "luaRound (uint (r :: 64 word)) = n \<Longrightarrow> n < 2 ^ 53 \<Longrightarrow> uint r = n"
  using luaRound_large [of "uint r"] luaRound_exact [of "uint r"] by linarith

lemma word_of_number:
  assumes "0 < n" "n \<le> 2 ^ 53"
  shows "uint (word_of_int n :: 64 word) = n" "(word_of_int n :: 64 word) \<noteq> 0"
proof -
  show "uint (word_of_int n :: 64 word) = n"
    using assms by (simp add: uint_word_of_int_eq take_bit_int_eq_self)
  then show "(word_of_int n :: 64 word) \<noteq> 0" using assms by force
qed

lemma runSwapScript_kept:
  assumes "wellKept h" "runSwapScript h key (decimal (uint (r :: 64 word))) data = (h', m)"
  shows "wellKept h' \<and> (m = MsgInt 1 \<or> m = MsgInt 0 \<and> h' = h)"
proof -
  have e: "luaNumber (decimal (uint r)) = Some (luaRound (uint r))" by (simp add: luaNumber_decimal)
  show ?thesis
  proof (rule wellKept_cases [OF assms(1), of key])
    assume "h key ''revision'' = None" "hashDocument h key = None"
    then show ?thesis using assms e wellKept_hset [of h 1 key data] by (auto simp: runSwapScript_def split: if_splits)
  next
    fix n d
    assume n: "h key ''revision'' = Some (decimal n)" "0 < n" "n \<le> 2 ^ 53"
    then have c: "luaNumber (decimal n) = Some n" by (simp add: luaNumber_decimal luaRound_kept)
    show ?thesis
      using assms e n c wellKept_hset [of h "luaRound (n + 1)" key data] luaRound_next [of n]
      by (auto simp: runSwapScript_def split: if_splits)
  qed
qed

lemma runSwapScript_exact:
  assumes "wellKept h" "runSwapScript h key (decimal (uint (r :: 64 word))) data = (h', m)"
    and exact: "unat (currentRevision (hashDocument h key)) < 2 ^ 53"
  shows "if swappable (hashDocument h key) r
    then m = MsgInt 1 \<and> hashDocument h' = (hashDocument h)(key \<mapsto> (data, r + 1)) else m = MsgInt 0 \<and> h' = h"
proof -
  have e: "luaNumber (decimal (uint r)) = Some (luaRound (uint r))" by (simp add: luaNumber_decimal)
  show ?thesis
  proof (rule wellKept_cases [OF assms(1), of key])
    assume none: "h key ''revision'' = None" "hashDocument h key = None"
    have "luaRound (uint r) = 0 \<longleftrightarrow> r = 0"
      using luaRound_word [of r 0] by (auto simp: luaRound_exact uint_0_iff)
    then show ?thesis using assms(2) e none hashDocument_hset [of 1 key data h]
      by (auto simp: runSwapScript_def swappable_def split: if_splits)
  next
    fix n d
    assume n: "h key ''revision'' = Some (decimal n)" "0 < n" "n \<le> 2 ^ 53"
      and doc: "hashDocument h key = Some (d, word_of_int n)"
    have c: "luaNumber (decimal n) = Some n" using n by (simp add: luaNumber_decimal luaRound_kept)
    have below: "n < 2 ^ 53"
      using exact doc word_of_number [OF n(2,3)] by (simp add: unat_eq_nat_uint nat_less_iff del: nat_uint_eq)
    have same: "luaRound (uint r) = n \<longleftrightarrow> word_of_int n = r"
      using luaRound_word [of r n] word_of_number(1) [OF n(2,3)] below luaRound_exact [of n] by auto
    have succ: "luaRound (n + 1) = n + 1" using below by (intro luaRound_kept) simp
    show ?thesis using assms(2) e n c same succ doc hashDocument_hset [of "n + 1" key data h] word_of_number(2) [OF n(2,3)]
      by (auto simp: runSwapScript_def swappable_def split: if_splits)
  qed
qed

section \<open>What the backend relies on\<close>

text \<open>
  The client runs a script atomically on the hashes of the server and returns its reply. A call that fails
  may have been carried out.
\<close>

definition valkeyBackend :: "'c commandClient \<Rightarrow> string \<Rightarrow> 'c ValkeyBackend" where
  "valkeyBackend client prefix = NewValkeyBackend (NewNativeTransport client) prefix"

definition valkeyPlace :: "string \<Rightarrow> string \<Rightarrow> string" where
  "valkeyPlace prefix = valkeyKey (if prefix = [] then ''go-feature-flags'' else prefix)"

locale valkey_service =
  fixes client :: "'c commandClient"
    and hashesOf :: "'c \<Rightarrow> hashes"
  assumes eval_load: "clDo client [''EVAL'', loadScript, ''1'', key] c = (c', m) \<Longrightarrow>
      hashesOf c' = hashesOf c \<and> ((\<exists>e. m = MsgFail e) \<or> m = runLoadScript (hashesOf c) key)"
    and eval_swap: "clDo client [''EVAL'', compareAndSwapScript, ''1'', key, expected, data] c = (c', m) \<Longrightarrow>
      (hashesOf c', m) = runSwapScript (hashesOf c) key expected data \<or>
      (\<exists>e. m = MsgFail e) \<and> (hashesOf c' = hashesOf c \<or> hashesOf c' = fst (runSwapScript (hashesOf c) key expected data))"
begin

lemma load_message:
  assumes "clDo client [''EVAL'', loadScript, ''1'', valkeyPlace prefix t] c = (c1, m)"
    and "ValkeyLoad (valkeyBackend client prefix) None t c = (c', reply)"
  shows "c' = c1" "reply = (case toArray m of Inl ValkeyNil \<Rightarrow> Inr ([], 0, False)
    | Inl (ClientErr e) \<Rightarrow> Inl (wrapDriver e) | Inr result \<Rightarrow> decodeState result)"
  using assms
  by (auto simp: ValkeyLoad_def valkeyBackend_def NewValkeyBackend_def NewNativeTransport_def NativeLoad_def
      commandExecutor_def valkeyPlace_def Let_def split: sum.splits clientErr.splits)

lemma load_effect:
  assumes "wellKept (hashesOf c)" "ValkeyLoad (valkeyBackend client prefix) ctx t c = (c', reply)"
  shows "hashesOf c' = hashesOf c"
    "reply = Inr (data, r, True) \<Longrightarrow> hashDocument (hashesOf c) (valkeyPlace prefix t) = Some (data, r) \<and> r \<noteq> 0"
    "reply = Inr (data, r, False) \<Longrightarrow> hashDocument (hashesOf c) (valkeyPlace prefix t) = None \<and> r = 0"
proof -
  obtain c1 m where call: "clDo client [''EVAL'', loadScript, ''1'', valkeyPlace prefix t] c = (c1, m)" by fastforce
  note run = eval_load [OF call]
  show "hashesOf c' = hashesOf c"
    using assms(2) load_message(1) [OF call, of c' reply] run by (cases ctx) (auto simp: ValkeyLoad_def)
  have answers: "(\<exists>e. m = MsgFail e) \<or>
      reply = (case hashDocument (hashesOf c) (valkeyPlace prefix t) of None \<Rightarrow> Inr ([], 0, False)
        | Some (d, n) \<Rightarrow> Inr (d, n, True)) \<and> (\<forall>d n. hashDocument (hashesOf c) (valkeyPlace prefix t) = Some (d, n) \<longrightarrow> n \<noteq> 0)"
    if "ctx = None"
    using run load_message(2) [OF call, of c' reply] assms(2) that
    by (rule_tac wellKept_cases [OF assms(1), of "valkeyPlace prefix t"])
      (auto simp: runLoadScript_def luaNumber_decimal luaRound_kept decodeState_def word_of_number)
  show "hashDocument (hashesOf c) (valkeyPlace prefix t) = Some (data, r) \<and> r \<noteq> 0" if "reply = Inr (data, r, True)"
    using answers assms(2) that load_message(2) [OF call, of c' reply]
    by (cases ctx) (auto simp: ValkeyLoad_def split: option.splits)
  show "hashDocument (hashesOf c) (valkeyPlace prefix t) = None \<and> r = 0" if "reply = Inr (data, r, False)"
    using answers assms(2) that load_message(2) [OF call, of c' reply]
    by (cases ctx) (auto simp: ValkeyLoad_def split: option.splits)
qed

lemma swap_message:
  assumes "clDo client [''EVAL'', compareAndSwapScript, ''1'', valkeyPlace prefix t, decimal (uint r), data] c = (c1, m)"
    and "ValkeyCompareAndSwap (valkeyBackend client prefix) None t r data c = (c', ending)"
  shows "c' = c1" "ending = (case toInt64 m of Inl e \<Rightarrow> Some (wrapClient e)
    | Inr n \<Rightarrow> if n = 1 then None else Some ErrStorageConflict)"
  using assms
  by (auto simp: ValkeyCompareAndSwap_def valkeyBackend_def NewValkeyBackend_def NewNativeTransport_def
      NativeCompareAndSwap_def commandExecutor_def valkeyPlace_def Let_def split: sum.splits)

lemma swap_answer:
  assumes "ValkeyCompareAndSwap (valkeyBackend client prefix) ctx t r data c = (c', ending)"
    and script: "runSwapScript (hashesOf c) (valkeyPlace prefix t) (decimal (uint r)) data = (h', m)"
  obtains e where "ctx = Some e" "c' = c" "ending = Some e"
  | "ctx = None" "hashesOf c' = h'" "ending = (case toInt64 m of Inl e \<Rightarrow> Some (wrapClient e)
      | Inr n \<Rightarrow> if n = 1 then None else Some ErrStorageConflict)"
  | e where "ctx = None" "hashesOf c' = hashesOf c \<or> hashesOf c' = h'" "ending = Some (wrapDriver e)"
proof (cases ctx)
  case (Some e)
  then show thesis using that(1) [of e] assms(1) by (simp add: ValkeyCompareAndSwap_def)
next
  case None
  obtain c1 m1 where call: "clDo client [''EVAL'', compareAndSwapScript, ''1'', valkeyPlace prefix t, decimal (uint r), data] c = (c1, m1)"
    by fastforce
  note ending = swap_message [OF call assms(1) [unfolded None]]
  from eval_swap [OF call] script show thesis
  proof (elim disjE conjE exE)
    assume "(hashesOf c1, m1) = runSwapScript (hashesOf c) (valkeyPlace prefix t) (decimal (uint r)) data"
    then show thesis using that(2) None ending script by simp
  next
    fix e assume "m1 = MsgFail e" "hashesOf c1 = hashesOf c"
    then show thesis using that(3) [of e] None ending by simp
  next
    fix e assume "m1 = MsgFail e" "hashesOf c1 = fst (runSwapScript (hashesOf c) (valkeyPlace prefix t) (decimal (uint r)) data)"
    then show thesis using that(3) [of e] None ending script by simp
  qed
qed

lemma swap_kept:
  assumes "wellKept (hashesOf c)" "ValkeyCompareAndSwap (valkeyBackend client prefix) ctx t r data c = (c', ending)"
  shows "wellKept (hashesOf c')" "ending = Some ErrStorageConflict \<Longrightarrow> hashesOf c' = hashesOf c"
proof -
  obtain h' m where script: "runSwapScript (hashesOf c) (valkeyPlace prefix t) (decimal (uint r)) data = (h', m)" by fastforce
  note kept = runSwapScript_kept [OF assms(1) script]
  show "wellKept (hashesOf c')"
    by (rule swap_answer [OF assms(2) script]) (use kept assms(1) in auto)
  show "hashesOf c' = hashesOf c" if "ending = Some ErrStorageConflict"
    by (rule swap_answer [OF assms(2) script]) (use kept that in auto)
qed

lemma swap_exact:
  assumes "wellKept (hashesOf c)" "unat (currentRevision (hashDocument (hashesOf c) (valkeyPlace prefix t))) < 2 ^ 53"
    and "ValkeyCompareAndSwap (valkeyBackend client prefix) ctx t r data c = (c', ending)"
  shows "ending = None \<Longrightarrow> swappable (hashDocument (hashesOf c) (valkeyPlace prefix t)) r \<and>
      hashDocument (hashesOf c') = (hashDocument (hashesOf c))(valkeyPlace prefix t \<mapsto> (data, r + 1))"
    "ending = Some e \<Longrightarrow> hashDocument (hashesOf c') = hashDocument (hashesOf c) \<or>
      swappable (hashDocument (hashesOf c) (valkeyPlace prefix t)) r \<and>
      hashDocument (hashesOf c') = (hashDocument (hashesOf c))(valkeyPlace prefix t \<mapsto> (data, r + 1))"
proof -
  obtain h' m where script: "runSwapScript (hashesOf c) (valkeyPlace prefix t) (decimal (uint r)) data = (h', m)" by fastforce
  note exact = runSwapScript_exact [OF assms(1) script assms(2)]
  show "swappable (hashDocument (hashesOf c) (valkeyPlace prefix t)) r \<and>
      hashDocument (hashesOf c') = (hashDocument (hashesOf c))(valkeyPlace prefix t \<mapsto> (data, r + 1))" if "ending = None"
    by (rule swap_answer [OF assms(3) script]) (use exact that in \<open>auto split: if_splits\<close>)
  show "hashDocument (hashesOf c') = hashDocument (hashesOf c) \<or>
      swappable (hashDocument (hashesOf c) (valkeyPlace prefix t)) r \<and>
      hashDocument (hashesOf c') = (hashDocument (hashesOf c))(valkeyPlace prefix t \<mapsto> (data, r + 1))" if "ending = Some e"
    by (rule swap_answer [OF assms(3) script]) (use exact that in \<open>auto split: if_splits\<close>)
qed

end

sublocale valkey_service \<subseteq> vk: document_backend "valkeyDocuments (valkeyBackend client prefix)"
  "\<lambda>c. hashDocument (hashesOf c)" "valkeyPlace prefix" "\<lambda>c. wellKept (hashesOf c)" "2 ^ 53" for prefix
proof (unfold_locales, goal_cases)
  case (2 b ctx t b' reply)
  then show ?case using load_effect(1) by (simp add: valkeyDocuments_def)
next
  case (3 b ctx t b' data r)
  then show ?case using load_effect(2) by (simp add: valkeyDocuments_def)
next
  case (4 b ctx t b' data r)
  then show ?case using load_effect(3) by (simp add: valkeyDocuments_def)
next
  case (5 b ctx t r data b' ending)
  then show ?case using swap_kept(1) by (simp add: valkeyDocuments_def)
next
  case (6 b t ctx r data b')
  then show ?case using swap_exact(1) by (simp add: valkeyDocuments_def)
next
  case (7 b ctx t r data b')
  then show ?case using swap_kept(2) by (simp add: valkeyDocuments_def)
next
  case (8 b t ctx r data b' e)
  then show ?case using swap_exact(2) by (simp add: valkeyDocuments_def)
qed simp

section \<open>A service that is up\<close>

locale valkey_up = valkey_service +
  fixes up :: "'a \<Rightarrow> bool"
  assumes up_do: "up c \<Longrightarrow> clDo client (''EVAL'' # script # args) c = (c', m) \<Longrightarrow> up c' \<and> (\<forall>e. m \<noteq> MsgFail e)"
begin

lemma up_load: "up c \<Longrightarrow> ValkeyLoad (valkeyBackend client prefix) ctx t c = (c', reply) \<Longrightarrow> up c'"
proof -
  assume c: "up c" and load: "ValkeyLoad (valkeyBackend client prefix) ctx t c = (c', reply)"
  obtain c1 m where call: "clDo client [''EVAL'', loadScript, ''1'', valkeyPlace prefix t] c = (c1, m)" by fastforce
  show "up c'" using c load load_message(1) [OF call] up_do [OF c call] by (cases ctx) (auto simp: ValkeyLoad_def)
qed

lemma up_swap: "up c \<Longrightarrow> ValkeyCompareAndSwap (valkeyBackend client prefix) ctx t r data c = (c', ending) \<Longrightarrow> up c'"
proof -
  assume c: "up c" and swap: "ValkeyCompareAndSwap (valkeyBackend client prefix) ctx t r data c = (c', ending)"
  obtain c1 m where call: "clDo client [''EVAL'', compareAndSwapScript, ''1'', valkeyPlace prefix t, decimal (uint r), data] c = (c1, m)"
    by fastforce
  show "up c'" using c swap swap_message(1) [OF call] up_do [OF c call] by (cases ctx) (auto simp: ValkeyCompareAndSwap_def)
qed

lemma up_load_answers:
  assumes "wellKept (hashesOf c)" "up c" "ValkeyLoad (valkeyBackend client prefix) None t c = (c', reply)"
  shows "\<not> isl reply"
proof -
  obtain c1 m where call: "clDo client [''EVAL'', loadScript, ''1'', valkeyPlace prefix t] c = (c1, m)" by fastforce
  have m: "m = runLoadScript (hashesOf c) (valkeyPlace prefix t)" using eval_load [OF call] up_do [OF assms(2) call] by simp
  show ?thesis
    using load_message(2) [OF call assms(3)] m
    by (rule_tac wellKept_cases [OF assms(1), of "valkeyPlace prefix t"])
      (simp_all add: runLoadScript_def luaNumber_decimal luaRound_kept decodeState_def)
qed

lemma up_swap_answers:
  assumes "wellKept (hashesOf c)" "up c" "unat (currentRevision (hashDocument (hashesOf c) (valkeyPlace prefix t))) < 2 ^ 53"
    and "ValkeyCompareAndSwap (valkeyBackend client prefix) None t r data c = (c', ending)"
  shows "ending = (if swappable (hashDocument (hashesOf c) (valkeyPlace prefix t)) r then None else Some ErrStorageConflict)"
proof -
  obtain c1 m where call: "clDo client [''EVAL'', compareAndSwapScript, ''1'', valkeyPlace prefix t, decimal (uint r), data] c = (c1, m)"
    by fastforce
  have "(hashesOf c1, m) = runSwapScript (hashesOf c) (valkeyPlace prefix t) (decimal (uint r)) data"
    using eval_swap [OF call] up_do [OF assms(2) call] by auto
  from runSwapScript_exact [OF assms(1) this [symmetric] assms(3)] show ?thesis
    using swap_message(2) [OF call assms(4)] by (auto split: if_splits)
qed

end

sublocale valkey_up \<subseteq> up: available_backend "valkeyDocuments (valkeyBackend client prefix)"
  "\<lambda>c. hashDocument (hashesOf c)" "valkeyPlace prefix" "\<lambda>c. wellKept (hashesOf c)" "2 ^ 53" up "\<lambda>t. True" for prefix
proof (unfold_locales, goal_cases)
  case (1 b t b' reply)
  then show ?case using up_load_answers by (simp add: valkeyDocuments_def)
next
  case (2 b ctx t b' reply)
  then show ?case using up_load by (simp add: valkeyDocuments_def)
next
  case (3 b ctx t r data b' ending)
  then show ?case using up_swap by (simp add: valkeyDocuments_def)
next
  case (4 b t r data b' ending)
  then show ?case using up_swap_answers [of b prefix t r data b' ending] by (simp add: valkeyDocuments_def)
qed

section \<open>A server in memory\<close>

text \<open>A server that runs the two scripts on its hashes; \<open>svFaults\<close> are the failures still to come.\<close>

record server =
  svHashes :: hashes
  svFaults :: "(driverErr \<times> bool) list"

definition serverRun :: "string list \<Rightarrow> server \<Rightarrow> server \<times> message" where
  "serverRun command s =
     (case command of
        [_, script, _, key] \<Rightarrow> (s, if script = loadScript then runLoadScript (svHashes s) key else MsgNil)
      | [_, script, _, key, expected, data] \<Rightarrow>
          if script = compareAndSwapScript
          then (case runSwapScript (svHashes s) key expected data of (h', m) \<Rightarrow> (s\<lparr> svHashes := h' \<rparr>, m))
          else (s, MsgNil)
      | _ \<Rightarrow> (s, MsgBulk ''PONG''))"

definition serverDo :: "string list \<Rightarrow> server \<Rightarrow> server \<times> message" where
  "serverDo command s =
     (case svFaults s of
        [] \<Rightarrow> serverRun command s
      | (e, applied) # faults \<Rightarrow> ((if applied then fst (serverRun command s) else s)\<lparr> svFaults := faults \<rparr>, MsgFail e))"

definition serverClient :: "server commandClient" where
  "serverClient = \<lparr> clDo = serverDo \<rparr>"

lemma serverRun_load: "serverRun [''EVAL'', loadScript, ''1'', key] s = (s, runLoadScript (svHashes s) key)"
  by (simp add: serverRun_def)

lemma serverRun_swap: "serverRun [''EVAL'', compareAndSwapScript, ''1'', key, expected, data] s =
    (s\<lparr> svHashes := fst (runSwapScript (svHashes s) key expected data) \<rparr>, snd (runSwapScript (svHashes s) key expected data))"
  by (simp add: serverRun_def split: prod.splits)

lemma scripts_no_fail: "runLoadScript h key \<noteq> MsgFail e" "snd (runSwapScript h key expected data) \<noteq> MsgFail e"
  by (auto simp: runLoadScript_def runSwapScript_def split: option.splits)

lemma serverRun_answers: "svFaults (fst (serverRun command s)) = svFaults s \<and> snd (serverRun command s) \<noteq> MsgFail e"
  using scripts_no_fail by (auto simp: serverRun_def split: list.splits prod.splits) (metis snd_conv)+

interpretation server: valkey_up serverClient svHashes "\<lambda>s. svFaults s = []"
proof (unfold_locales, goal_cases)
  case (1 key c c' m)
  then show ?case by (auto simp: serverClient_def serverDo_def serverRun_load split: list.splits)
next
  case (2 key expected data c c' m)
  then show ?case by (auto simp: serverClient_def serverDo_def serverRun_swap split: list.splits if_splits)
next
  case (3 c script args c' m)
  then show ?case using serverRun_answers [of "''EVAL'' # script # args" c] by (auto simp: serverClient_def serverDo_def)
qed

end
