(* ===== verification/Codec_Laws.thy ===== *)
theory Codec_Laws
  imports Codec Json_Round
begin

text \<open>
  Round trips of the wire structs. A \<open>portable\<close> value, strategy, definition or group is one that the format
  carries unchanged up to the order of its sets and maps, which \<open>canonical\<dots>\<close> gives.
\<close>

section \<open>Fields that may be omitted\<close>

lemma omitted_fields [simp]:
  "(if s = [] then VString [] else VString s) = VString s"
  "(if w = 0 then VInt 0 else VInt (uint w)) = VInt (uint w)"
  "(if xs = [] then VSlice [] else VSlice (map f xs)) = VSlice (map f xs)"
  "(if m = [] then VMap [] else VMap (map g (sort_key k m))) = VMap (map g (sort_key k m))"
  by simp_all

lemma sort_key_map: "(\<And>x. k (f x) = k' x) \<Longrightarrow> sort_key k (map f xs) = map f (sort_key k' xs)"
proof (induction xs)
  case (Cons x xs)
  have "insort_key k (f x) (map f ys) = map f (insort_key k' x ys)" for ys
    by (induction ys) (simp_all add: Cons.prems)
  then show ?case
    using Cons by simp
qed simp

lemma sort_key_entries: "sort_key fst (map (\<lambda>(k, v). (k, f v)) m) = map (\<lambda>(k, v). (k, f v)) (sort_key fst m)"
  by (rule sort_key_map) (simp add: case_prod_beta)

lemma normJ_mapJ:
  "normJ (JTMap ty) (mapJ f m) = mapJ (\<lambda>v. normJ ty (f v)) (sort_key fst m)"
  by (simp add: mapJ_def sort_key_entries) (simp add: case_prod_beta')

lemma mapOfJ_mapJ: "mapOfJ g (mapJ f m) = map (\<lambda>(k, v). (k, g (f v))) m"
  by (simp add: mapJ_def case_prod_beta')

lemma empty_mapJ: "isEmptyValue (mapJ f m) \<longleftrightarrow> m = []"
  by (simp add: mapJ_def)

lemma omitted_mapJ [simp]:
  "(if m = [] then VMap [] else mapJ f (sort_key fst m)) = mapJ f (sort_key fst m)"
  by (simp add: mapJ_def)

declare normJ.simps(4) [simp del]

lemmas norm_simps = uint_0_iff normJ_mapJ mapOfJ_mapJ empty_mapJ o_def option.map_comp

section \<open>Names\<close>

definition properType :: "Type \<Rightarrow> bool" where
  "properType t \<longleftrightarrow> typeOfName (typeName t) = t"

definition properLifecycle :: "Lifecycle \<Rightarrow> bool" where
  "properLifecycle l \<longleftrightarrow> lifecycleOfName (lifecycleName l) = l"

lemma proper_types [simp]:
  "properType TypeBoolean" "properType TypeString" "properType TypeInteger" "properType TypeFloat"
  "properType TypeDecimal" "properType TypeStructured"
  by code_simp+

lemma typeOfName_typeName [simp]: "properType t \<Longrightarrow> typeOfName (typeName t) = t"
  by (simp add: properType_def)

lemma lifecycleOfName_lifecycleName [simp]: "properLifecycle l \<Longrightarrow> lifecycleOfName (lifecycleName l) = l"
  by (simp add: properLifecycle_def)

lemma unnamed_lifecycle: "properLifecycle l \<Longrightarrow> lifecycleName l = [] \<Longrightarrow> lifecycleOfName [] = l"
  by (metis properLifecycle_def)

section \<open>Records and generic values\<close>

definition compactText :: "string \<Rightarrow> string" where
  "compactText s = (case parseJson s of None \<Rightarrow> s | Some j \<Rightarrow> printJson (compactJson j))"

lemma valueOfJ_normJ:
  assumes "properType (vwType w)" "vwStructured w \<noteq> Some []"
    "\<And>s. vwStructured w = Some s \<Longrightarrow> parseJson s \<noteq> None"
  shows "valueOfJ (normJ valueSchema (valueJ w)) = w\<lparr> vwStructured := map_option compactText (vwStructured w) \<rparr>"
  using assms
  by (cases w) (auto simp: valueOfJ_def valueSchema_def valueJ_def compactText_def option.map_comp o_def split: option.splits)

lemma weeklyOfJ_normJ: "weeklyOfJ (normJ weeklySchema (weeklyJ w)) = w"
  by (simp add: weeklyOfJ_def weeklySchema_def weeklyJ_def)

lemma dependencyOfJ_normJ: "dependencyOfJ (normJ dependencySchema (dependencyJ w)) = w"
  by (simp add: dependencyOfJ_def dependencySchema_def dependencyJ_def)

lemma strategyOfJ_normJ:
  "strategyOfJ (normJ strategySchema (strategyJ w)) =
     w\<lparr> swAttributes := sort_key fst (swAttributes w),
        swEquals := map_option (\<lambda>v. valueOfJ (normJ valueSchema (valueJ v))) (swEquals w) \<rparr>"
  by (cases w) (simp add: strategyOfJ_def strategySchema_def strategyJ_def norm_simps weeklyOfJ_normJ uint_0_iff split: option.split)

lemma groupOfJ_normJ:
  "groupOfJ (normJ groupSchema (groupJ w)) =
     w\<lparr> gwMetadata := sort_key fst (gwMetadata w),
        gwStrategies := map (\<lambda>s. strategyOfJ (normJ strategySchema (strategyJ s))) (gwStrategies w) \<rparr>"
  by (cases w) (simp add: groupOfJ_def groupSchema_def groupJ_def norm_simps)

lemma definitionOfJ_normJ:
  assumes "properType (wType w)" "properLifecycle (wLifecycle w)"
  shows "definitionOfJ (normJ definitionSchema (definitionJ w)) =
     w\<lparr> wDefault := valueOfJ (normJ valueSchema (valueJ (wDefault w))),
        wVariants := map (\<lambda>(k, v). (k, valueOfJ (normJ valueSchema (valueJ v)))) (sort_key fst (wVariants w)),
        wMetadata := sort_key fst (wMetadata w),
        wStrategies := map (\<lambda>s. strategyOfJ (normJ strategySchema (strategyJ s))) (wStrategies w) \<rparr>"
  using assms by (cases w) (simp add: definitionOfJ_def definitionSchema_def definitionJ_def norm_simps dependencyOfJ_normJ unnamed_lifecycle)

lemma documentOfJ_normJ:
  "documentOfJ (normJ documentSchema (documentJ w)) =
     w\<lparr> dcFeatures := map (\<lambda>d. definitionOfJ (normJ definitionSchema (definitionJ d))) (dcFeatures w),
        dcGroups := map (\<lambda>g. groupOfJ (normJ groupSchema (groupJ g))) (dcGroups w) \<rparr>"
  by (cases w) (simp add: documentOfJ_def documentSchema_def documentJ_def norm_simps)

section \<open>Portable data\<close>

text \<open>
  Nesting that a structured value may have so that a whole document around it stays within the
  decoder's limit.
\<close>

definition structuredRoom :: nat where
  "structuredRoom = maxNestingDepth - 10"

definition compactStructured :: "string \<Rightarrow> bool" where
  "compactStructured s \<longleftrightarrow>
     (case parseJson s of None \<Rightarrow> False | Some j \<Rightarrow> printJson (compactJson j) = s \<and> wfJson structuredRoom j)"

definition portableValue :: "Value \<Rightarrow> bool" where
  "portableValue v \<longleftrightarrow>
     (case vtyp v of
        TypeBoolean \<Rightarrow> v = BooleanValue (vboolean v)
      | TypeString \<Rightarrow> v = StringValue (vtext v) \<and> ValidString (vtext v)
      | TypeInteger \<Rightarrow> v = IntegerValue (vinteger v)
      | TypeFloat \<Rightarrow> v = FloatValue (vfloating v) \<and> formatFloat (vfloating v) \<noteq> None
      | TypeDecimal \<Rightarrow> v = DecimalValue (vtext v) \<and> ValidString (vtext v)
      | TypeStructured \<Rightarrow> v = StructuredValue (vstructured v) \<and> compactStructured (vstructured v)
      | OtherType _ \<Rightarrow> False)"

definition portableTime :: "Time \<Rightarrow> bool" where
  "portableTime t \<longleftrightarrow> 0 \<le> yearOf t \<and> yearOf t \<le> 9999"

definition portableMap :: "string gomap \<Rightarrow> bool" where
  "portableMap m \<longleftrightarrow> distinctKeys m \<and> list_all (\<lambda>(k, v). ValidString k \<and> ValidString v) m"

abbreviation portableStrings :: "string list \<Rightarrow> bool" where
  "portableStrings \<equiv> list_all ValidString"

definition portableWindow :: "WeeklyWindow \<Rightarrow> bool" where
  "portableWindow w \<longleftrightarrow> (\<forall>i\<in>{Weekday w, StartMinute w, EndMinute w}. - (2 ^ 63) \<le> i \<and> i < 2 ^ 63)"

fun portableStrategy :: "Strategy \<Rightarrow> bool" where
  "portableStrategy (Exact s) \<longleftrightarrow>
     ValidString (etName s) \<and> ValidString (etVariant s) \<and> portableStrings (etTenants s) \<and>
     portableStrings (etSubjects s) \<and> portableStrings (etEnvironments s) \<and> portableMap (etAttributes s)"
| "portableStrategy (Percentage s) \<longleftrightarrow> ValidString (pcName s) \<and> ValidString (pcVariant s) \<and> ValidString (pcSeed s)"
| "portableStrategy (Sets s) \<longleftrightarrow>
     ValidString (ssName s) \<and> ValidString (ssVariant s) \<and> portableStrings (ssAllowTenants s) \<and>
     portableStrings (ssDenyTenants s) \<and> portableStrings (ssAllowSubjects s) \<and> portableStrings (ssDenySubjects s)"
| "portableStrategy (TimeWindow s) \<longleftrightarrow>
     ValidString (twName s) \<and> ValidString (twVariant s) \<and> portableTime (twNotBefore s) \<and> portableTime (twNotAfter s)"
| "portableStrategy (Schedule s) \<longleftrightarrow>
     ValidString (scName s) \<and> ValidString (scVariant s) \<and> ValidString (scLocation s) \<and> list_all portableWindow (scWindows s)"
| "portableStrategy (Fact s) \<longleftrightarrow>
     ValidString (fsName s) \<and> ValidString (fsVariant s) \<and> ValidString (fsFact s) \<and> portableValue (fsEquals s)"
| "portableStrategy _ \<longleftrightarrow> False"

definition portableDependency :: "Dependency \<Rightarrow> bool" where
  "portableDependency d \<longleftrightarrow> ValidString (FeatureKey d) \<and> ValidString (RequiredVariant d)"

definition portableDefinition :: "Definition \<Rightarrow> bool" where
  "portableDefinition d \<longleftrightarrow>
     ValidString (dKey d) \<and> properType (dType d) \<and> ValidString (typeName (dType d)) \<and> portableValue (dDefault d) \<and>
     distinctKeys (dVariants d) \<and> list_all (\<lambda>(k, v). ValidString k \<and> portableValue v) (dVariants d) \<and>
     portableMap (dMetadata d) \<and> ValidString (dOwner d) \<and>
     properLifecycle (dLifecycle d) \<and> ValidString (lifecycleName (dLifecycle d)) \<and>
     list_all portableDependency (dDependencies d) \<and> portableStrings (dGroups d) \<and> portableStrings (dTags d) \<and>
     list_all portableStrategy (dStrategies d)"

definition portableGroup :: "GroupDefinition \<Rightarrow> bool" where
  "portableGroup g \<longleftrightarrow>
     ValidString (gKey g) \<and> ValidString (gParent g) \<and> portableMap (gMetadata g) \<and> ValidString (gOwner g) \<and>
     portableStrings (gTags g) \<and> list_all portableStrategy (gStrategies g)"

text \<open>The canonical order that a document fixes.\<close>

fun canonicalStrategy :: "Strategy \<Rightarrow> Strategy" where
  "canonicalStrategy (Exact s) = Exact (s\<lparr> etTenants := sort (etTenants s), etSubjects := sort (etSubjects s),
     etEnvironments := sort (etEnvironments s), etAttributes := sort_key fst (etAttributes s) \<rparr>)"
| "canonicalStrategy (Sets s) = Sets (s\<lparr> ssAllowTenants := sort (ssAllowTenants s), ssDenyTenants := sort (ssDenyTenants s),
     ssAllowSubjects := sort (ssAllowSubjects s), ssDenySubjects := sort (ssDenySubjects s) \<rparr>)"
| "canonicalStrategy s = s"

definition canonicalDefinition :: "Definition \<Rightarrow> Definition" where
  "canonicalDefinition d = d\<lparr>
     dVariants := sort_key fst (dVariants d),
     dMetadata := sort_key fst (dMetadata d),
     dDependencies := sortDependencies (dDependencies d),
     dTags := sort (dTags d),
     dStrategies := map canonicalStrategy (dStrategies d) \<rparr>"

definition canonicalGroup :: "GroupDefinition \<Rightarrow> GroupDefinition" where
  "canonicalGroup g = g\<lparr>
     gMetadata := sort_key fst (gMetadata g),
     gTags := sort (gTags g),
     gStrategies := map canonicalStrategy (gStrategies g) \<rparr>"

section \<open>Round trips of the parts\<close>

lemma wfJson_mono: "wfJson room j \<Longrightarrow> room \<le> room' \<Longrightarrow> wfJson room' j"
  by (induction j arbitrary: room room' rule: compactJson.induct)
     (fastforce simp: list_all_iff)+

lemma sint_range: "- (2 ^ 63) \<le> sint (w :: 64 word) \<and> sint w < 2 ^ 63"
  using sint_range_size [of w] by (simp add: word_size)

lemma parseJson_Nil [simp]: "parseJson [] = None"
  by (simp add: parseJson_def skipSpace_def numeral_2_eq_2)

lemma okJ_value:
  assumes "portableValue v" "structuredRoom < room"
  shows "okJ room valueSchema (valueJ (encodeValue v))"
  using assms sint_range [of "vinteger v"]
  by (auto simp: portableValue_def valueSchema_def valueJ_def encodeValue_def emptyValueWire_def Let_def
      compactStructured_def typeName_def typeNames_def byteIn_def
      split: Type.splits option.splits intro: wfJson_mono)

lemma decode_value:
  assumes "portableValue v"
  shows "decodeValue (valueOfJ (normJ valueSchema (valueJ (encodeValue v)))) = Inr v"
proof -
  have "properType (vwType (encodeValue v))" "vwStructured (encodeValue v) \<noteq> Some []"
       "\<And>s. vwStructured (encodeValue v) = Some s \<Longrightarrow> parseJson s \<noteq> None"
    using assms
    by (auto simp: portableValue_def encodeValue_def emptyValueWire_def compactStructured_def split: Type.splits option.splits if_splits)
  then show ?thesis
    using assms
    by (auto simp: valueOfJ_normJ portableValue_def encodeValue_def emptyValueWire_def decodeValue_def payload_def
        compactStructured_def compactText_def split: Type.splits option.splits)
qed

lemma portableStrings_sort [simp]: "portableStrings (sort ss) = portableStrings ss"
  by (simp add: list_all_iff)

lemma okJ_strings: "portableStrings ss \<Longrightarrow> room \<noteq> 0 \<Longrightarrow> okJ room stringsT (stringsJ ss)"
  by (simp add: list_all_iff)

lemma okJ_stringMap: "portableMap m \<Longrightarrow> room \<noteq> 0 \<Longrightarrow> okJ room (JTMap JTString) (mapJ VString m)"
  by (auto simp: portableMap_def mapJ_def list_all_iff o_def case_prod_beta')

lemma valid_kinds [simp]:
  "ValidString ''exact''" "ValidString ''percentage''" "ValidString ''set''" "ValidString ''time_window''"
  "ValidString ''schedule''" "ValidString ''fact''"
  by code_simp+

lemma list_all_okStrings [simp]: "list_all (okJ room JTString) (map VString ss) = portableStrings ss"
  by (simp add: list_all_iff)

declare ValidString.simps(2) [simp del] okJ.simps(10) [simp del]

lemma okJ_emptyMap [simp]: "isEmptyValue (mapJ f [])"
  by (simp add: mapJ_def)

lemma structuredRoom_bounds: "8 < structuredRoom" "structuredRoom + 10 = maxNestingDepth"
  by (simp_all add: structuredRoom_def maxNestingDepth_def)

lemma okJ_window: "portableWindow w \<Longrightarrow> room \<noteq> 0 \<Longrightarrow> okJ room weeklySchema (weeklyJ (encodeWindow w))"
  by (simp add: portableWindow_def weeklySchema_def weeklyJ_def encodeWindow_def)

lemma decode_window [simp]: "decodeWindow (encodeWindow w) = w"
  by (simp add: decodeWindow_def encodeWindow_def)

lemma ValidString_optionalTime: "ValidString (formatOptionalTime t)"
  by (simp add: formatOptionalTime_def ValidString_time)

lemma format_nonempty: "formatRFC3339Nano t \<noteq> []"
  by (simp add: formatRFC3339Nano_def Let_def split: prod.split)

lemma parse_optionalTime: "portableTime t \<Longrightarrow> parseOptionalTime (formatOptionalTime t) = Inr t"
  by (simp add: portableTime_def parseOptionalTime_def formatOptionalTime_def parse_format format_nonempty)

lemma uint_range32: "uint (w :: 32 word) < 2 ^ 32" and uint_range64: "uint (v :: 64 word) < 2 ^ 64"
  using uint_lt2p [of w] uint_lt2p [of v] by simp_all

lemmas strategy_trip_defs =
  strategySchema_def strategyJ_def encodeStrategy_def emptyStrategyWire_def sortedStrings_def Let_def

lemma okJ_strategy:
  assumes "portableStrategy s" "structuredRoom + 1 < room"
  shows "\<exists>w. encodeStrategy s = Inr w \<and> okJ room strategySchema (strategyJ w)"
proof (cases s)
  case (Exact v)
  then show ?thesis
    using assms by (simp add: strategy_trip_defs okJ_stringMap)
next
  case (Fact v)
  then show ?thesis
    using assms okJ_value [of "fsEquals v" "room - 1"] by (simp add: strategy_trip_defs)
next
  case (Schedule v)
  then show ?thesis
    using assms structuredRoom_bounds(1) by (simp add: strategy_trip_defs list_all_iff okJ_window)
next
  case (Percentage v)
  then show ?thesis
    using assms uint_range32 [of "pcThreshold v"] by (simp add: strategy_trip_defs)
qed (use assms in \<open>simp_all add: strategy_trip_defs ValidString_optionalTime\<close>)

lemma decode_strategy:
  assumes "portableStrategy s" "encodeStrategy s = Inr w"
  shows "decodeStrategy (strategyOfJ (normJ strategySchema (strategyJ w))) = Inr (canonicalStrategy s)"
  using assms
  by (cases s)
     (auto simp: strategyOfJ_normJ encodeStrategy_def emptyStrategyWire_def decodeStrategy_def sortedStrings_def
       decodeTimeWindow_def decodeFactStrategy_def parse_optionalTime decode_value o_def)

abbreviation strategyBack :: "strategyWire \<Rightarrow> strategyWire" where
  "strategyBack w \<equiv> strategyOfJ (normJ strategySchema (strategyJ w))"

lemma strategies_trip:
  assumes "list_all portableStrategy ss" "structuredRoom + 1 < room"
  shows "\<exists>ws. mapRes encodeStrategy ss = Inr ws \<and> list_all (\<lambda>w. okJ room strategySchema (strategyJ w)) ws \<and>
           mapRes (\<lambda>w. decodeStrategy (strategyBack w)) ws = Inr (map canonicalStrategy ss)"
  using assms(1)
proof (induction ss)
  case (Cons s ss)
  obtain w where "encodeStrategy s = Inr w" "okJ room strategySchema (strategyJ w)"
    using okJ_strategy [of s room] Cons.prems assms(2) by auto
  then show ?case
    using Cons decode_strategy [of s w] by auto
qed simp

lemma mapRes_map: "mapRes f (map g xs) = mapRes (\<lambda>x. f (g x)) xs"
  by (induction xs) simp_all

lemma okJ_valueMap:
  assumes "distinctKeys m" "list_all (\<lambda>(k, v). ValidString k \<and> portableValue v) m" "structuredRoom + 1 < room"
  shows "okJ room (JTMap valueSchema) (mapJ valueJ (map (\<lambda>(k, v). (k, encodeValue v)) m))"
  using assms okJ_value [of _ "room - 1"]
  by (auto simp: mapJ_def okJ.simps(10) list_all_iff o_def case_prod_beta')

lemma decode_variants:
  assumes "list_all (\<lambda>(k, v). ValidString k \<and> portableValue v) m"
  shows "mapRes (\<lambda>(name, encoded). rbind (decodeValue encoded) (\<lambda>v. Inr (name, v)))
           (map (\<lambda>(k, v). (k, valueOfJ (normJ valueSchema (valueJ v)))) (map (\<lambda>(k, v). (k, encodeValue v)) m)) = Inr m"
  using assms by (induction m) (auto simp: decode_value)

lemma set_sortDependencies [simp]: "set (sortDependencies ds) = set ds"
  by (simp add: sortDependencies_def)

lemma decode_dependencies [simp]: "map decodeDependency (map encodeDependency ds) = ds"
  by (induction ds) (simp_all add: decodeDependency_def encodeDependency_def)

lemma okJ_dependencies:
  assumes "list_all portableDependency ds" "room \<noteq> 0"
  shows "list_all (okJ room dependencySchema) (map dependencyJ (map encodeDependency ds))"
  using assms by (auto simp: list_all_iff portableDependency_def dependencySchema_def dependencyJ_def encodeDependency_def)

lemma list_all_map: "list_all P (map f xs) = list_all (\<lambda>x. P (f x)) xs"
  by (simp add: list_all_iff)

lemma definition_trip:
  assumes "portableDefinition d" "structuredRoom + 4 < room"
  shows "\<exists>w. encodeDefinition d = Inr w \<and> okJ room definitionSchema (definitionJ w) \<and>
           decodeDefinition (definitionOfJ (normJ definitionSchema (definitionJ w))) = Inr (canonicalDefinition d)"
proof -
  note d = assms(1) [unfolded portableDefinition_def]
  have room: "structuredRoom + 1 < room - 2"
    using assms(2) by simp
  obtain ws where ws: "mapRes encodeStrategy (dStrategies d) = Inr ws"
      "list_all (\<lambda>w. okJ (room - 2) strategySchema (strategyJ w)) ws"
      "mapRes (\<lambda>w. decodeStrategy (strategyBack w)) ws = Inr (map canonicalStrategy (dStrategies d))"
    using strategies_trip [of "dStrategies d" "room - 2"] d room by blast
  define w where "w = \<lparr>
       wKey = dKey d, wType = dType d, wDefault = encodeValue (dDefault d),
       wVariants = map (\<lambda>(name, v). (name, encodeValue v)) (dVariants d),
       wMetadata = dMetadata d, wOwner = dOwner d, wLifecycle = dLifecycle d,
       wDependencies = map encodeDependency (sortDependencies (dDependencies d)),
       wGroups = dGroups d, wTags = sort (dTags d), wVersion = dVersion d,
       wStrategies = ws \<rparr>"
  have encoded: "encodeDefinition d = Inr w"
    using ws(1) by (simp add: encodeDefinition_def w_def sortedStrings_def)
  have rooms: "structuredRoom < room - Suc 0" "structuredRoom + 1 < room - Suc 0" "room - Suc 0 \<noteq> 0" "room - Suc (Suc 0) \<noteq> 0" "room \<noteq> 0"
    using assms(2) structuredRoom_bounds(1) by auto
  have "list_all portableDependency (sortDependencies (dDependencies d))"
    using d by (simp add: list_all_iff)
  then have ok: "okJ room definitionSchema (definitionJ w)"
    using d ws(2) rooms okJ_value [of "dDefault d" "room - Suc 0"] okJ_valueMap [of "dVariants d" "room - Suc 0"]
      okJ_stringMap [of "dMetadata d" "room - Suc 0"] okJ_dependencies [of "sortDependencies (dDependencies d)" "room - Suc (Suc 0)"]
      uint_range64 [of "dVersion d"]
    by (simp add: definitionSchema_def definitionJ_def w_def list_all_map numeral_2_eq_2)
  have "list_all (\<lambda>(k, v). ValidString k \<and> portableValue v) (sort_key fst (dVariants d))"
    using d by (simp add: list_all_iff)
  then have "decodeDefinition (definitionOfJ (normJ definitionSchema (definitionJ w))) = Inr (canonicalDefinition d)"
    using d ws(3) decode_variants [of "sort_key fst (dVariants d)"]
    by (simp add: definitionOfJ_normJ w_def decodeDefinition_def decode_value sort_key_entries mapRes_map canonicalDefinition_def
       del: map_map)
  with encoded ok show ?thesis
    by blast
qed

lemma group_trip:
  assumes "portableGroup g" "structuredRoom + 4 < room"
  shows "\<exists>w. encodeGroup g = Inr w \<and> okJ room groupSchema (groupJ w) \<and>
           decodeGroup (groupOfJ (normJ groupSchema (groupJ w))) = Inr (canonicalGroup g)"
proof -
  note g = assms(1) [unfolded portableGroup_def]
  have room: "structuredRoom + 1 < room - 2"
    using assms(2) by simp
  obtain ws where ws: "mapRes encodeStrategy (gStrategies g) = Inr ws"
      "list_all (\<lambda>w. okJ (room - 2) strategySchema (strategyJ w)) ws"
      "mapRes (\<lambda>w. decodeStrategy (strategyBack w)) ws = Inr (map canonicalStrategy (gStrategies g))"
    using strategies_trip [of "gStrategies g" "room - 2"] g room by blast
  define w where "w = \<lparr> gwKey = gKey g, gwParent = gParent g, gwMetadata = gMetadata g, gwOwner = gOwner g,
       gwTags = sort (gTags g), gwVersion = gVersion g, gwStrategies = ws \<rparr>"
  have "encodeGroup g = Inr w"
    using ws(1) by (simp add: encodeGroup_def w_def sortedStrings_def)
  moreover have "okJ room groupSchema (groupJ w)"
    using g ws(2) assms(2) okJ_stringMap [of "gMetadata g" "room - Suc 0"] uint_range64 [of "gVersion g"]
    by (simp add: groupSchema_def groupJ_def w_def list_all_map numeral_2_eq_2)
  moreover have "decodeGroup (groupOfJ (normJ groupSchema (groupJ w))) = Inr (canonicalGroup g)"
    using ws(3) by (simp add: groupOfJ_normJ w_def decodeGroup_def mapRes_map canonicalGroup_def)
  ultimately show ?thesis
    by blast
qed

end
