(* ===== verification/Canonical.thy ===== *)
theory Canonical
  imports Codec_Laws Memory_Inv
begin

text \<open>
  Canonical order is invisible: a definition, a group and a whole snapshot validate and evaluate as
  before when their sets and maps are sorted and their definitions listed in another order.
\<close>

section \<open>Strategies\<close>

lemma canonical_names [simp]:
  "StrategyName (canonicalStrategy s) = StrategyName s"
  "TargetVariant (canonicalStrategy s) = TargetVariant s"
  "canonicalStrategy s = NilStrategy \<longleftrightarrow> s = NilStrategy"
  by (cases s; simp)+

lemma sort_eq_Nil [simp]: "sort_key f xs = [] \<longleftrightarrow> xs = []"
  by (metis length_0_conv length_sort)

lemma EvaluateStrategy_canonical [simp]:
  "EvaluateStrategy env (canonicalStrategy s) input = EvaluateStrategy env s input"
  by (cases s) (simp_all add: evaluateExact_def evaluateSet_def listedOrUnrestricted_iff listed_iff
      matchesAttributes_def list_all_iff)

lemma validateTargetValues_None:
  "validateTargetValues limits sets = None \<longleftrightarrow>
     (\<forall>v\<in>\<Union>(set ` set sets). validateTargetValue limits v = None) \<and> (\<Sum>values\<leftarrow>sets. len values) \<le> MaxTargetValues limits"
  by (auto simp: validateTargetValues_def firstErr_None_iff)

lemma ValidateStrategy_canonical:
  assumes "sameZones env env'" "ValidateStrategy env limits s = None"
  shows "ValidateStrategy env' limits (canonicalStrategy s) = None"
proof (cases s)
  case (Exact v)
  then show ?thesis
    using assms by (auto simp: sameZones_def validateExact_def validateTargetValues_None firstErr_None_iff split: if_splits)
next
  case (Sets v)
  then show ?thesis
    using assms by (auto simp: validateSet_def validateTargetValues_None)
qed (use assms sameZones_ValidateStrategy [of env env' limits s] in auto)

section \<open>Definitions and groups\<close>

lemma map_of_sort_key: "distinctKeys m \<Longrightarrow> map_of (sort_key fst m) = map_of m"
  by (rule map_of_eqI_set) (simp_all add: distinct_map)

lemma distinctKeys_sort [simp]: "distinctKeys (sort_key f m) = distinctKeys m"
  by (simp add: distinct_map)

lemma hasKey_sort [simp]: "hasKey (sort_key f m) k = hasKey m k"
  by (simp add: hasKey_iff)

lemma length_sortDependencies [simp]: "length (sortDependencies ds) = length ds"
  by (simp add: sortDependencies_def)

lemma canonicalDefinition_simps [simp]:
  "dKey (canonicalDefinition d) = dKey d" "dType (canonicalDefinition d) = dType d"
  "dDefault (canonicalDefinition d) = dDefault d" "dVariants (canonicalDefinition d) = sort_key fst (dVariants d)"
  "dMetadata (canonicalDefinition d) = sort_key fst (dMetadata d)" "dOwner (canonicalDefinition d) = dOwner d"
  "dLifecycle (canonicalDefinition d) = dLifecycle d" "dGroups (canonicalDefinition d) = dGroups d"
  "dDependencies (canonicalDefinition d) = sortDependencies (dDependencies d)" "dTags (canonicalDefinition d) = sort (dTags d)"
  "dVersion (canonicalDefinition d) = dVersion d" "dStrategies (canonicalDefinition d) = map canonicalStrategy (dStrategies d)"
  by (simp_all add: canonicalDefinition_def)

lemma canonicalGroup_simps [simp]:
  "gKey (canonicalGroup g) = gKey g" "gParent (canonicalGroup g) = gParent g"
  "gMetadata (canonicalGroup g) = sort_key fst (gMetadata g)" "gOwner (canonicalGroup g) = gOwner g"
  "gTags (canonicalGroup g) = sort (gTags g)" "gVersion (canonicalGroup g) = gVersion g"
  "gStrategies (canonicalGroup g) = map canonicalStrategy (gStrategies g)"
  by (simp_all add: canonicalGroup_def)

lemma ValidateDefinition_canonical:
  assumes "sameZones env env'" "ValidateDefinition env limits d = None"
  shows "ValidateDefinition env' limits (canonicalDefinition d) = None"
  using assms(2) ValidateStrategy_canonical [OF assms(1)] assms(1) [unfolded sameZones_def]
  by (auto simp: ValidateDefinition_def validateFeatureStrategy_def validateKeyBytes_def seqErr_None_iff
      firstErr_None_iff)

lemma validGroup_canonical:
  assumes "sameZones env env'" "validGroup env limits g"
  shows "validGroup env' limits (canonicalGroup g)"
  using assms(2) ValidateStrategy_canonical [OF assms(1)] assms(1) [unfolded sameZones_def]
  by (auto simp: validateGroup_def validateGroupStrategy_def validateKeyBytes_def seqErr_None_iff
      firstErr_None_iff)

section \<open>The dependency graph\<close>

definition sameDefinitions :: "Definition gomap \<Rightarrow> Definition gomap \<Rightarrow> bool" where
  "sameDefinitions defs defs' \<longleftrightarrow> (\<forall>k. map_of defs' k = map_option canonicalDefinition (map_of defs k))"

definition sameGroups :: "GroupDefinition gomap \<Rightarrow> GroupDefinition gomap \<Rightarrow> bool" where
  "sameGroups groups groups' \<longleftrightarrow> (\<forall>k. map_of groups' k = map_option canonicalGroup (map_of groups k))"

lemma sameDefinitions_dependencies:
  "sameDefinitions defs defs' \<Longrightarrow> dependenciesOf defs' k = sortDependencies (dependenciesOf defs k)"
  by (auto simp: sameDefinitions_def dependenciesOf_def sortDependencies_def split: option.split)

lemma sameDefinitions_rel: "sameDefinitions defs defs' \<Longrightarrow> dependencyRel defs' = dependencyRel defs"
  by (simp add: dependencyRel_def sameDefinitions_dependencies)

lemma sameDefinitions_depth: "sameDefinitions defs defs' \<Longrightarrow> depthWithin n defs' k = depthWithin n defs k"
  by (induction n arbitrary: k) (auto simp: sameDefinitions_dependencies sortDependencies_def list_all_iff)

lemma sameGroups_simps:
  assumes "sameGroups groups groups'"
  shows "hasKey groups' k = hasKey groups k" "parentOf groups' k = parentOf groups k"
    "groupStrategiesOf groups' k = map canonicalStrategy (groupStrategiesOf groups k)"
  using assms by (auto simp: sameGroups_def hasKey_def parentOf_def groupStrategiesOf_def split: option.split)

text \<open>The search accepts every acyclic graph whose chains are within the bound.\<close>

lemma visit_complete:
  assumes "acyclic (dependencyRel defs)" "depthWithin n defs key" "depth + int n \<le> MaxEvaluationDepth limits"
    and "\<forall>v\<in>set visiting. (v, key) \<in> (dependencyRel defs)\<^sup>+"
  shows "\<exists>v. visit limits defs key depth visiting visited = Inr v"
  using assms(2-)
proof (induction n arbitrary: key depth visiting visited)
  case 0
  then show ?case
    using assms(1) by (auto simp: visit.simps acyclic_def)
next
  case (Suc n)
  have "\<exists>v. visitDependencies limits defs deps (depth + 1) (key # visiting) visited = Inr v"
    if "set deps \<subseteq> set (dependenciesOf defs key)" for deps visited
    using that
  proof (induction deps arbitrary: visited)
    case (Cons dep deps)
    have edge: "(key, FeatureKey dep) \<in> dependencyRel defs"
      using Cons.prems by (auto simp: dependencyRel_def)
    have "\<exists>v. visit limits defs (FeatureKey dep) (depth + 1) (key # visiting) visited = Inr v"
      using Suc.prems Cons.prems edge
      by (intro Suc.IH) (auto simp: list_all_iff intro: trancl_into_trancl)
    then show ?case
      using Cons by auto
  qed simp
  from this [of "dependenciesOf defs key" visited] show ?case
    using assms(1) Suc.prems by (auto simp: visit.simps acyclic_def)
qed

lemma visitRoots_complete:
  assumes "acyclic (dependencyRel defs)" "0 \<le> MaxEvaluationDepth limits"
    and "\<forall>k\<in>set keys. depthWithin (nat (MaxEvaluationDepth limits)) defs k"
  shows "\<exists>v. visitRoots limits defs keys visited = Inr v"
  using assms(3)
proof (induction keys arbitrary: visited)
  case (Cons k keys)
  obtain v where "visit limits defs k 0 [] visited = Inr v"
    using visit_complete [OF assms(1), of "nat (MaxEvaluationDepth limits)" k 0 limits "[]" visited] Cons.prems assms(2)
    by auto
  then show ?case
    using Cons by auto
qed simp

section \<open>Acceptance\<close>

lemma map_of_keyed_canonical:
  assumes "\<And>x. k (c x) = k x" "distinct (map k xs)" "mset ys = mset xs"
  shows "map_of (map (\<lambda>x. (k x, x)) (map c ys)) key = map_option c (map_of (map (\<lambda>x. (k x, x)) xs) key)"
proof -
  have "map (\<lambda>x. (k x, x)) (map c ys) = map (\<lambda>(key, x). (key, c x)) (map (\<lambda>x. (k x, x)) ys)"
    by (simp add: assms(1))
  moreover have "map_of (map (\<lambda>x. (k x, x)) ys) = map_of (map (\<lambda>x. (k x, x)) xs)"
    using assms(2,3) by (intro map_of_mset_eq [symmetric]) (simp_all add: o_def)
  ultimately show ?thesis
    by (simp only: map_of_map o_apply)
qed

lemma sameGroups_walk: "sameGroups groups groups' \<Longrightarrow> groupWalk limits groups' k visiting depth = groupWalk limits groups k visiting depth"
  by (induction limits groups k visiting depth rule: groupWalk.induct)
     (simp add: groupWalk.simps [of _ groups'] groupWalk.simps sameGroups_simps)

lemma sameGroups_chain: "sameGroups groups groups' \<Longrightarrow> parentChain n groups' k = parentChain n groups k"
  by (induction n arbitrary: k) (simp_all add: sameGroups_simps)

lemma validateFeatureGroup_canonical:
  "sameGroups groups groups' \<Longrightarrow>
     validateFeatureGroup limits groups' (canonicalDefinition d) g = None \<longleftrightarrow> validateFeatureGroup limits groups d g = None"
  by (auto simp: validateFeatureGroup_def sameGroups_simps sameGroups_chain firstErr_None_iff)

lemma rng_Nil: "wfEnv env \<Longrightarrow> rng env [] = []"
  by (metis length_0_conv length_rng)

lemma accepted_depth:
  assumes "wfEnv env" "validateDependencyGraph env defs limits = None" "defs \<noteq> []"
  shows "0 \<le> MaxEvaluationDepth limits"
proof -
  obtain k keys where "map fst (rng env defs) = k # keys"
    using assms(1,3) by (cases "rng env defs") (metis length_0_conv length_rng, simp)
  then show ?thesis
    using assms(2) by (auto simp: validateDependencyGraph_def visit.simps split: sum.splits if_splits)
qed

lemma validateDependencyGraph_canonical:
  assumes "wfEnv env" "wfEnv env'" "validateDependencyGraph env defs limits = None"
    and same: "sameDefinitions defs defs'" "distinctKeys defs" "distinctKeys defs'"
    and "\<forall>k\<in>fst ` set defs. depthWithin (nat (MaxEvaluationDepth limits)) defs k"
  shows "validateDependencyGraph env' defs' limits = None"
proof -
  note sound = validateDependencyGraph_sound [OF assms(1,3)]
  have keys: "fst ` set defs' = fst ` set defs"
    using same(1) by (auto simp: sameDefinitions_def dom_def simp flip: dom_map_of_conv_image_fst)
  have "acyclic (dependencyRel defs')"
    using sound wf_acyclic [of "(dependencyRel defs)\<inverse>"] same(1) by (simp add: sameDefinitions_rel acyclic_converse)
  moreover have "\<forall>k\<in>fst ` set defs'. depthWithin (nat (MaxEvaluationDepth limits)) defs' k"
    using assms(7) keys same(1) by (simp add: sameDefinitions_depth)
  ultimately have visited: "\<exists>v. visitRoots limits defs' (map fst (rng env' defs')) [] = Inr v"
    using accepted_depth [OF assms(1,3)] keys assms(2)
      visitRoots_complete [of defs' limits "map fst (rng env' defs')" "[]"]
    by (cases "defs = []") (auto simp: rng_Nil)
  have "validateDependencyTarget defs' dep = None"
    if dep: "(k, d') \<in> set defs'" "dep \<in> set (dDependencies d')" for k d' dep
  proof -
    have "map_of defs' k = Some d'"
      using dep(1) same(3) by simp
    then obtain d where d: "(k, d) \<in> set defs" "d' = canonicalDefinition d"
      using same(1) by (auto simp: sameDefinitions_def dest: map_of_SomeD)
    then obtain target where "map_of defs (FeatureKey dep) = Some target" "hasKey (dVariants target) (RequiredVariant dep)"
      using sound dep(2) unfolding resolvedDependencies_def by fastforce
    then show ?thesis
      using same(1) by (simp add: validateDependencyTarget_None sameDefinitions_def)
  qed
  then show ?thesis
    using assms(2) visited by (auto simp: validateDependencyGraph_def firstErr_None_iff split: sum.split)
qed

lemma validateGroups_canonical:
  assumes "wfEnv env" "sameZones env env'" "sameDefinitions (byKey ds) (byKey ds')" "distinct (map dKey ds')"
    and "mset gs' = mset gs" "cloneAndValidateGroups env (byKey ds) gs limits = Inr (groupsByKey gs)"
  shows "cloneAndValidateGroups env' (byKey ds') (map canonicalGroup gs') limits = Inr (groupsByKey (map canonicalGroup gs'))"
proof -
  note ok = assms(6) [unfolded cloneAndValidateGroups_Inr]
  have env': "wfEnv env'"
    using assms(2) by (simp add: sameZones_def)
  have set_gs: "set gs' = set gs" "length gs' = length gs" "distinct (map gKey gs')"
    using assms(5) ok mset_eq_setD mset_eq_length mset_eq_imp_distinct_iff [of "map gKey gs'" "map gKey gs"] by auto
  let ?groups = "groupsByKey gs" and ?groups' = "groupsByKey (map canonicalGroup gs')"
  have same: "sameGroups ?groups ?groups'"
    unfolding sameGroups_def using ok assms(5) map_of_keyed_canonical [of gKey canonicalGroup gs gs'] by simp
  have walk: "validateGroupGraph env' ?groups' limits = None"
    using ok env' assms(1) set_gs by (auto simp: validateGroupGraph_def firstErr_None_iff sameGroups_walk [OF same] simp del: map_map)
  have features: "validateFeatureGroup limits ?groups' d' g = None"
    if "d' \<in> set ds'" "g \<in> set (dGroups d')" for d' g
  proof -
    have "map_of (byKey ds') (dKey d') = Some d'"
      using that(1) assms(4) by (intro map_of_is_SomeI) (auto simp: o_def)
    then obtain d where "map_of (byKey ds) (dKey d') = Some d" "d' = canonicalDefinition d"
      using assms(3) by (auto simp: sameDefinitions_def)
    then show ?thesis
      using that(2) ok assms(1) validateFeatureGroup_canonical [OF same] by (fastforce dest!: map_of_SomeD)
  qed
  show ?thesis
    unfolding cloneAndValidateGroups_Inr
    using ok set_gs walk features env' validGroup_canonical [OF assms(2)] sameGroups_simps(1) [OF same] assms(1)
    by (auto simp: o_def)
qed

lemma NewSnapshot_canonical:
  assumes "sameZones env env'" "mset ds' = mset ds" "mset gs' = mset gs"
    and accepted: "NewSnapshotWithGroups env ds gs limits = Inr s"
    and depth: "\<forall>d\<in>set ds. depthWithin (nat (MaxEvaluationDepth limits)) (byKey ds) (dKey d)"
  shows "NewSnapshotWithGroups env' (map canonicalDefinition ds') (map canonicalGroup gs') limits =
      Inr \<lparr> snDefinitions = byKey (map canonicalDefinition ds'), snGroups = groupsByKey (map canonicalGroup gs'),
            snTenant = [], snLimits = limits \<rparr>"
proof -
  note ok = accepted [unfolded NewSnapshotWithGroups_Inr]
  have envs: "wfEnv env" "wfEnv env'"
    using assms(1) by (simp_all add: sameZones_def)
  have set_ds: "set ds' = set ds" "length ds' = length ds" "distinct (map dKey ds')"
    using assms(2) ok mset_eq_setD mset_eq_length mset_eq_imp_distinct_iff [of "map dKey ds'" "map dKey ds"] by auto
  have same: "sameDefinitions (byKey ds) (byKey (map canonicalDefinition ds'))"
    unfolding sameDefinitions_def using ok assms(2) map_of_keyed_canonical [of dKey canonicalDefinition ds ds'] by simp
  have "validateDependencyGraph env' (byKey (map canonicalDefinition ds')) limits = None"
    using ok set_ds depth by (intro validateDependencyGraph_canonical [OF envs _ same]) (auto simp: o_def)
  moreover have "cloneAndValidateGroups env' (byKey (map canonicalDefinition ds')) (map canonicalGroup gs') limits =
      Inr (groupsByKey (map canonicalGroup gs'))"
    using ok set_ds by (intro validateGroups_canonical [OF envs(1) assms(1) same _ assms(3)]) (auto simp: o_def)
  ultimately show ?thesis
    unfolding NewSnapshotWithGroups_Inr
    using ok set_ds ValidateDefinition_canonical [OF assms(1)] by (auto simp: o_def)
qed

section \<open>Evaluation\<close>

definition sameSnapshot :: "Snapshot \<Rightarrow> Snapshot \<Rightarrow> bool" where
  "sameSnapshot s s' \<longleftrightarrow>
     sameDefinitions (snDefinitions s) (snDefinitions s') \<and> sameGroups (snGroups s) (snGroups s') \<and>
     snTenant s' = snTenant s \<and> snLimits s' = snLimits s"

lemma canonical_results [simp]:
  assumes "distinctKeys (dVariants d)"
  shows "evaluateOneStrategy env (canonicalDefinition d) c pre over limits (canonicalStrategy st) =
           evaluateOneStrategy env d c pre over limits st"
  using assms by (simp add: evaluateOneStrategy_def variantOf_def map_of_sort_key cong: if_cong)

lemma canonical_defaults [simp]:
  "defaultResult (canonicalDefinition d) reason diagnostics = defaultResult d reason diagnostics"
  "dependencyFailed (canonicalDefinition d) = dependencyFailed d"
  by (simp_all add: defaultResult_def dependencyFailed_def)

lemma evaluateGroup_canonical:
  assumes "sameSnapshot s s'" "distinctKeys (dVariants d)"
  shows "evaluateGroup env s' (canonicalDefinition d) key c visited depth = evaluateGroup env s d key c visited depth"
  using assms
proof (induction env s d key c visited depth rule: evaluateGroup.induct)
  case (1 env s d key c visited depth)
  then have limits: "snLimits s' = snLimits s" and same: "sameGroups (snGroups s) (snGroups s')"
    by (simp_all add: sameSnapshot_def)
  show ?case
    using 1
    by (auto simp: evaluateGroup.simps [of env s'] evaluateGroup.simps [of env s] limits sameGroups_simps [OF same]
        firstMatch_map o_def rbind_def split: sum.split option.split)
qed

lemma evaluatePolicies_canonical:
  assumes "sameSnapshot s s'" "distinctKeys (dVariants d)"
  shows "evaluatePolicies env s' c (canonicalDefinition d) = evaluatePolicies env s c d"
proof -
  have "evaluateGroups env s' (canonicalDefinition d) keys c visited = evaluateGroups env s d keys c visited" for keys visited
    by (induction keys arbitrary: visited) (simp_all add: evaluateGroup_canonical [OF assms] cong: option.case_cong)
  then show ?thesis
    using assms by (simp add: evaluatePolicies_def firstMatch_map sameSnapshot_def cong: option.case_cong)
qed

lemma dependenciesHold_order:
  assumes "set deps' = set deps"
    and "\<And>dep. dep \<in> set deps \<Longrightarrow> evaluateKey env s' c (FeatureKey dep) visiting depth = Inr (r dep)"
    and "\<And>dep. dep \<in> set deps \<Longrightarrow> evaluateKey env s c (FeatureKey dep) visiting depth = Inr (r dep)"
  shows "dependenciesHold env s' c deps' visiting depth = dependenciesHold env s c deps visiting depth"
proof -
  have holds: "dependenciesHold env t c ds visiting depth = Inr (\<forall>dep\<in>set ds. erVariant (r dep) = RequiredVariant dep)"
    if "\<And>dep. dep \<in> set ds \<Longrightarrow> evaluateKey env t c (FeatureKey dep) visiting depth = Inr (r dep)" for t ds
    using that by (induction ds) auto
  show ?thesis
    using assms holds [of deps' s'] holds [of deps s] by simp
qed

lemma evaluateKey_canonical:
  assumes "sameSnapshot s s'" "wfSnapshot env s" "builtinOnly s"
    and "\<forall>(k, d)\<in>set (snDefinitions s). distinctKeys (dVariants d)"
    and "hasKey (snDefinitions s) key" "depthWithin n (snDefinitions s) key" "depth + int n \<le> MaxEvaluationDepth (snLimits s)"
    and "\<forall>v\<in>set visiting. (v, key) \<in> (dependencyRel (snDefinitions s))\<^sup>+"
  shows "evaluateKey env s' c key visiting depth = evaluateKey env s c key visiting depth"
  using assms(5-)
proof (induction n arbitrary: key visiting depth)
  case 0
  then obtain d where d: "map_of (snDefinitions s) key = Some d" "dDependencies d = []"
    by (auto simp: hasKey_def dependenciesOf_def)
  moreover have "map_of (snDefinitions s') key = Some (canonicalDefinition d)" "snLimits s' = snLimits s"
    using d assms(1) by (simp_all add: sameSnapshot_def sameDefinitions_def)
  moreover have "distinctKeys (dVariants d)"
    using d assms(4) by (auto dest!: map_of_SomeD)
  ultimately show ?case
    by (simp add: evaluateKey.simps [of env s'] evaluateKey.simps [of env s] evaluatePolicies_canonical [OF assms(1)] sortDependencies_def)
next
  case (Suc n)
  let ?R = "dependencyRel (snDefinitions s)"
  obtain d where d: "map_of (snDefinitions s) key = Some d"
    using Suc.prems by (auto simp: hasKey_def)
  have d': "map_of (snDefinitions s') key = Some (canonicalDefinition d)" "snLimits s' = snLimits s"
    using d assms(1) by (simp_all add: sameSnapshot_def sameDefinitions_def)
  have "distinctKeys (dVariants d)"
    using d assms(4) by (auto dest!: map_of_SomeD)
  note policies = evaluatePolicies_canonical [OF assms(1) this]
  have dep: "\<exists>r. evaluateKey env s c (FeatureKey dep) (key # visiting) (depth + 1) = Inr r \<and>
      evaluateKey env s' c (FeatureKey dep) (key # visiting) (depth + 1) = Inr r" if "dep \<in> set (dDependencies d)" for dep
  proof -
    have edge: "(key, FeatureKey dep) \<in> ?R"
      using d that by (auto simp: dependencyRel_def dependenciesOf_def)
    then have path: "\<forall>v\<in>set (key # visiting). (v, FeatureKey dep) \<in> ?R\<^sup>+"
      using Suc.prems(4) by (auto intro: trancl_into_trancl)
    have key: "hasKey (snDefinitions s) (FeatureKey dep)"
      using assms(2) d that
      by (fastforce simp: wfSnapshot_def wfDefinitions_def resolvedDependencies_def hasKey_def dest!: map_of_SomeD)
    have within: "depthWithin n (snDefinitions s) (FeatureKey dep)" "depth + 1 + int n \<le> MaxEvaluationDepth (snLimits s)"
      using Suc.prems(2,3) d that by (auto simp: dependenciesOf_def list_all_iff)
    then obtain r where "evaluateKey env s c (FeatureKey dep) (key # visiting) (depth + 1) = Inr r"
      using evaluateKey_errors [OF assms(2,3) key path]
      by (cases "evaluateKey env s c (FeatureKey dep) (key # visiting) (depth + 1)") auto
    then show ?thesis
      using Suc.IH [OF key within path] by simp
  qed
  then obtain r where r: "\<And>dep. dep \<in> set (dDependencies d) \<Longrightarrow>
      evaluateKey env s c (FeatureKey dep) (key # visiting) (depth + 1) = Inr (r dep) \<and>
      evaluateKey env s' c (FeatureKey dep) (key # visiting) (depth + 1) = Inr (r dep)"
    by metis
  have "dependenciesHold env s' c (sortDependencies (dDependencies d)) (key # visiting) (depth + 1) =
      dependenciesHold env s c (dDependencies d) (key # visiting) (depth + 1)"
    using r by (intro dependenciesHold_order) auto
  then show ?case
    by (simp add: evaluateKey.simps [of env s'] evaluateKey.simps [of env s] d d' policies cong: if_cong)
qed

theorem evaluate_canonical:
  assumes "sameSnapshot s s'" "wfSnapshot env s" "builtinOnly s"
    and "\<forall>(k, d)\<in>set (snDefinitions s). distinctKeys (dVariants d)"
    and "\<forall>k\<in>fst ` set (snDefinitions s). depthWithin (nat (MaxEvaluationDepth (snLimits s))) (snDefinitions s) k"
    and "0 \<le> MaxEvaluationDepth (snLimits s)"
  shows "evaluate env s' key ty c = evaluate env s key ty c"
proof (cases "map_of (snDefinitions s) key")
  case None
  then show ?thesis
    using assms(1) by (simp add: evaluate_def sameSnapshot_def sameDefinitions_def)
next
  case (Some d)
  then have "key \<in> fst ` set (snDefinitions s)"
    by (metis domI dom_map_of_conv_image_fst)
  then have "depthWithin (nat (MaxEvaluationDepth (snLimits s))) (snDefinitions s) key"
    using assms(5) by blast
  then have "evaluateKey env s' c key [] 0 = evaluateKey env s c key [] 0"
    using assms(1-4,6) Some
    by (intro evaluateKey_canonical [of s s' env key "nat (MaxEvaluationDepth (snLimits s))"]) (simp_all add: hasKey_def)
  then show ?thesis
    using Some assms(1) by (simp add: evaluate_def sameSnapshot_def sameDefinitions_def)
qed

end
