(* ===== verification/Json_Typed.thy ===== *)
theory Json_Typed
  imports Json_Codec
begin

text \<open>
  Decoding keeps a value within its schema: every field has the form of its type, and the keys of a
  decoded map are distinct, also when the document repeats them.
\<close>

fun typedJ :: "jtype \<Rightarrow> jval \<Rightarrow> bool"
  and typedFields :: "(string \<times> bool \<times> jtype) list \<Rightarrow> jval list \<Rightarrow> bool"
where
  "typedJ (JTPtr ty) v = (case v of VPtr None \<Rightarrow> True | VPtr (Some w) \<Rightarrow> typedJ ty w | _ \<Rightarrow> False)"
| "typedJ (JTSlice ty) v = (case v of VSlice vs \<Rightarrow> list_all (typedJ ty) vs | _ \<Rightarrow> False)"
| "typedJ (JTMap ty) v = (case v of VMap m \<Rightarrow> distinctKeys m \<and> list_all (\<lambda>(k, w). typedJ ty w) m | _ \<Rightarrow> False)"
| "typedJ (JTStruct fs) v = (case v of VStruct vs \<Rightarrow> typedFields fs vs | _ \<Rightarrow> False)"
| "typedJ ty v = True"
| "typedFields [] vs = (vs = [])"
| "typedFields (f # fs) vs = (case (f, vs) of ((name, omit, ty), v # vs') \<Rightarrow> typedJ ty v \<and> typedFields fs vs' | _ \<Rightarrow> False)"

lemma typedFields_zeroJ:
  "(\<And>name omit ty. (name, omit, ty) \<in> set fs \<Longrightarrow> typedJ ty (zeroJ ty)) \<Longrightarrow> typedFields fs (map (\<lambda>(name, omit, t). zeroJ t) fs)"
proof (induction fs)
  case (Cons f fs)
  then show ?case
    by (cases f) (simp, blast)
qed simp

lemma typedJ_zeroJ: "typedJ ty (zeroJ ty)"
proof (induction ty)
  case (JTStruct fs)
  then show ?case
    using typedFields_zeroJ [of fs] by auto
qed simp_all

lemma foldRes_invariant:
  assumes "foldRes f xs s = Inr s'" "P s" "\<And>x s s'. x \<in> set xs \<Longrightarrow> P s \<Longrightarrow> f x s = Inr s' \<Longrightarrow> P s'"
  shows "P s'"
  using assms
proof (induction xs arbitrary: s)
  case (Cons x xs)
  then obtain t where "f x s = Inr t" "foldRes f xs t = Inr s'"
    by (auto simp: rbind_eq_Inr)
  then show ?case
    using Cons.IH [of t] Cons.prems by (meson list.set_intros)
qed simp

lemma set_AList_update: "set (AList.update k v m) \<subseteq> insert (k, v) (set m)"
  by (induction m) auto

lemma mapRes_values: "mapRes f xs = Inr ys \<Longrightarrow> y \<in> set ys \<Longrightarrow> \<exists>x\<in>set xs. f x = Inr y"
  by (induction xs arbitrary: ys) (auto simp: rbind_eq_Inr)

lemma typedJ_slice:
  assumes "mapRes (\<lambda>(x, v). decodeJ ty x v) (zip js (ws @ replicate n (zeroJ ty))) = Inr vs" "list_all (typedJ ty) ws"
    and "\<And>x v v'. x \<in> set js \<Longrightarrow> v \<in> set (ws @ replicate n (zeroJ ty)) \<Longrightarrow> typedJ ty v \<Longrightarrow> decodeJ ty x v = Inr v' \<Longrightarrow> typedJ ty v'"
  shows "list_all (typedJ ty) vs"
proof -
  have "typedJ ty v'" if zipped: "(x, v) \<in> set (zip js (ws @ replicate n (zeroJ ty)))" and decoded: "decodeJ ty x v = Inr v'" for x v v'
  proof -
    have "typedJ ty v"
      using set_zip_rightD [OF zipped] assms(2) by (auto simp: list_all_iff typedJ_zeroJ)
    then show ?thesis
      using assms(3) set_zip_leftD [OF zipped] set_zip_rightD [OF zipped] decoded by blast
  qed
  then show ?thesis
    using mapRes_values [OF assms(1)] by (fastforce simp: list_all_iff)
qed

lemma typedJ_decode:
  "decodeJ ty j old = Inr v \<Longrightarrow> typedJ ty old \<Longrightarrow> typedJ ty v"
  "decodeField fs name j vs = Inr vs' \<Longrightarrow> typedFields fs vs \<Longrightarrow> typedFields fs vs'"
proof (induction ty j old and fs name j vs arbitrary: v and vs' rule: decodeJ_decodeField.induct)
  case (8 ty j old)
  show ?case
  proof (cases "j = JNull")
    case False
    then obtain w where "decodeJ ty j (case old of VPtr (Some v) \<Rightarrow> v | _ \<Rightarrow> zeroJ ty) = Inr w" "v = VPtr (Some w)"
      using 8(2) by (auto simp: rbind_eq_Inr)
    moreover have "typedJ ty (case old of VPtr (Some v) \<Rightarrow> v | _ \<Rightarrow> zeroJ ty)"
      using 8(3) by (auto simp: typedJ_zeroJ split: jval.splits option.splits)
    ultimately show ?thesis
      using 8(1) False by simp
  qed (use 8(2) in auto)
next
  case (9 ty j old)
  show ?case
  proof (cases j)
    case (JArr src js)
    obtain ws where ws: "old = VSlice ws" "list_all (typedJ ty) ws"
      using 9(3) by (auto split: jval.splits)
    then obtain vs where vs: "mapRes (\<lambda>(x, v). decodeJ ty x v) (zip js (ws @ replicate (length js) (zeroJ ty))) = Inr vs" "v = VSlice vs"
      using 9(2) JArr by (auto simp: rbind_eq_Inr)
    have "list_all (typedJ ty) vs"
      using vs(1) ws(2)
      by (rule typedJ_slice) (use 9(1) JArr in blast)
    then show ?thesis
      using vs(2) by simp
  qed (use 9(2,3) in auto)
next
  case (10 ty j old)
  show ?case
  proof (cases j)
    case (JObj src kvs)
    obtain m where m: "old = VMap m" "distinctKeys m \<and> list_all (\<lambda>(k, w). typedJ ty w) m"
      using 10(3) by (auto split: jval.splits)
    then obtain m' where m': "foldRes (\<lambda>(k, x) m. rbind (decodeJ ty x (zeroJ ty)) (\<lambda>v. Inr (AList.update (unquoteChars k) v m))) kvs m = Inr m'"
        "v = VMap m'"
      using 10(2) JObj by (auto simp: rbind_eq_Inr)
    have "distinctKeys m' \<and> list_all (\<lambda>(k, w). typedJ ty w) m'"
      using m'(1) m(2)
    proof (rule foldRes_invariant)
      fix kx t t'
      assume t: "distinctKeys t \<and> list_all (\<lambda>(k, w). typedJ ty w) t"
        "(case kx of (k, x) \<Rightarrow> \<lambda>m. rbind (decodeJ ty x (zeroJ ty)) (\<lambda>v. Inr (AList.update (unquoteChars k) v m))) t = Inr t'"
      obtain k x w where "decodeJ ty x (zeroJ ty) = Inr w" "t' = AList.update (unquoteChars k) w t"
        using t(2) by (cases kx) (auto simp: rbind_eq_Inr)
      then show "distinctKeys t' \<and> list_all (\<lambda>(k, w). typedJ ty w) t'"
        using t(1) 10(1) JObj typedJ_zeroJ [of ty] set_AList_update [of "unquoteChars k" w t]
        by (auto simp: list_all_iff dest!: subsetD)
    qed
    then show ?thesis
      using m'(2) by simp
  qed (use 10(2,3) in auto)
next
  case (11 fs j old)
  show ?case
  proof (cases j)
    case (JObj src kvs)
    obtain vs where vs: "old = VStruct vs" "typedFields fs vs"
      using 11(3) by (auto split: jval.splits)
    define step where "step = (\<lambda>(k, x) vs. case matchField fs (unquoteChars k) of
        None \<Rightarrow> Inl (ErrMsg ''json: unknown field'') | Some name \<Rightarrow> decodeField fs name x vs)"
    obtain vs' where vs': "foldRes step kvs vs = Inr vs'" "v = VStruct vs'"
      using 11(2) JObj vs(1) by (auto simp: rbind_eq_Inr step_def)
    have "typedFields fs vs'"
      using vs'(1) vs(2)
      by (rule foldRes_invariant) (use 11(1) JObj in \<open>auto simp: step_def split: option.splits prod.splits\<close>)
    then show ?thesis
      using vs'(2) by simp
  qed (use 11(2,3) in auto)
next
  case (13 f fs name j vs)
  obtain n omit ty where f: "f = (n, omit, ty)"
    by (cases f)
  obtain w ws where "vs = w # ws" "typedJ ty w" "typedFields fs ws"
    using 13(4) f by (auto split: list.splits)
  then show ?case
    using 13(1) [OF refl] 13(2) [OF refl] 13(3) f
    by (auto simp: rbind_eq_Inr split: if_splits)
qed simp_all

end
