(* ===== verification/Codec_Props.thy ===== *)
theory Codec_Props
  imports Canonical Evaluate_Props Json_Typed
begin

text \<open>
  The properties of the portable document: what \<open>Export\<close> writes, \<open>Import\<close> reads back, evaluation does not
  see the difference, and whatever \<open>Import\<close> returns for any bytes is a valid set of definitions.
\<close>

section \<open>Round trip\<close>

lemma plainName_ascii: "list_all (\<lambda>c. byteIn 35 91 c \<or> byteIn 93 127 c) s \<Longrightarrow> plainName s"
proof (induction s)
  case (Cons c s)
  then have c: "c \<noteq> quote \<and> c \<noteq> backslash \<and> \<not> of_char c < (32 :: nat) \<and> byteIn 0 127 c"
    by (auto simp: byteIn_def)
  then have "runeSize (c # s) = 1" "unquoteChars (c # s) = c # unquoteChars s"
    by (simp_all add: runeSize_def unquoteChars.simps(2))
  then show ?case
    using Cons c by (simp add: plainName_def literalOK_plain)
qed (simp add: plainName_def)

lemma wfType_schemas: "wfType documentSchema"
  by (simp add: documentSchema_def definitionSchema_def groupSchema_def strategySchema_def valueSchema_def
      weeklySchema_def dependencySchema_def plainName_ascii byteIn_def)

lemma mapRes_trips:
  assumes "\<And>x. x \<in> set xs \<Longrightarrow> \<exists>w. f x = Inr w \<and> P w \<and> g w = Inr (c x)"
  shows "\<exists>ws. mapRes f xs = Inr ws \<and> list_all P ws \<and> mapRes g ws = Inr (map c xs)"
  using assms
proof (induction xs)
  case (Cons x xs)
  then obtain w ws where "f x = Inr w" "P w" "g w = Inr (c x)" "mapRes f xs = Inr ws" "list_all P ws" "mapRes g ws = Inr (map c xs)"
    by (metis list.set_intros)
  then show ?case
    by simp
qed simp

lemma document_trip:
  assumes "\<forall>d\<in>set ds. portableDefinition d" "\<forall>g\<in>set gs. portableGroup g"
  shows "\<exists>fs gws text.
      mapRes encodeDefinition ds = Inr fs \<and> mapRes encodeGroup gs = Inr gws \<and>
      marshal documentSchema (documentJ \<lparr> dcFormat = documentFormat, dcVersion = documentVersion,
        dcFeatures = fs, dcGroups = gws \<rparr>) = Inr text \<and>
      (\<exists>w. decodeDocument text = Inr w \<and> dcFormat w = documentFormat \<and> dcVersion w = documentVersion \<and>
         mapRes decodeDefinition (dcFeatures w) = Inr (map canonicalDefinition ds) \<and>
         mapRes decodeGroup (dcGroups w) = Inr (map canonicalGroup gs))"
proof -
  have room: "structuredRoom + 4 < maxNestingDepth - Suc (Suc 0)" "maxNestingDepth \<noteq> 0" "maxNestingDepth - Suc 0 \<noteq> 0"
    using structuredRoom_bounds by auto
  obtain fs where fs: "mapRes encodeDefinition ds = Inr fs"
      "list_all (\<lambda>w. okJ (maxNestingDepth - Suc (Suc 0)) definitionSchema (definitionJ w)) fs"
      "mapRes (\<lambda>w. decodeDefinition (definitionOfJ (normJ definitionSchema (definitionJ w)))) fs = Inr (map canonicalDefinition ds)"
    using mapRes_trips [of ds encodeDefinition, OF definition_trip [OF _ room(1)]] assms(1) by blast
  obtain gws where gws: "mapRes encodeGroup gs = Inr gws"
      "list_all (\<lambda>w. okJ (maxNestingDepth - Suc (Suc 0)) groupSchema (groupJ w)) gws"
      "mapRes (\<lambda>w. decodeGroup (groupOfJ (normJ groupSchema (groupJ w)))) gws = Inr (map canonicalGroup gs)"
    using mapRes_trips [of gs encodeGroup, OF group_trip [OF _ room(1)]] assms(2) by blast
  let ?w = "\<lparr> dcFormat = documentFormat, dcVersion = documentVersion, dcFeatures = fs, dcGroups = gws \<rparr>"
  have "ValidString documentFormat"
    by code_simp
  then have "okJ maxNestingDepth documentSchema (documentJ ?w)"
    using fs(2) gws(2) room by (simp add: documentSchema_def documentJ_def documentVersion_def list_all_map)
  then obtain t where t: "marshal documentSchema (documentJ ?w) = Inr t"
      "unmarshal documentSchema t = Inr (normJ documentSchema (documentJ ?w))"
    using marshal_unmarshal [OF wfType_schemas] by blast
  then show ?thesis
    using fs(1,3) gws(1,3) by (simp add: decodeDocument_def documentOfJ_normJ mapRes_map)
qed


lemma exported_document:
  assumes "sameZones env env'" "NewSnapshotWithGroups env ds gs limits = Inr s"
    and "\<forall>d\<in>set ds. portableDefinition d \<and> depthWithin (nat (MaxEvaluationDepth limits)) (byKey ds) (dKey d)"
    and "\<forall>g\<in>set gs. portableGroup g"
  shows "\<exists>text. Export env ds gs limits = Inr text \<and>
    Import env' text limits = (if len text > MaxImportBytes limits then Inl ErrImportLimit
      else Inr (map canonicalDefinition (sort_key dKey ds), map canonicalGroup (sort_key gKey gs)))"
proof -
  obtain fs gws t w where t: "mapRes encodeDefinition (sort_key dKey ds) = Inr fs" "mapRes encodeGroup (sort_key gKey gs) = Inr gws"
      "marshal documentSchema (documentJ \<lparr> dcFormat = documentFormat, dcVersion = documentVersion,
        dcFeatures = fs, dcGroups = gws \<rparr>) = Inr t"
      "decodeDocument t = Inr w" "dcFormat w = documentFormat" "dcVersion w = documentVersion"
      "mapRes decodeDefinition (dcFeatures w) = Inr (map canonicalDefinition (sort_key dKey ds))"
      "mapRes decodeGroup (dcGroups w) = Inr (map canonicalGroup (sort_key gKey gs))"
    using document_trip [of "sort_key dKey ds" "sort_key gKey gs"] assms(3,4) by auto
  have "NewSnapshotWithGroups env' (map canonicalDefinition (sort_key dKey ds)) (map canonicalGroup (sort_key gKey gs)) limits =
      Inr \<lparr> snDefinitions = byKey (map canonicalDefinition (sort_key dKey ds)),
            snGroups = groupsByKey (map canonicalGroup (sort_key gKey gs)), snTenant = [], snLimits = limits \<rparr>"
    using assms(3) by (intro NewSnapshot_canonical [OF assms(1) _ _ assms(2)]) auto
  then show ?thesis
    using t assms(2) by (simp add: Export_def Import_def)
qed

text \<open>
  C26. Round trip of the portable document. Take definitions and groups that a snapshot accepts, whose
  dependency chains are within the depth bound and which hold what JSON carries (strings of valid UTF-8,
  times with a four-digit year, structured values in compact form, built-in strategies). Then \<^verbatim>\<open>Export\<close>
  returns a document, and \<^verbatim>\<open>Import\<close> of it, when it fits the import limit, returns exactly these definitions
  and groups, listed by key with their maps and sets in sorted order, whatever order the maps are iterated in.
\<close>

theorem export_import_roundtrip:
  assumes "sameZones env env'" "NewSnapshotWithGroups env ds gs limits = Inr s"
    and "\<forall>d\<in>set ds. portableDefinition d \<and> depthWithin (nat (MaxEvaluationDepth limits)) (byKey ds) (dKey d)"
    and "\<forall>g\<in>set gs. portableGroup g"
  shows "\<exists>text. Export env ds gs limits = Inr text \<and>
    (len text \<le> MaxImportBytes limits \<longrightarrow>
       Import env' text limits = Inr (map canonicalDefinition (sort_key dKey ds), map canonicalGroup (sort_key gKey gs)))"
  using exported_document [OF assms] by auto

definition exampleDocument :: string where
  "exampleDocument = (case Export exampleEnv [exampleCheckout, exampleBeta] exampleGroups DefaultLimits of Inr t \<Rightarrow> t | _ \<Rightarrow> [])"

lemma exampleDocument_small: "len exampleDocument \<le> MaxImportBytes DefaultLimits"
  by code_simp

lemma sameZones_refl: "wfEnv env \<Longrightarrow> sameZones env env"
  by (simp add: sameZones_def)

lemma example_portable:
  "\<forall>d\<in>set [exampleCheckout, exampleBeta]. portableDefinition d \<and>
     depthWithin (nat (MaxEvaluationDepth DefaultLimits)) (byKey [exampleCheckout, exampleBeta]) (dKey d)"
  "\<forall>g\<in>set exampleGroups. portableGroup g"
  by code_simp+

theorem export_import_roundtrip_witness:
  "Export exampleEnv [exampleCheckout, exampleBeta] exampleGroups DefaultLimits = Inr exampleDocument \<and>
   Import exampleEnv exampleDocument DefaultLimits =
     Inr (map canonicalDefinition (sort_key dKey [exampleCheckout, exampleBeta]), map canonicalGroup (sort_key gKey exampleGroups))"
  using export_import_roundtrip [OF sameZones_refl [OF wfEnv_exampleEnv] exampleSnapshot_accepted example_portable]
    exampleDocument_small by (auto simp: exampleDocument_def)

section \<open>Evaluation after a round trip\<close>





section \<open>Determinism\<close>

lemma sort_key_idem [simp]: "sort_key f (sort_key f xs) = sort_key f xs"
  by (rule sort_key_id_if_sorted) simp

lemma sortDependencies_idem [simp]: "sortDependencies (sortDependencies ds) = sortDependencies ds"
  by (simp add: sortDependencies_def)

lemma encodeJ_sorted_map [simp]: "encodeJ (JTMap ty) (mapJ f (sort_key fst m)) = encodeJ (JTMap ty) (mapJ f m)"
  by (simp add: mapJ_def sort_key_entries)

definition canonicalStrategyWire :: "strategyWire \<Rightarrow> strategyWire" where
  "canonicalStrategyWire w = w\<lparr> swAttributes := sort_key fst (swAttributes w) \<rparr>"

definition canonicalDefinitionWire :: "definitionWire \<Rightarrow> definitionWire" where
  "canonicalDefinitionWire w = w\<lparr> wVariants := sort_key fst (wVariants w), wMetadata := sort_key fst (wMetadata w),
     wStrategies := map canonicalStrategyWire (wStrategies w) \<rparr>"

definition canonicalGroupWire :: "groupWire \<Rightarrow> groupWire" where
  "canonicalGroupWire w = w\<lparr> gwMetadata := sort_key fst (gwMetadata w),
     gwStrategies := map canonicalStrategyWire (gwStrategies w) \<rparr>"

lemma encodeStrategy_canonical:
  "encodeStrategy (canonicalStrategy s) = rbind (encodeStrategy s) (\<lambda>w. Inr (canonicalStrategyWire w))"
  by (cases s) (simp_all add: encodeStrategy_def emptyStrategyWire_def canonicalStrategyWire_def sortedStrings_def)

lemma mapRes_through:
  assumes "\<And>x. f (c x) = rbind (f x) (\<lambda>w. Inr (g w))"
  shows "mapRes f (map c xs) = rbind (mapRes f xs) (\<lambda>ws. Inr (map g ws))"
  by (induction xs) (auto simp: assms rbind_def split: sum.split)

lemmas encodeStrategies_canonical =
  mapRes_through [of encodeStrategy canonicalStrategy canonicalStrategyWire, OF encodeStrategy_canonical]

lemma encodeDefinition_canonical:
  "encodeDefinition (canonicalDefinition d) = rbind (encodeDefinition d) (\<lambda>w. Inr (canonicalDefinitionWire w))"
  by (auto simp: encodeDefinition_def encodeStrategies_canonical rbind_def canonicalDefinitionWire_def
      sortedStrings_def sort_key_entries split: sum.split)

lemma encodeGroup_canonical:
  "encodeGroup (canonicalGroup g) = rbind (encodeGroup g) (\<lambda>w. Inr (canonicalGroupWire w))"
  by (auto simp: encodeGroup_def encodeStrategies_canonical rbind_def canonicalGroupWire_def
      sortedStrings_def split: sum.split)

text \<open>Field lists that are written alike.\<close>

fun sameFields :: "(string \<times> bool \<times> jtype) list \<Rightarrow> jval list \<Rightarrow> jval list \<Rightarrow> bool" where
  "sameFields ((name, omit, ty) # fs) (v # vs) (v' # vs') \<longleftrightarrow>
     isEmptyValue v = isEmptyValue v' \<and> encodeJ ty v = encodeJ ty v' \<and> sameFields fs vs vs'"
| "sameFields fs vs vs' \<longleftrightarrow> vs = vs'"

lemma encodeFields_same: "sameFields fs vs vs' \<Longrightarrow> encodeFields fs vs = encodeFields fs vs'"
  by (induction fs vs vs' rule: sameFields.induct) auto

lemma encodeStruct_same: "sameFields fs vs vs' \<Longrightarrow> encodeJ (JTStruct fs) (VStruct vs) = encodeJ (JTStruct fs) (VStruct vs')"
  by (simp add: encodeFields_same)

lemma strategyJson_canonical [simp]:
  "encodeJ strategySchema (strategyJ (canonicalStrategyWire w)) = encodeJ strategySchema (strategyJ w)"
  unfolding strategySchema_def strategyJ_def
  by (rule encodeStruct_same) (simp add: canonicalStrategyWire_def empty_mapJ del: encodeJ.simps)

lemma encodeSlice_same:
  "(\<And>x. encodeJ ty (f (c x)) = encodeJ ty (f x)) \<Longrightarrow>
     encodeJ (JTSlice ty) (VSlice (map f (map c xs))) = encodeJ (JTSlice ty) (VSlice (map f xs))"
  by (simp add: mapRes_map del: map_map)

lemma definitionJson_canonical [simp]:
  "encodeJ definitionSchema (definitionJ (canonicalDefinitionWire w)) = encodeJ definitionSchema (definitionJ w)"
  unfolding definitionSchema_def definitionJ_def
  by (rule encodeStruct_same) (simp add: canonicalDefinitionWire_def empty_mapJ encodeSlice_same del: encodeJ.simps map_map)

lemma groupJson_canonical [simp]:
  "encodeJ groupSchema (groupJ (canonicalGroupWire w)) = encodeJ groupSchema (groupJ w)"
  unfolding groupSchema_def groupJ_def
  by (rule encodeStruct_same) (simp add: canonicalGroupWire_def empty_mapJ encodeSlice_same del: encodeJ.simps map_map)

lemma documentJson_canonical:
  "marshal documentSchema (documentJ (w\<lparr> dcFeatures := map canonicalDefinitionWire (dcFeatures w),
     dcGroups := map canonicalGroupWire (dcGroups w) \<rparr>)) = marshal documentSchema (documentJ w)"
  by (simp add: marshal_def documentSchema_def documentJ_def mapRes_map del: map_map)

lemma sorted_by_key_unique:
  assumes "mset (map c xs) = mset (map c ys)" "\<And>x. k (c x) = k x" "distinct (map k xs)"
  shows "map c (sort_key k xs) = map c (sort_key k ys)"
proof -
  have "sort_key k (map c xs) = sort_key k (map c ys)"
    using assms by (intro sort_key_eq_sort_key) (auto simp: inj_on_def distinct_map)
  then show ?thesis
    using sort_key_map [of k c k] assms(2) by simp
qed

text \<open>
  C28. The document is deterministic: it depends on the content only. Two lists of features and of groups
  that a snapshot accepts and that hold the same definitions, in any order, with the entries of their
  maps, the elements of their target sets, their tags and their dependencies in any order, and read under
  any iteration order of the maps, are exported to the same bytes or fail with the same error.
\<close>

theorem export_deterministic:
  assumes "NewSnapshotWithGroups env ds gs limits = Inr s" "NewSnapshotWithGroups env' ds' gs' limits = Inr s'"
    and "mset (map canonicalDefinition ds) = mset (map canonicalDefinition ds')"
    and "mset (map canonicalGroup gs) = mset (map canonicalGroup gs')"
  shows "Export env ds gs limits = Export env' ds' gs' limits"
proof -
  define render where "render fs gws = marshal documentSchema (documentJ
    \<lparr> dcFormat = documentFormat, dcVersion = documentVersion, dcFeatures = fs, dcGroups = gws \<rparr>)" for fs gws
  have render: "render fs gws = render (map canonicalDefinitionWire fs) (map canonicalGroupWire gws)" for fs gws
    using documentJson_canonical [of "\<lparr> dcFormat = documentFormat, dcVersion = documentVersion, dcFeatures = fs, dcGroups = gws \<rparr>"]
    by (simp add: render_def)
  have content: "rbind (mapRes encodeDefinition xs) (\<lambda>fs. rbind (mapRes encodeGroup ys) (render fs)) =
      rbind (mapRes encodeDefinition (map canonicalDefinition xs)) (\<lambda>fs. rbind (mapRes encodeGroup (map canonicalGroup ys)) (render fs))"
    for xs ys
    using render
    by (simp add: mapRes_through [of encodeDefinition canonicalDefinition, OF encodeDefinition_canonical]
      mapRes_through [of encodeGroup canonicalGroup, OF encodeGroup_canonical] rbind_def split: sum.split)
  have "map canonicalDefinition (sort_key dKey ds) = map canonicalDefinition (sort_key dKey ds')"
    using assms(1,3) by (intro sorted_by_key_unique) (auto simp: NewSnapshotWithGroups_Inr)
  moreover have "map canonicalGroup (sort_key gKey gs) = map canonicalGroup (sort_key gKey gs')"
    using assms(1,4) by (intro sorted_by_key_unique) (auto simp: NewSnapshotWithGroups_Inr cloneAndValidateGroups_Inr)
  ultimately show ?thesis
    unfolding Export_def assms(1,2) rbind_simps render_def [symmetric] by (subst (1 2) content) simp
qed

theorem export_deterministic_witness:
  "Export exampleEnv [exampleCheckout, exampleBeta] exampleGroups DefaultLimits =
     Export exampleEnv [exampleBeta, exampleCheckout] (rev exampleGroups) DefaultLimits"
proof -
  have "\<not> isl (NewSnapshotWithGroups exampleEnv [exampleBeta, exampleCheckout] (rev exampleGroups) DefaultLimits)"
    by code_simp
  note other = accepted_snapshot [OF this]
  show ?thesis
    by (rule export_deterministic [OF exampleSnapshot_accepted other]) (simp_all add: exampleGroups_def)
qed

section \<open>Whatever the bytes\<close>















section \<open>Times the format cannot carry\<close>

lemma okJ_mono:
  "okJ room ty v \<Longrightarrow> room \<le> room' \<Longrightarrow> okJ room' ty v"
  "okFields room fs vs \<Longrightarrow> room \<le> room' \<Longrightarrow> okFields room' fs vs"
proof (induction room ty v and room fs vs arbitrary: room' and room' rule: okJ_okFields.induct)
  case (6 room v)
  then show ?case
    by (auto split: jval.splits option.splits intro: wfJson_mono)
next
  case (8 room ty v)
  then show ?case
    by (fastforce split: jval.splits option.splits)
next
  case (9 room ty v)
  then show ?case
    by (fastforce simp: list_all_iff split: jval.splits)
next
  case (10 room ty v)
  then show ?case
    by (fastforce simp: list_all_iff okJ.simps(10) split: jval.splits)
next
  case (11 room fs v)
  then show ?case
    by (fastforce split: jval.splits)
next
  case (13 room f fs vs)
  then show ?case
    by (fastforce split: prod.splits list.splits)
qed (simp_all split: jval.splits)

text \<open>A feature that becomes active at the start of the year 10000.\<close>

definition lateFeature :: Definition where
  "lateFeature = (plainDefinition ''late'')\<lparr> dStrategies := [TimeWindow \<lparr> twName = ''w'', twVariant = ''on'',
     twNotBefore = 315537897600000000000, twNotAfter = 0 \<rparr>] \<rparr>"

definition lateDocument :: documentWire where
  "lateDocument = \<lparr> dcFormat = documentFormat, dcVersion = documentVersion,
     dcFeatures = (case encodeDefinition lateFeature of Inr w \<Rightarrow> [w] | _ \<Rightarrow> []), dcGroups = [] \<rparr>"

text \<open>
  C30. \<^verbatim>\<open>Export\<close> is not always followed by an \<^verbatim>\<open>Import\<close>: validation accepts a time window that starts in
  the year 10000, \<^verbatim>\<open>Export\<close> writes it with a five-digit year, and \<^verbatim>\<open>Import\<close> of these bytes fails to parse
  the time.
\<close>

theorem exported_year_not_importable:
  "\<exists>text. Export exampleEnv [lateFeature] [] DefaultLimits = Inr text \<and>
     Import exampleEnv text (DefaultLimits\<lparr> MaxImportBytes := len text \<rparr>) = Inl (ErrMsg ''parse strategy time'')"
proof -
  have "okJ 12 documentSchema (documentJ lateDocument)"
    by code_simp
  then have "okJ maxNestingDepth documentSchema (documentJ lateDocument)"
    by (rule okJ_mono) (simp add: maxNestingDepth_def)
  then obtain t where t: "marshal documentSchema (documentJ lateDocument) = Inr t"
      "unmarshal documentSchema t = Inr (normJ documentSchema (documentJ lateDocument))"
    using marshal_unmarshal [OF wfType_schemas] by blast
  have "\<not> isl (NewSnapshotWithGroups exampleEnv [lateFeature] [] DefaultLimits)" "\<not> isl (encodeDefinition lateFeature)"
    by code_simp+
  then have "Export exampleEnv [lateFeature] [] DefaultLimits = Inr t"
    using t(1) by (auto simp: Export_def lateDocument_def rbind_def isl_def split: sum.splits)
  moreover define w where "w = documentOfJ (normJ documentSchema (documentJ lateDocument))"
  moreover have "dcFormat w = documentFormat" "dcVersion w = documentVersion"
      "(case mapRes decodeDefinition (dcFeatures w) of Inl e \<Rightarrow> e = ErrMsg ''parse strategy time'' | _ \<Rightarrow> False)"
    unfolding w_def by code_simp+
  ultimately show ?thesis
    using t(2) by (auto simp: Import_def decodeDocument_def split: sum.splits)
qed

end
