(* ===== verification/Tenant_Laws.thy ===== *)
theory Tenant_Laws
  imports Codec_Props Durable
begin

text \<open>
  The state document of a tenant: what \<^verbatim>\<open>marshalTenantState\<close> writes, \<^verbatim>\<open>unmarshalTenantState\<close> reads back, when
  the state holds what the format can carry and what the reader checks.
\<close>

section \<open>Wire structs\<close>

lemma actionOfName_actionName:
  "actionOfName (actionName a) = a \<longleftrightarrow> (\<forall>s. a = OtherAuditAction s \<longrightarrow> s \<notin> snd ` set actionNames)"
  by (cases a) (auto simp: actionOfName_def actionName_def actionNames_def split: option.splits if_splits)

definition portableAudit :: "AuditEntry \<Rightarrow> bool" where
  "portableAudit a \<longleftrightarrow> ValidString (aeFeatureKey a) \<and> ValidString (actionName (aeAction a)) \<and>
     actionOfName (actionName (aeAction a)) = aeAction a \<and> ValidString (aeActor a)"

definition portableStaged :: "StagedChange \<Rightarrow> bool" where
  "portableStaged c \<longleftrightarrow> portableDefinition (stDefinition c) \<and> portableTime (stApplyAt c) \<and> ValidString (stActor c)"

definition canonicalRecord :: "memoryRecord \<Rightarrow> memoryRecord" where
  "canonicalRecord r = r\<lparr> mrDefinition := canonicalDefinition (mrDefinition r) \<rparr>"

definition canonicalStaged :: "StagedChange \<Rightarrow> StagedChange" where
  "canonicalStaged c = c\<lparr> stDefinition := canonicalDefinition (stDefinition c) \<rparr>"

definition definitionBack :: "definitionWire \<Rightarrow> definitionWire" where
  "definitionBack w = definitionOfJ (normJ definitionSchema (definitionJ w))"

lemma auditOfJ_normJ:
  "actionOfName (actionName (aeAction a)) = aeAction a \<Longrightarrow> auditOfJ (normJ auditSchema (auditJ a)) = a"
  by (cases a) (simp add: auditOfJ_def auditSchema_def auditJ_def norm_simps)

lemma tenantRecordOfJ_normJ:
  "tenantRecordOfJ (normJ tenantRecordSchema (tenantRecordJ w)) = w\<lparr> trDefinition := definitionBack (trDefinition w) \<rparr>"
  by (cases w) (simp add: tenantRecordOfJ_def tenantRecordSchema_def tenantRecordJ_def norm_simps definitionBack_def)

lemma stagedOfJ_normJ:
  "stagedOfJ (normJ stagedSchema (stagedJ w)) = w\<lparr> scwDefinition := definitionBack (scwDefinition w) \<rparr>"
  by (cases w) (simp add: stagedOfJ_def stagedSchema_def stagedJ_def norm_simps definitionBack_def)

lemma tenantStateOfJ_normJ:
  assumes "list_all (\<lambda>a. actionOfName (actionName (aeAction a)) = aeAction a) (tsAudit w)"
  shows "tenantStateOfJ (normJ tenantStateSchema (tenantStateJ w)) =
    w\<lparr> tsRecords := map (\<lambda>r. r\<lparr> trDefinition := definitionBack (trDefinition r) \<rparr>) (tsRecords w),
       tsGroups := map (\<lambda>g. groupOfJ (normJ groupSchema (groupJ g))) (tsGroups w),
       tsStaged := map (\<lambda>c. c\<lparr> scwDefinition := definitionBack (scwDefinition c) \<rparr>) (tsStaged w) \<rparr>"
proof -
  have "map (\<lambda>a. auditOfJ (normJ auditSchema (auditJ a))) (tsAudit w) = tsAudit w"
    using assms by (induction "tsAudit w") (auto simp: list_all_iff auditOfJ_normJ intro: map_idI)
  then show ?thesis
    by (cases w) (simp add: tenantStateOfJ_def tenantStateSchema_def tenantStateJ_def norm_simps tenantRecordOfJ_normJ stagedOfJ_normJ)
qed

lemma wfType_tenantState: "wfType tenantStateSchema"
  by (simp add: tenantStateSchema_def tenantRecordSchema_def stagedSchema_def auditSchema_def definitionSchema_def groupSchema_def
      strategySchema_def valueSchema_def weeklySchema_def dependencySchema_def plainName_ascii byteIn_def)

section \<open>Sorted values and lists of records\<close>

lemma map_fst_sort_key: "map fst (sort_key fst m) = sort (map fst m)"
  by (rule properties_for_sort [symmetric]) simp_all

lemma sortedValues_eq:
  assumes "distinctKeys m"
  shows "sortedValues m = map snd (sort_key fst m)"
proof -
  have "the (map_of m k) = v" if "(k, v) \<in> set (sort_key fst m)" for k v
    using that assms by simp
  then have "map (\<lambda>k. the (map_of m k)) (map fst (sort_key fst m)) = map snd (sort_key fst m)" by auto
  then show ?thesis by (simp add: sortedValues_def map_fst_sort_key)
qed

lemma update_new_append: "k \<notin> fst ` set m \<Longrightarrow> AList.update k v m = m @ [(k, v)]"
  by (induction m) auto

lemma decodeRecords_append:
  assumes "list_all2 (\<lambda>w r. decodeDefinition (trDefinition w) = Inr (mrDefinition r) \<and> trDeleted w = mrDeleted r \<and>
      ValidateDefinition env limits (mrDefinition r) = None) ws rs"
    and "distinct (map (\<lambda>r. dKey (mrDefinition r)) rs)" "\<forall>r\<in>set rs. dKey (mrDefinition r) \<notin> fst ` set acc"
  shows "decodeRecords env limits ws acc = Inr (acc @ map (\<lambda>r. (dKey (mrDefinition r), r)) rs)"
  using assms
proof (induction ws rs arbitrary: acc rule: list_all2_induct)
  case Nil
  then show ?case by simp
next
  case (Cons w ws r rs)
  have new: "AList.update (dKey (mrDefinition r)) \<lparr> mrDefinition = mrDefinition r, mrDeleted = mrDeleted r \<rparr> acc =
      acc @ [(dKey (mrDefinition r), r)]"
    using Cons.prems(2) by (simp add: update_new_append)
  have "dKey (mrDefinition r) \<notin> (\<lambda>r. dKey (mrDefinition r)) ` set rs" using Cons.prems(1) by simp
  then have "dKey (mrDefinition x) \<noteq> dKey (mrDefinition r)" if "x \<in> set rs" for x using that by (metis imageI)
  then have "decodeRecords env limits ws (acc @ [(dKey (mrDefinition r), r)]) =
      Inr ((acc @ [(dKey (mrDefinition r), r)]) @ map (\<lambda>r. (dKey (mrDefinition r), r)) rs)"
    using Cons.prems by (intro Cons.IH) auto
  then show ?case
    using Cons.hyps Cons.prems(2) new by (simp add: hasKey_iff)
qed

lemma decodeStages_append:
  assumes "list_all2 (\<lambda>w c. decodeDefinition (scwDefinition w) = Inr (stDefinition c) \<and> scwID w = stID c \<and>
      scwExpectedVersion w = stExpectedVersion c \<and> scwApplyAt w = stApplyAt c \<and> scwActor w = stActor c \<and>
      ValidateDefinition env limits (stDefinition c) = None \<and> stID c \<noteq> 0 \<and> stID c \<le> nextStage) ws cs"
    and "distinct (map stID cs)" "\<forall>c\<in>set cs. stID c \<notin> fst ` set acc"
  shows "decodeStages env limits nextStage ws acc = Inr (acc @ map (\<lambda>c. (stID c, c)) cs)"
  using assms
proof (induction ws cs arbitrary: acc rule: list_all2_induct)
  case Nil
  then show ?case by simp
next
  case (Cons w ws c cs)
  have new: "AList.update (stID c) \<lparr> stID = stID c, stDefinition = stDefinition c, stExpectedVersion = stExpectedVersion c,
      stApplyAt = stApplyAt c, stActor = stActor c \<rparr> acc = acc @ [(stID c, c)]"
    using Cons.prems(2) by (simp add: update_new_append)
  have "stID c \<notin> stID ` set cs" using Cons.prems(1) by simp
  then have "stID x \<noteq> stID c" if "x \<in> set cs" for x using that by (metis imageI)
  then have "decodeStages env limits nextStage ws (acc @ [(stID c, c)]) = Inr ((acc @ [(stID c, c)]) @ map (\<lambda>c. (stID c, c)) cs)"
    using Cons.prems by (intro Cons.IH) auto
  then show ?case
    using Cons.hyps Cons.prems(2) new by (simp add: hasKey_iff not_less)
qed

section \<open>Round trip\<close>

lemma mapRes_pairs:
  assumes "\<And>x. x \<in> set xs \<Longrightarrow> \<exists>w. f x = Inr w \<and> P w x"
  shows "\<exists>ws. mapRes f xs = Inr ws \<and> list_all2 P ws xs"
  using assms
proof (induction xs)
  case (Cons x xs)
  then obtain w ws where "f x = Inr w" "P w x" "mapRes f xs = Inr ws" "list_all2 P ws xs"
    by (metis list.set_intros)
  then show ?case by simp
qed simp

lemma record_trip:
  assumes "portableDefinition (mrDefinition r)" "structuredRoom + 5 < room"
  shows "\<exists>w. encodeRecord r = Inr w \<and> okJ room tenantRecordSchema (tenantRecordJ w) \<and>
    decodeDefinition (definitionBack (trDefinition w)) = Inr (canonicalDefinition (mrDefinition r)) \<and> trDeleted w = mrDeleted r"
proof -
  have "structuredRoom + 4 < room - 1" using assms(2) by simp
  from definition_trip [OF assms(1) this] obtain w where w: "encodeDefinition (mrDefinition r) = Inr w"
      "okJ (room - 1) definitionSchema (definitionJ w)"
      "decodeDefinition (definitionBack w) = Inr (canonicalDefinition (mrDefinition r))"
    by (auto simp: definitionBack_def)
  then show ?thesis using assms(2)
    by (simp add: encodeRecord_def tenantRecordSchema_def tenantRecordJ_def)
qed

lemma staged_trip:
  assumes "portableStaged c" "structuredRoom + 5 < room"
  shows "\<exists>w. encodeStaged c = Inr w \<and> okJ room stagedSchema (stagedJ w) \<and>
    decodeDefinition (definitionBack (scwDefinition w)) = Inr (canonicalDefinition (stDefinition c)) \<and>
    scwID w = stID c \<and> scwExpectedVersion w = stExpectedVersion c \<and> scwApplyAt w = stApplyAt c \<and> scwActor w = stActor c"
proof -
  have "portableDefinition (stDefinition c)" "structuredRoom + 4 < room - 1" using assms by (auto simp: portableStaged_def)
  from definition_trip [OF this] obtain w where w: "encodeDefinition (stDefinition c) = Inr w"
      "okJ (room - 1) definitionSchema (definitionJ w)"
      "decodeDefinition (definitionBack w) = Inr (canonicalDefinition (stDefinition c))"
    by (auto simp: definitionBack_def)
  have "uint (stID c) < 2 ^ 64" "uint (stExpectedVersion c) < 2 ^ 64"
    using uint_lt2p [of "stID c"] uint_lt2p [of "stExpectedVersion c"] by simp_all
  then show ?thesis using w assms
    by (simp add: encodeStaged_def stagedSchema_def stagedJ_def portableStaged_def portableTime_def)
qed

lemma okJ_audit: "portableAudit a \<Longrightarrow> room \<noteq> 0 \<Longrightarrow> okJ room auditSchema (auditJ a)"
  using uint_lt2p [of "aeVersion a"] by (simp add: portableAudit_def auditSchema_def auditJ_def)

lemma tenant_document:
  assumes "\<forall>r\<in>set rs. portableDefinition (mrDefinition r)" "\<forall>g\<in>set gs. portableGroup g"
    and "\<forall>a\<in>set audit. portableAudit a" "\<forall>c\<in>set cs. portableStaged c"
  shows "\<exists>records groups staged text.
      mapRes encodeRecord rs = Inr records \<and> mapRes encodeGroup gs = Inr groups \<and> mapRes encodeStaged cs = Inr staged \<and>
      marshal tenantStateSchema (tenantStateJ \<lparr> tsVersion = tenantStateVersion, tsRecords = records, tsGroups = groups,
        tsAudit = audit, tsStaged = staged, tsNextStage = next \<rparr>) = Inr text \<and>
      (\<exists>v w. unmarshal tenantStateSchema text = Inr v \<and> tenantStateOfJ v = w \<and>
        tsVersion w = tenantStateVersion \<and> tsAudit w = audit \<and> tsNextStage w = next \<and>
        list_all2 (\<lambda>w r. decodeDefinition (trDefinition w) = Inr (canonicalDefinition (mrDefinition r)) \<and> trDeleted w = mrDeleted r)
          (tsRecords w) rs \<and>
        mapRes decodeGroup (tsGroups w) = Inr (map canonicalGroup gs) \<and>
        list_all2 (\<lambda>w c. decodeDefinition (scwDefinition w) = Inr (canonicalDefinition (stDefinition c)) \<and> scwID w = stID c \<and>
          scwExpectedVersion w = stExpectedVersion c \<and> scwApplyAt w = stApplyAt c \<and> scwActor w = stActor c) (tsStaged w) cs)"
proof -
  let ?room = "maxNestingDepth - Suc (Suc 0)"
  have room: "structuredRoom + 5 < ?room" "structuredRoom + 4 < ?room" "maxNestingDepth \<noteq> 0" "maxNestingDepth - Suc 0 \<noteq> 0" "?room \<noteq> 0"
    using structuredRoom_bounds by auto
  obtain records where records: "mapRes encodeRecord rs = Inr records"
      "list_all2 (\<lambda>w r. okJ ?room tenantRecordSchema (tenantRecordJ w) \<and>
         decodeDefinition (definitionBack (trDefinition w)) = Inr (canonicalDefinition (mrDefinition r)) \<and> trDeleted w = mrDeleted r) records rs"
    using mapRes_pairs [of rs encodeRecord, OF record_trip [OF _ room(1)]] assms(1) by blast
  obtain groups where groups: "mapRes encodeGroup gs = Inr groups"
      "list_all (\<lambda>w. okJ ?room groupSchema (groupJ w)) groups"
      "mapRes (\<lambda>w. decodeGroup (groupOfJ (normJ groupSchema (groupJ w)))) groups = Inr (map canonicalGroup gs)"
    using mapRes_trips [of gs encodeGroup, OF group_trip [OF _ room(2)]] assms(2) by blast
  obtain staged where staged: "mapRes encodeStaged cs = Inr staged"
      "list_all2 (\<lambda>w c. okJ ?room stagedSchema (stagedJ w) \<and>
         decodeDefinition (definitionBack (scwDefinition w)) = Inr (canonicalDefinition (stDefinition c)) \<and>
         scwID w = stID c \<and> scwExpectedVersion w = stExpectedVersion c \<and> scwApplyAt w = stApplyAt c \<and> scwActor w = stActor c) staged cs"
    using mapRes_pairs [of cs encodeStaged, OF staged_trip [OF _ room(1)]] assms(4) by blast
  let ?w = "\<lparr> tsVersion = tenantStateVersion, tsRecords = records, tsGroups = groups, tsAudit = audit, tsStaged = staged, tsNextStage = next \<rparr>"
  have "list_all (\<lambda>w. okJ ?room tenantRecordSchema (tenantRecordJ w)) records" "list_all (\<lambda>w. okJ ?room stagedSchema (stagedJ w)) staged"
    using records(2) staged(2) by (auto simp: list_all_iff list_all2_conv_all_nth in_set_conv_nth)
  moreover have "list_all (\<lambda>a. okJ ?room auditSchema (auditJ a)) audit"
    using assms(3) room(5) by (simp add: list_all_iff okJ_audit)
  moreover have "uint next < 2 ^ 64" using uint_lt2p [of "next"] by simp
  ultimately have "okJ maxNestingDepth tenantStateSchema (tenantStateJ ?w)"
    using groups(2) room(3,4) by (simp add: tenantStateSchema_def tenantStateJ_def tenantStateVersion_def list_all_map)
  then obtain t where t: "marshal tenantStateSchema (tenantStateJ ?w) = Inr t"
      "unmarshal tenantStateSchema t = Inr (normJ tenantStateSchema (tenantStateJ ?w))"
    using marshal_unmarshal [OF wfType_tenantState] by blast
  have "list_all (\<lambda>a. actionOfName (actionName (aeAction a)) = aeAction a) audit"
    using assms(3) by (simp add: list_all_iff portableAudit_def)
  then have "tenantStateOfJ (normJ tenantStateSchema (tenantStateJ ?w)) =
      ?w\<lparr> tsRecords := map (\<lambda>r. r\<lparr> trDefinition := definitionBack (trDefinition r) \<rparr>) records,
          tsGroups := map (\<lambda>g. groupOfJ (normJ groupSchema (groupJ g))) groups,
          tsStaged := map (\<lambda>c. c\<lparr> scwDefinition := definitionBack (scwDefinition c) \<rparr>) staged \<rparr>"
    using tenantStateOfJ_normJ [of ?w] by simp
  then show ?thesis
    using records groups staged t
    by (auto simp: mapRes_map list_all2_map1 elim: list_all2_mono)
qed

text \<open>A tenant whose content the format can carry, and one that the reader's checks accept.\<close>

definition portableTenant :: "MemoryProvider \<Rightarrow> string \<Rightarrow> bool" where
  "portableTenant p t \<longleftrightarrow>
     (\<forall>(k, r)\<in>set (featuresOf p t). portableDefinition (mrDefinition r)) \<and>
     (\<forall>(k, g)\<in>set (groupsOf p t). portableGroup g) \<and>
     (\<forall>a\<in>set (auditOf p t). portableAudit a) \<and>
     (\<forall>(i, c)\<in>set (stagedOf p t). portableStaged c)"

definition readableTenant :: "env \<Rightarrow> MemoryProvider \<Rightarrow> string \<Rightarrow> bool" where
  "readableTenant env p t \<longleftrightarrow>
     distinctKeys (featuresOf p t) \<and>
     (\<forall>(k, r)\<in>set (featuresOf p t). dKey (mrDefinition r) = k \<and> ValidateDefinition env (mpLimits p) (mrDefinition r) = None) \<and>
     (\<forall>(k, g)\<in>set (groupsOf p t). gKey g = k) \<and>
     \<not> isl (cloneAndValidateGroups env (activeDefinitionsLocked p t) (map snd (groupsOf p t)) (mpLimits p)) \<and>
     len (auditOf p t) \<le> MaxAuditEntries (mpLimits p) \<and> len (stagedOf p t) \<le> MaxStagedChanges (mpLimits p) \<and>
     distinctKeys (stagedOf p t) \<and>
     (\<forall>(i, c)\<in>set (stagedOf p t). stID c = i \<and> ValidateDefinition env (mpLimits p) (stDefinition c) = None \<and>
        i \<noteq> 0 \<and> i \<le> nextStageOf p t)"

definition canonicalTenant :: "MemoryProvider \<Rightarrow> string \<Rightarrow> MemoryProvider" where
  "canonicalTenant p t = tenantProvider (mpLimits p) t
     (map (\<lambda>(k, r). (k, canonicalRecord r)) (sort_key fst (featuresOf p t)))
     (map (\<lambda>(k, g). (k, canonicalGroup g)) (sort_key fst (groupsOf p t)))
     (auditOf p t) (map (\<lambda>(i, c). (i, canonicalStaged c)) (sort_key fst (stagedOf p t))) (nextStageOf p t)"

lemma keyed_values: "\<forall>(k, v)\<in>set m. f v = k \<Longrightarrow> map (\<lambda>v. (f v, g v)) (map snd m) = map (\<lambda>(k, v). (k, g v)) m"
  by (auto simp: comp_def)

lemma restored_records:
  assumes "sameZones env env'" "readableTenant env p t"
    and "list_all2 (\<lambda>w r. decodeDefinition (trDefinition w) = Inr (canonicalDefinition (mrDefinition r)) \<and> trDeleted w = mrDeleted r)
      ws (map snd (sort_key fst (featuresOf p t)))"
  shows "decodeRecords env' (mpLimits p) ws [] = Inr (map (\<lambda>(k, r). (k, canonicalRecord r)) (sort_key fst (featuresOf p t)))"
proof -
  let ?rs = "map snd (sort_key fst (featuresOf p t))"
  have keys: "\<forall>(k, r)\<in>set (sort_key fst (featuresOf p t)). dKey (mrDefinition r) = k"
    and valid: "\<forall>r\<in>set ?rs. ValidateDefinition env (mpLimits p) (mrDefinition r) = None"
    using assms(2) by (auto simp: readableTenant_def)
  have "map (\<lambda>r. dKey (mrDefinition r)) ?rs = sort (map fst (featuresOf p t))"
    using keys by (auto simp flip: map_fst_sort_key)
  then have distinct: "distinct (map (\<lambda>r. dKey (mrDefinition r)) ?rs)"
    using assms(2) by (simp add: readableTenant_def)
  have "list_all2 (\<lambda>w r. decodeDefinition (trDefinition w) = Inr (mrDefinition r) \<and> trDeleted w = mrDeleted r \<and>
      ValidateDefinition env' (mpLimits p) (mrDefinition r) = None) ws (map canonicalRecord ?rs)"
    unfolding list_all2_map2
    by (rule list.rel_mono_strong [OF assms(3) [unfolded list_all2_map2]])
      (use valid ValidateDefinition_canonical [OF assms(1)] in \<open>auto simp: canonicalRecord_def\<close>)
  from decodeRecords_append [OF this, of "[]"] distinct
  have "decodeRecords env' (mpLimits p) ws [] = Inr (map (\<lambda>r. (dKey (mrDefinition r), r)) (map canonicalRecord ?rs))"
    by (simp add: canonicalRecord_def comp_def)
  also have "map (\<lambda>r. (dKey (mrDefinition r), r)) (map canonicalRecord ?rs) = map (\<lambda>(k, r). (k, canonicalRecord r)) (sort_key fst (featuresOf p t))"
    using keyed_values [OF keys, of canonicalRecord] by (simp add: canonicalRecord_def comp_def)
  finally show ?thesis .
qed

lemma restored_stages:
  assumes "sameZones env env'" "readableTenant env p t"
    and "list_all2 (\<lambda>w c. decodeDefinition (scwDefinition w) = Inr (canonicalDefinition (stDefinition c)) \<and> scwID w = stID c \<and>
      scwExpectedVersion w = stExpectedVersion c \<and> scwApplyAt w = stApplyAt c \<and> scwActor w = stActor c)
      ws (map snd (sort_key fst (stagedOf p t)))"
  shows "decodeStages env' (mpLimits p) (nextStageOf p t) ws [] = Inr (map (\<lambda>(i, c). (i, canonicalStaged c)) (sort_key fst (stagedOf p t)))"
proof -
  let ?cs = "map snd (sort_key fst (stagedOf p t))"
  have keys: "\<forall>(i, c)\<in>set (sort_key fst (stagedOf p t)). stID c = i"
    and valid: "\<forall>c\<in>set ?cs. ValidateDefinition env (mpLimits p) (stDefinition c) = None \<and> stID c \<noteq> 0 \<and> stID c \<le> nextStageOf p t"
    using assms(2) by (auto simp: readableTenant_def)
  have "map stID ?cs = sort (map fst (stagedOf p t))"
    using keys by (auto simp flip: map_fst_sort_key)
  then have distinct: "distinct (map stID ?cs)"
    using assms(2) by (simp add: readableTenant_def)
  have "list_all2 (\<lambda>w c. decodeDefinition (scwDefinition w) = Inr (stDefinition c) \<and> scwID w = stID c \<and>
      scwExpectedVersion w = stExpectedVersion c \<and> scwApplyAt w = stApplyAt c \<and> scwActor w = stActor c \<and>
      ValidateDefinition env' (mpLimits p) (stDefinition c) = None \<and> stID c \<noteq> 0 \<and> stID c \<le> nextStageOf p t) ws (map canonicalStaged ?cs)"
    unfolding list_all2_map2
    by (rule list.rel_mono_strong [OF assms(3) [unfolded list_all2_map2]])
      (use valid ValidateDefinition_canonical [OF assms(1)] in \<open>auto simp: canonicalStaged_def\<close>)
  from decodeStages_append [OF this, of "[]"] distinct
  have "decodeStages env' (mpLimits p) (nextStageOf p t) ws [] = Inr (map (\<lambda>c. (stID c, c)) (map canonicalStaged ?cs))"
    by (simp add: canonicalStaged_def comp_def)
  also have "map (\<lambda>c. (stID c, c)) (map canonicalStaged ?cs) = map (\<lambda>(i, c). (i, canonicalStaged c)) (sort_key fst (stagedOf p t))"
    using keyed_values [OF keys, of canonicalStaged] by (simp add: canonicalStaged_def comp_def)
  finally show ?thesis .
qed

lemma readable_groups:
  assumes "readableTenant env p t"
  shows "distinctKeys (groupsOf p t)" "groupsByKey (map snd (groupsOf p t)) = groupsOf p t"
    "cloneAndValidateGroups env (activeDefinitionsLocked p t) (map snd (groupsOf p t)) (mpLimits p) = Inr (groupsOf p t)"
proof -
  obtain groups where groups: "cloneAndValidateGroups env (activeDefinitionsLocked p t) (map snd (groupsOf p t)) (mpLimits p) = Inr groups"
    using assms by (cases "cloneAndValidateGroups env (activeDefinitionsLocked p t) (map snd (groupsOf p t)) (mpLimits p)")
      (simp_all add: readableTenant_def)
  have keys: "\<forall>(k, g)\<in>set (groupsOf p t). gKey g = k" using assms by (simp add: readableTenant_def)
  then have "map gKey (map snd (groupsOf p t)) = map fst (groupsOf p t)" by auto
  then show "distinctKeys (groupsOf p t)" using groups unfolding cloneAndValidateGroups_Inr by argo
  show same: "groupsByKey (map snd (groupsOf p t)) = groupsOf p t" using keyed_values [OF keys, of "\<lambda>g. g"] by simp
  have "groups = groupsByKey (map snd (groupsOf p t))" using groups unfolding cloneAndValidateGroups_Inr by argo
  then show "cloneAndValidateGroups env (activeDefinitionsLocked p t) (map snd (groupsOf p t)) (mpLimits p) = Inr (groupsOf p t)"
    using groups same by simp
qed

lemma active_byKey:
  assumes "\<forall>(k, r)\<in>set (featuresOf p t). dKey (mrDefinition r) = k"
  shows "activeDefinitionsLocked p t = byKey (map mrDefinition (filter (\<lambda>r. \<not> mrDeleted r) (map snd (featuresOf p t))))"
proof -
  have "map (\<lambda>(key, r). (key, mrDefinition r)) (filter (\<lambda>(key, r). \<not> mrDeleted r) m) =
      byKey (map mrDefinition (filter (\<lambda>r. \<not> mrDeleted r) (map snd m)))"
    if "\<forall>(k, r)\<in>set m. dKey (mrDefinition r) = k" for m
    using that by (induction m) auto
  from this [OF assms] show ?thesis by (simp add: activeDefinitionsLocked_def)
qed

lemma distinct_live:
  "\<forall>(k, r)\<in>set m. dKey (mrDefinition r) = k \<Longrightarrow> distinctKeys m \<Longrightarrow>
     distinct (map dKey (map mrDefinition (filter (\<lambda>r. \<not> mrDeleted r) (map snd m))))"
  by (induction m) force+

lemma restored_groups:
  assumes "sameZones env env'" "readableTenant env p t"
  shows "cloneAndValidateGroups env'
      (activeDefinitionsLocked ((NewMemoryProvider (mpLimits p))\<lparr> mpTenants :=
         [(t, map (\<lambda>(k, r). (k, canonicalRecord r)) (sort_key fst (featuresOf p t)))] \<rparr>) t)
      (map canonicalGroup (map snd (sort_key fst (groupsOf p t)))) (mpLimits p) =
    Inr (map (\<lambda>(k, g). (k, canonicalGroup g)) (sort_key fst (groupsOf p t)))"
proof -
  let ?live = "\<lambda>m. map mrDefinition (filter (\<lambda>r. \<not> mrDeleted r) (map snd m))"
  let ?ds = "?live (featuresOf p t)" and ?ds' = "?live (sort_key fst (featuresOf p t))"
  let ?gs = "map snd (groupsOf p t)" and ?gs' = "map snd (sort_key fst (groupsOf p t))"
  have keys: "\<forall>(k, r)\<in>set (featuresOf p t). dKey (mrDefinition r) = k" "distinctKeys (featuresOf p t)"
    and gkeys: "\<forall>(k, g)\<in>set (groupsOf p t). gKey g = k"
    using assms(2) by (auto simp: readableTenant_def)
  note ok = readable_groups(3) [OF assms(2)]
  have msets: "mset ?ds' = mset ?ds" "mset ?gs' = mset ?gs" by simp_all
  have active: "activeDefinitionsLocked p t = byKey ?ds"
    by (rule active_byKey [OF keys(1)])
  have distinct: "distinct (map dKey ?ds)"
    using distinct_live [OF keys] .
  have same: "sameDefinitions (byKey ?ds) (byKey (map canonicalDefinition ?ds'))"
    unfolding sameDefinitions_def using distinct msets(1) map_of_keyed_canonical [of dKey canonicalDefinition ?ds ?ds'] by simp
  have "distinct (map dKey (map canonicalDefinition ?ds'))"
    using distinct msets(1) mset_eq_imp_distinct_iff [of "map dKey ?ds'" "map dKey ?ds"] by (simp add: comp_def)
  note canonical = validateGroups_canonical [OF _ assms(1) same this msets(2), of "mpLimits p"]
  have "cloneAndValidateGroups env' (byKey (map canonicalDefinition ?ds')) (map canonicalGroup ?gs') (mpLimits p) =
      Inr (groupsByKey (map canonicalGroup ?gs'))"
    using canonical assms(1) ok active readable_groups(2) [OF assms(2)] by (simp add: sameZones_def)
  moreover have "activeDefinitionsLocked ((NewMemoryProvider (mpLimits p))\<lparr> mpTenants :=
         [(t, map (\<lambda>(k, r). (k, canonicalRecord r)) (sort_key fst (featuresOf p t)))] \<rparr>) t = byKey (map canonicalDefinition ?ds')"
    by (subst active_byKey) (use keys(1) in \<open>auto simp: inner_def canonicalRecord_def comp_def case_prod_beta filter_map\<close>)
  moreover have "groupsByKey (map canonicalGroup ?gs') = map (\<lambda>(k, g). (k, canonicalGroup g)) (sort_key fst (groupsOf p t))"
    using keyed_values [of "sort_key fst (groupsOf p t)" gKey canonicalGroup] gkeys by (simp add: comp_def)
  ultimately show ?thesis by simp
qed

lemma tenant_trip:
  assumes "sameZones env env'" "portableTenant p t" "readableTenant env p t"
  shows "\<exists>text. marshalTenantState p t = (if len text > MaxStateBytes (mpLimits p) then Inl ErrStateLimit else Inr text) \<and>
    unmarshalTenantState env' text t (mpLimits p) =
      (if len text > MaxStateBytes (mpLimits p) then Inl ErrStateLimit else Inr (canonicalTenant p t))"
proof -
  have keys: "distinctKeys (featuresOf p t)" "distinctKeys (groupsOf p t)" "distinctKeys (stagedOf p t)"
    using assms(3) readable_groups(1) [OF assms(3)] by (simp_all add: readableTenant_def)
  note inOrder = sortedValues_eq [OF keys(1)] sortedValues_eq [OF keys(2)] sortedValues_eq [OF keys(3)]
  let ?rs = "map snd (sort_key fst (featuresOf p t))" and ?gs = "map snd (sort_key fst (groupsOf p t))"
    and ?cs = "map snd (sort_key fst (stagedOf p t))"
  have "\<forall>r\<in>set ?rs. portableDefinition (mrDefinition r)" "\<forall>g\<in>set ?gs. portableGroup g"
    "\<forall>a\<in>set (auditOf p t). portableAudit a" "\<forall>c\<in>set ?cs. portableStaged c"
    using assms(2) by (auto simp: portableTenant_def)
  from tenant_document [OF this, of "nextStageOf p t"] obtain records groups staged data v where
      wires: "mapRes encodeRecord ?rs = Inr records" "mapRes encodeGroup ?gs = Inr groups" "mapRes encodeStaged ?cs = Inr staged"
      "marshal tenantStateSchema (tenantStateJ \<lparr> tsVersion = tenantStateVersion, tsRecords = records, tsGroups = groups,
        tsAudit = auditOf p t, tsStaged = staged, tsNextStage = nextStageOf p t \<rparr>) = Inr data"
      and v: "unmarshal tenantStateSchema data = Inr v" "tsVersion (tenantStateOfJ v) = tenantStateVersion"
        "tsAudit (tenantStateOfJ v) = auditOf p t" "tsNextStage (tenantStateOfJ v) = nextStageOf p t"
      and records: "list_all2 (\<lambda>w r. decodeDefinition (trDefinition w) = Inr (canonicalDefinition (mrDefinition r)) \<and> trDeleted w = mrDeleted r)
          (tsRecords (tenantStateOfJ v)) ?rs"
      and groups: "mapRes decodeGroup (tsGroups (tenantStateOfJ v)) = Inr (map canonicalGroup ?gs)"
      and staged: "list_all2 (\<lambda>w c. decodeDefinition (scwDefinition w) = Inr (canonicalDefinition (stDefinition c)) \<and> scwID w = stID c \<and>
          scwExpectedVersion w = stExpectedVersion c \<and> scwApplyAt w = stApplyAt c \<and> scwActor w = stActor c) (tsStaged (tenantStateOfJ v)) ?cs"
    by blast
  have lengths: "\<not> len (auditOf p t) > MaxAuditEntries (mpLimits p)" "\<not> len (tsStaged (tenantStateOfJ v)) > MaxStagedChanges (mpLimits p)"
    using assms(3) list_all2_lengthD [OF staged] by (simp_all add: readableTenant_def)
  have "restoreTenant env' (mpLimits p) t (tenantStateOfJ v) = Inr (canonicalTenant p t)"
    using v restored_records [OF assms(1,3) records] restored_groups [OF assms(1,3)] restored_stages [OF assms(1,3) staged] groups lengths
    by (simp add: restoreTenant_def canonicalTenant_def check_def)
  then show ?thesis
    using wires v inOrder by (auto simp: marshalTenantState_def unmarshalTenantState_def)
qed

end
