(* ===== verification/Durable_Props.thy ===== *)
theory Durable_Props
  imports Postgres Valkey Tenant_Laws Memory_Props
begin

text \<open>
  What the durable provider promises over its two backends: operations take effect at one instant, get
  through when they are left alone, and read back what they wrote.
\<close>

section \<open>The client lemmas for whole operations\<close>

context document_backend
begin

lemma operation_instant:
  assumes "within N b" "N + swapCount around (nat (MaxStorageRetries (dpLimits p) + 1)) 0 \<le> top" "dpBackend p = backend"
    and "durableMutate p around tenant mutation b = (b', reply)"
  shows "case reply of Inr result \<Rightarrow> takesEffect stored (place tenant) p around tenant mutation b result b'
    | Inl e \<Rightarrow> failsCleanly p around tenant b e b'"
proof (cases "providerInput (atEntry around) tenant (MaxKeyBytes (dpLimits p))")
  case None
  then show ?thesis using durableLoop_instant [OF assms(1,2,3)] assms(4) by (simp add: durableMutate_def)
next
  case (Some e)
  then show ?thesis using assms(4) by (auto simp: durableMutate_def failsCleanly_def intro: history_start)
qed

end

context available_backend
begin

lemma operation_decides:
  assumes "within N b" "ready b" "N + swapCount around (nat (MaxStorageRetries (dpLimits p) + 1)) 0 \<le> top"
    and "dpBackend p = backend" "providerInput None tenant (MaxKeyBytes (dpLimits p)) = None" "usable tenant"
    and "atEntry around = None" "\<forall>i\<le>m. atLoad around i = None \<and> atSwap around i = None"
    and "\<forall>c \<in> set (beforeSwap around m). place (swTenant c) \<noteq> place tenant" "int m \<le> MaxStorageRetries (dpLimits p)"
  shows "\<exists>i b0. i \<le> m \<and> history backend (otherSwaps around) b b0 \<and>
    snd (durableMutate p around tenant mutation b) =
      rbind (answerOn p around tenant mutation i (stored b0 (place tenant))) (\<lambda>(result, data). Inr result)"
proof -
  obtain b' reply where op: "durableMutate p around tenant mutation b = (b', reply)" by fastforce
  then have loop: "durableLoop p around tenant mutation (nat (MaxStorageRetries (dpLimits p) + 1)) 0 b = (b', reply)"
    using assms(5,7) by (simp add: durableMutate_def)
  have "m < 0 + nat (MaxStorageRetries (dpLimits p) + 1)" using assms(10) by simp
  from durableLoop_decides [OF assms(1-6) _ assms(9) _ this loop] show ?thesis using assms(8) op by auto
qed

lemma operation_undisturbed:
  assumes "within N b" "ready b" "N < top"
    and "dpBackend p = backend" "providerInput None tenant (MaxKeyBytes (dpLimits p)) = None" "usable tenant"
    and "atEntry around = None" "atLoad around 0 = None" "atSwap around 0 = None"
    and "beforeLoad around 0 = []" "beforeSwap around 0 = []" "0 \<le> MaxStorageRetries (dpLimits p)"
    and "durableMutate p around tenant mutation b = (b', reply)"
  shows "inv b' \<and> (case answerOn p around tenant mutation 0 (stored b (place tenant)) of
      Inl e \<Rightarrow> reply = Inl e \<and> stored b' = stored b
    | Inr (result, data) \<Rightarrow> reply = Inr result \<and>
        stored b' = (stored b)(place tenant \<mapsto> (data, currentRevision (stored b (place tenant)) + 1)))"
proof -
  obtain left where "nat (MaxStorageRetries (dpLimits p) + 1) = Suc left"
    using assms(12) by (metis Suc_nat_eq_nat_zadd1 add.commute)
  then have "durableLoop p around tenant mutation (Suc left) 0 b = (b', reply)"
    using assms(5,7,13) by (simp add: durableMutate_def)
  from durableLoop_undisturbed [OF assms(1-6,8-11) this] show ?thesis .
qed

end

section \<open>PostgreSQL\<close>

context postgres_service
begin

lemma within_rows:
  assumes "migrated d" "\<forall>t data r. rows d t = Some (data, r) \<longrightarrow> r \<le> int n"
  shows "pg.within n d"
proof -
  have "unat (currentRevision (documentAt (rows d) k)) \<le> n" for k
  proof (cases "rows d k")
    case (Some row)
    obtain data r where row: "row = (data, r)" by fastforce
    have "uint (word_of_int r :: 64 word) = r" using word_of_revision(1) revision_range [OF assms(1), of k data r] Some row by simp
    moreover have "r \<le> int n" using assms(2) Some row by blast
    ultimately show ?thesis using Some row by (simp add: unat_eq_nat_uint nat_le_iff del: nat_uint_eq)
  qed (simp add: documentAt_def)
  then show ?thesis using assms(1) by (simp add: pg.within_def)
qed

lemma operation_on_rows:
  assumes "migrated d" "\<forall>t data r. rows d t = Some (data, r) \<longrightarrow> r \<le> int n"
    and "n + swapCount around (nat (MaxStorageRetries limits + 1)) 0 < 2 ^ 63"
    and "durableMutate (PostgresNew db limits) around tenant mutation d = (d', reply)"
  shows "case reply of
      Inr result \<Rightarrow> takesEffect (\<lambda>d. documentAt (rows d)) tenant (PostgresNew db limits) around tenant mutation d result d'
    | Inl e \<Rightarrow> failsCleanly (PostgresNew db limits) around tenant d e d'"
  using pg.operation_instant [OF within_rows [OF assms(1,2)], of around "PostgresNew db limits" tenant mutation d' reply] assms(3,4)
  by (simp add: PostgresNew_def NewDurableProvider_def)

end

context postgres_up
begin

lemma operation_gets_through:
  assumes "migrated d" "\<forall>t data r. rows d t = Some (data, r) \<longrightarrow> r \<le> int n" "up d"
    and "n + swapCount around (nat (MaxStorageRetries limits + 1)) 0 < 2 ^ 63"
    and "providerInput None tenant (MaxKeyBytes limits) = None" "storable tenant"
    and "atEntry around = None" "\<forall>i\<le>m. atLoad around i = None \<and> atSwap around i = None"
    and "\<forall>c \<in> set (beforeSwap around m). swTenant c \<noteq> tenant" "int m \<le> MaxStorageRetries limits"
  shows "\<exists>i before. i \<le> m \<and> history (PostgresBackend db) (otherSwaps around) d before \<and>
    snd (durableMutate (PostgresNew db limits) around tenant mutation d) =
      rbind (answerOn (PostgresNew db limits) around tenant mutation i (documentAt (rows before) tenant)) (\<lambda>(result, data). Inr result)"
  using up.operation_decides [OF within_rows [OF assms(1,2)] assms(3), of around "PostgresNew db limits" tenant m mutation] assms(4-)
  by (simp add: PostgresNew_def NewDurableProvider_def)

end

text \<open>
  C5. Over PostgreSQL an operation of the durable provider is atomic. Other clients may write through the
  same table between any two statements of it, and statements may fail. When the operation succeeds, there
  is one instant, after some writes of the others and refused attempts of its own, at which the stored
  document read as a provider state, the memory provider's mutation on exactly that state gave the result,
  and the row was replaced by the encoding of the mutated state at the next revision, no other row changing:
  no update of anyone is lost. When it fails, it wrote nothing, except possibly when the database itself
  reported a failure of the write.
\<close>

theorem postgres_operation_atomic:
  assumes "postgres_service db rows migrated" "migrated d" "\<forall>t data r. rows d t = Some (data, r) \<longrightarrow> r \<le> int n"
    and "n + swapCount around (nat (MaxStorageRetries limits + 1)) 0 < 2 ^ 63"
    and "durableMutate (PostgresNew db limits) around tenant mutation d = (d', reply)"
  shows "case reply of
      Inr result \<Rightarrow> takesEffect (\<lambda>d. documentAt (rows d)) tenant (PostgresNew db limits) around tenant mutation d result d'
    | Inl e \<Rightarrow> failsCleanly (PostgresNew db limits) around tenant d e d'"
  using postgres_service.operation_on_rows [OF assms] .

text \<open>An empty table, and the surroundings of an operation in which another client creates the row first.\<close>

definition emptyTable :: table where "emptyTable = \<lparr> tbRows = [], tbFaults = [] \<rparr>"

definition quietly :: surroundings where
  "quietly = \<lparr> atEntry = None, atLoad = (\<lambda>_. None), atMutation = (\<lambda>_. None), atDecoded = (\<lambda>_. None), atSwap = (\<lambda>_. None),
     mapOrder = (\<lambda>_. exampleEnv), beforeLoad = (\<lambda>_. []), beforeSwap = (\<lambda>_. []) \<rparr>"

definition raced :: surroundings where
  "raced = quietly\<lparr> beforeSwap := (\<lambda>n. if n = 0
     then [\<lparr> swCtx = None, swTenant = ''acme'', swRevision = 0, swData = ''{}'' \<rparr>] else []) \<rparr>"

definition racedCreate :: "table \<times> Definition res" where
  "racedCreate = DurableCreate (PostgresNew tableDB DefaultLimits) raced ''acme'' exampleBeta ''ann'' emptyTable"

lemma swapCount_raced: "swapCount raced k n \<le> 2 * k"
proof (induction k arbitrary: n)
  case (Suc k)
  have "length (beforeLoad raced n) + length (beforeSwap raced n) \<le> 1" by (simp add: raced_def quietly_def)
  then show ?case using Suc [of "Suc n"] by simp
qed simp

theorem postgres_operation_atomic_witness:
  "case snd racedCreate of
      Inr result \<Rightarrow> takesEffect (\<lambda>d. documentAt (map_of (tbRows d))) ''acme'' (PostgresNew tableDB DefaultLimits) raced ''acme''
        (\<lambda>n. Create exampleEnv None ''acme'' exampleBeta ''ann'') emptyTable result (fst racedCreate)
    | Inl e \<Rightarrow> failsCleanly (PostgresNew tableDB DefaultLimits) raced ''acme'' emptyTable e (fst racedCreate)"
proof -
  have "durableMutate (PostgresNew tableDB DefaultLimits) raced ''acme'' (\<lambda>n. Create exampleEnv None ''acme'' exampleBeta ''ann'') emptyTable =
      (fst racedCreate, snd racedCreate)"
    by (simp add: racedCreate_def DurableCreate_def raced_def quietly_def)
  then show ?thesis
    by (rule postgres_operation_atomic [OF table.postgres_service_axioms, where n = 0, rotated 3])
      (use swapCount_raced [of "nat (MaxStorageRetries DefaultLimits + 1)" 0] in
        \<open>simp_all add: emptyTable_def tableMigrated_def DefaultLimits_def\<close>)
qed

text \<open>
  C6. Over PostgreSQL an operation gets through as soon as it is left alone once. The database is up, the
  context stays live, and among the first \<open>MaxStorageRetries + 1\<close> attempts there is an attempt \<open>m\<close> during which
  no other client writes the row of the tenant between its load and its swap. Then the operation does not
  give up with a storage conflict: at attempt \<open>m\<close> at the latest it returns the memory provider's own answer,
  result or error, on the document stored at that time.
\<close>

theorem postgres_operation_decides:
  assumes "postgres_up db rows migrated up storable" "migrated d" "\<forall>t data r. rows d t = Some (data, r) \<longrightarrow> r \<le> int n" "up d"
    and "n + swapCount around (nat (MaxStorageRetries limits + 1)) 0 < 2 ^ 63"
    and "providerInput None tenant (MaxKeyBytes limits) = None" "storable tenant"
    and "atEntry around = None" "\<forall>i\<le>m. atLoad around i = None \<and> atSwap around i = None"
    and "\<forall>c \<in> set (beforeSwap around m). swTenant c \<noteq> tenant" "int m \<le> MaxStorageRetries limits"
  shows "\<exists>i before. i \<le> m \<and> history (PostgresBackend db) (otherSwaps around) d before \<and>
    snd (durableMutate (PostgresNew db limits) around tenant mutation d) =
      rbind (answerOn (PostgresNew db limits) around tenant mutation i (documentAt (rows before) tenant)) (\<lambda>(result, data). Inr result)"
  using postgres_up.operation_gets_through [OF assms] .

theorem postgres_operation_decides_witness:
  "\<exists>i before. i \<le> 1 \<and> history (PostgresBackend tableDB) (otherSwaps raced) emptyTable before \<and>
    snd (durableMutate (PostgresNew tableDB DefaultLimits) raced ''acme'' (\<lambda>n. Create exampleEnv None ''acme'' exampleBeta ''ann'') emptyTable) =
      rbind (answerOn (PostgresNew tableDB DefaultLimits) raced ''acme'' (\<lambda>n. Create exampleEnv None ''acme'' exampleBeta ''ann'') i
        (documentAt (map_of (tbRows before)) ''acme'')) (\<lambda>(result, data). Inr result)"
  by (rule postgres_operation_decides [OF table.postgres_up_axioms, where n = 0])
    (use swapCount_raced [of "nat (MaxStorageRetries DefaultLimits + 1)" 0] in
      \<open>simp_all add: emptyTable_def tableMigrated_def DefaultLimits_def raced_def quietly_def providerInput_def\<close>)

section \<open>Valkey\<close>

context valkey_service
begin

lemma operation_on_hashes:
  assumes "wellKept (hashesOf c)" "\<forall>key. unat (currentRevision (hashDocument (hashesOf c) key)) \<le> n"
    and "n + swapCount around (nat (MaxStorageRetries limits + 1)) 0 \<le> 2 ^ 53"
    and "durableMutate (ValkeyNew (NewNativeTransport client) prefix limits) around tenant mutation c = (c', reply)"
  shows "case reply of
      Inr result \<Rightarrow> takesEffect (\<lambda>c. hashDocument (hashesOf c)) (valkeyPlace prefix tenant)
        (ValkeyNew (NewNativeTransport client) prefix limits) around tenant mutation c result c'
    | Inl e \<Rightarrow> failsCleanly (ValkeyNew (NewNativeTransport client) prefix limits) around tenant c e c'"
proof -
  have "vk.within n c" using assms(1,2) by (simp add: vk.within_def)
  from vk.operation_instant [OF this, of around "ValkeyNew (NewNativeTransport client) prefix limits" prefix tenant mutation c' reply]
  show ?thesis using assms(3,4) by (simp add: ValkeyNew_def NewDurableProvider_def valkeyBackend_def)
qed

end

context valkey_up
begin

lemma operation_alone:
  assumes "wellKept (hashesOf c)" "\<forall>key. unat (currentRevision (hashDocument (hashesOf c) key)) < 2 ^ 53" "up c"
    and "providerInput None tenant (MaxKeyBytes limits) = None"
    and "atEntry around = None" "atLoad around 0 = None" "atSwap around 0 = None"
    and "beforeLoad around 0 = []" "beforeSwap around 0 = []" "0 \<le> MaxStorageRetries limits"
    and "durableMutate (ValkeyNew (NewNativeTransport client) prefix limits) around tenant mutation c = (c', reply)"
  shows "case answerOn (ValkeyNew (NewNativeTransport client) prefix limits) around tenant mutation 0
        (hashDocument (hashesOf c) (valkeyPlace prefix tenant)) of
      Inl e \<Rightarrow> reply = Inl e \<and> hashDocument (hashesOf c') = hashDocument (hashesOf c)
    | Inr (result, data) \<Rightarrow> reply = Inr result \<and> hashDocument (hashesOf c') = (hashDocument (hashesOf c))
        (valkeyPlace prefix tenant \<mapsto> (data, currentRevision (hashDocument (hashesOf c) (valkeyPlace prefix tenant)) + 1))"
proof -
  have "vk.within (2 ^ 53 - 1) c" using assms(1,2) by (auto simp: vk.within_def less_Suc_eq_le [symmetric])
  from up.operation_undisturbed [OF this assms(3), of "ValkeyNew (NewNativeTransport client) prefix limits" prefix tenant around mutation c' reply]
  show ?thesis using assms(4-) by (simp add: ValkeyNew_def NewDurableProvider_def valkeyBackend_def)
qed

end

text \<open>
  C31. Over Valkey an operation of the durable provider is atomic in the same sense, as long as revisions stay
  within the range in which the numbers of the scripts are exact. The place of a tenant is the key made of
  the prefix and the SHA-256 of the tenant.
\<close>

theorem valkey_operation_atomic:
  assumes "valkey_service client hashesOf" "wellKept (hashesOf c)"
    and "\<forall>key. unat (currentRevision (hashDocument (hashesOf c) key)) \<le> n"
    and "n + swapCount around (nat (MaxStorageRetries limits + 1)) 0 \<le> 2 ^ 53"
    and "durableMutate (ValkeyNew (NewNativeTransport client) prefix limits) around tenant mutation c = (c', reply)"
  shows "case reply of
      Inr result \<Rightarrow> takesEffect (\<lambda>c. hashDocument (hashesOf c)) (valkeyPlace prefix tenant)
        (ValkeyNew (NewNativeTransport client) prefix limits) around tenant mutation c result c'
    | Inl e \<Rightarrow> failsCleanly (ValkeyNew (NewNativeTransport client) prefix limits) around tenant c e c'"
  using valkey_service.operation_on_hashes [OF assms] .

definition emptyServer :: server where "emptyServer = \<lparr> svHashes = (\<lambda>_ _. None), svFaults = [] \<rparr>"

definition valkeyCreate :: "surroundings \<Rightarrow> server \<times> Definition res" where
  "valkeyCreate around = DurableCreate (ValkeyNew (NewNativeTransport serverClient) [] DefaultLimits) around ''acme'' exampleBeta ''ann'' emptyServer"

lemma emptyServer_kept: "wellKept (svHashes emptyServer)" "hashDocument (svHashes emptyServer) key = None"
  by (simp_all add: emptyServer_def wellKept_def hashDocument_def)

theorem valkey_operation_atomic_witness:
  "case snd (valkeyCreate raced) of
      Inr result \<Rightarrow> takesEffect (\<lambda>c. hashDocument (svHashes c)) (valkeyPlace [] ''acme'')
        (ValkeyNew (NewNativeTransport serverClient) [] DefaultLimits) raced ''acme''
        (\<lambda>n. Create exampleEnv None ''acme'' exampleBeta ''ann'') emptyServer result (fst (valkeyCreate raced))
    | Inl e \<Rightarrow> failsCleanly (ValkeyNew (NewNativeTransport serverClient) [] DefaultLimits) raced ''acme'' emptyServer e
        (fst (valkeyCreate raced))"
proof -
  have "durableMutate (ValkeyNew (NewNativeTransport serverClient) [] DefaultLimits) raced ''acme''
      (\<lambda>n. Create exampleEnv None ''acme'' exampleBeta ''ann'') emptyServer = (fst (valkeyCreate raced), snd (valkeyCreate raced))"
    by (simp add: valkeyCreate_def DurableCreate_def raced_def quietly_def)
  then show ?thesis
    by (rule valkey_operation_atomic [OF server.valkey_service_axioms, where n = 0, rotated 3])
      (use swapCount_raced [of "nat (MaxStorageRetries DefaultLimits + 1)" 0] in
        \<open>simp_all add: emptyServer_kept DefaultLimits_def\<close>)
qed

text \<open>
  C32. Left alone, an operation of the durable provider over Valkey refines the memory provider: it returns
  what the mutation returns on the state the stored document stands for, and stores the encoding of the
  mutated state at the next revision; when reading, mutating or encoding fails it returns that error and no
  stored document changes.
\<close>

theorem valkey_operation_refines:
  assumes "valkey_up client hashesOf up" "wellKept (hashesOf c)"
    and "\<forall>key. unat (currentRevision (hashDocument (hashesOf c) key)) < 2 ^ 53" "up c"
    and "providerInput None tenant (MaxKeyBytes limits) = None"
    and "atEntry around = None" "atLoad around 0 = None" "atSwap around 0 = None"
    and "beforeLoad around 0 = []" "beforeSwap around 0 = []" "0 \<le> MaxStorageRetries limits"
    and "durableMutate (ValkeyNew (NewNativeTransport client) prefix limits) around tenant mutation c = (c', reply)"
  shows "case answerOn (ValkeyNew (NewNativeTransport client) prefix limits) around tenant mutation 0
        (hashDocument (hashesOf c) (valkeyPlace prefix tenant)) of
      Inl e \<Rightarrow> reply = Inl e \<and> hashDocument (hashesOf c') = hashDocument (hashesOf c)
    | Inr (result, data) \<Rightarrow> reply = Inr result \<and> hashDocument (hashesOf c') = (hashDocument (hashesOf c))
        (valkeyPlace prefix tenant \<mapsto> (data, currentRevision (hashDocument (hashesOf c) (valkeyPlace prefix tenant)) + 1))"
  using valkey_up.operation_alone [OF assms] .

theorem valkey_operation_refines_witness:
  "case answerOn (ValkeyNew (NewNativeTransport serverClient) [] DefaultLimits) quietly ''acme''
        (\<lambda>n. Create exampleEnv None ''acme'' exampleBeta ''ann'') 0 (hashDocument (svHashes emptyServer) (valkeyPlace [] ''acme'')) of
      Inl e \<Rightarrow> snd (valkeyCreate quietly) = Inl e \<and> hashDocument (svHashes (fst (valkeyCreate quietly))) = hashDocument (svHashes emptyServer)
    | Inr (result, data) \<Rightarrow> snd (valkeyCreate quietly) = Inr result \<and>
        hashDocument (svHashes (fst (valkeyCreate quietly))) = (hashDocument (svHashes emptyServer))
          (valkeyPlace [] ''acme'' \<mapsto> (data, currentRevision (hashDocument (svHashes emptyServer) (valkeyPlace [] ''acme'')) + 1))"
proof -
  have "durableMutate (ValkeyNew (NewNativeTransport serverClient) [] DefaultLimits) quietly ''acme''
      (\<lambda>n. Create exampleEnv None ''acme'' exampleBeta ''ann'') emptyServer = (fst (valkeyCreate quietly), snd (valkeyCreate quietly))"
    by (simp add: valkeyCreate_def DurableCreate_def quietly_def)
  then show ?thesis
    by (rule valkey_operation_refines [OF server.valkey_up_axioms, rotated 10])
      (simp_all add: emptyServer_kept DefaultLimits_def quietly_def providerInput_def, simp add: emptyServer_def)
qed

section \<open>The state document\<close>





definition orphan :: Definition where
  "orphan = (plainDefinition ''beta'')\<lparr> dGroups := [''missing''] \<rparr>"

definition orphanProvider :: MemoryProvider where
  "orphanProvider = fst (Create exampleEnv None ''acme'' orphan ''ann'' (NewMemoryProvider DefaultLimits))"

definition orphanCreated :: "table \<times> Definition res" where
  "orphanCreated = DurableCreate (PostgresNew tableDB DefaultLimits) quietly ''acme'' orphan ''ann'' emptyTable"

lemma orphan_created:
  "Create exampleEnv None ''acme'' orphan ''ann'' (NewMemoryProvider DefaultLimits) =
     ((NewMemoryProvider DefaultLimits)\<lparr>
        mpTenants := [(''acme'', [(''beta'', \<lparr> mrDefinition = orphan, mrDeleted = False \<rparr>)])],
        mpAudit := [(''acme'', [\<lparr> aeFeatureKey = ''beta'', aeAction = AuditCreate, aeActor = ''ann'', aeVersion = 1 \<rparr>])] \<rparr>, Inr orphan)"
proof -
  have [simp]: "dKey orphan = ''beta''" "orphan\<lparr> dVersion := 1 \<rparr> = orphan"
      "dVersion orphan = 1" "MaxKeyBytes DefaultLimits = 256" "MaxFeatures DefaultLimits = 10000"
      "MaxAuditEntries DefaultLimits = 10000"
    by (simp_all add: orphan_def plainDefinition_def DefaultLimits_def)
  have "ValidateDefinition exampleEnv DefaultLimits orphan = None" by code_simp
  then show ?thesis
    unfolding Create_def
    by (simp add: NewMemoryProvider_def providerInput_def hasKey_def commitFeature_def
        audited_def appendAudit_eq storeFeature_def newest_def)
qed

lemma orphan_written: "\<not> isl (marshalTenantState orphanProvider ''acme'')" "portableTenant orphanProvider ''acme''"
  by code_simp+

lemma orphan_tables: "sortedValues (featuresOf orphanProvider ''acme'') = [\<lparr> mrDefinition = orphan, mrDeleted = False \<rparr>]"
  "sortedValues (groupsOf orphanProvider ''acme'') = []" "mpLimits orphanProvider = DefaultLimits"
  "sortedValues (stagedOf orphanProvider ''acme'') = []"
  unfolding orphanProvider_def orphan_created by (simp_all add: NewMemoryProvider_def sortedValues_def inner_def)

lemma orphan_restored:
  assumes "wfEnv env" "decodeDefinition (trDefinition w) = Inr (canonicalDefinition orphan)" "\<not> trDeleted w"
    and "tsRecords state = [w]" "tsGroups state = []"
  shows "isl (restoreTenant env limits t state)"
proof -
  have d: "dGroups (canonicalDefinition orphan) = [''missing'']" by (simp add: orphan_def)
  have "\<not> (\<exists>groups. cloneAndValidateGroups env [(dKey orphan, canonicalDefinition orphan)] [] limits = Inr groups)"
    unfolding cloneAndValidateGroups_Inr using assms(1) d by (simp add: validateFeatureGroup_def hasKey_def)
  then obtain e where "cloneAndValidateGroups env [(dKey orphan, canonicalDefinition orphan)] [] limits = Inl e"
    by (cases "cloneAndValidateGroups env [(dKey orphan, canonicalDefinition orphan)] [] limits") auto
  then show ?thesis
    using assms by (simp add: restoreTenant_def guardErr_def activeDefinitionsLocked_def NewMemoryProvider_def inner_def split: option.split)
qed

lemma orphan_unreadable:
  assumes "wfEnv env" "marshalTenantState orphanProvider ''acme'' = Inr data"
  shows "isl (unmarshalTenantState env data ''acme'' DefaultLimits)"
proof -
  have "\<forall>r\<in>set [\<lparr> mrDefinition = orphan, mrDeleted = False \<rparr>]. portableDefinition (mrDefinition r)"
    "\<forall>a\<in>set (auditOf orphanProvider ''acme''). portableAudit a"
    using orphan_written(2) unfolding portableTenant_def orphanProvider_def orphan_created by (auto simp: inner_def)
  from tenant_document [OF this(1) _ this(2), of "[]" "[]" "nextStageOf orphanProvider ''acme''"]
  obtain records doc v where
      "mapRes encodeRecord [\<lparr> mrDefinition = orphan, mrDeleted = False \<rparr>] = Inr records"
      "marshal tenantStateSchema (tenantStateJ \<lparr> tsVersion = tenantStateVersion, tsRecords = records, tsGroups = [],
        tsAudit = auditOf orphanProvider ''acme'', tsStaged = [], tsNextStage = nextStageOf orphanProvider ''acme'' \<rparr>) = Inr doc"
      and v: "unmarshal tenantStateSchema doc = Inr v"
        "list_all2 (\<lambda>w r. decodeDefinition (trDefinition w) = Inr (canonicalDefinition (mrDefinition r)) \<and> trDeleted w = mrDeleted r)
          (tsRecords (tenantStateOfJ v)) [\<lparr> mrDefinition = orphan, mrDeleted = False \<rparr>]"
        "mapRes decodeGroup (tsGroups (tenantStateOfJ v)) = Inr []"
    by auto
  then have "doc = data" using assms(2) by (simp add: marshalTenantState_def orphan_tables split: if_splits)
  obtain w where "tsRecords (tenantStateOfJ v) = [w]" "\<not> trDeleted w" "decodeDefinition (trDefinition w) = Inr (canonicalDefinition orphan)"
    using v(2) by (auto simp: list_all2_Cons2)
  moreover have "tsGroups (tenantStateOfJ v) = []" using v(3) by (cases "tsGroups (tenantStateOfJ v)") (auto simp: rbind_eq_Inr)
  ultimately have "isl (restoreTenant env DefaultLimits ''acme'' (tenantStateOfJ v))"
    using orphan_restored [OF assms(1)] by blast
  then show ?thesis using v(1) \<open>doc = data\<close> by (simp add: unmarshalTenantState_def)
qed

text \<open>
  C34. Creating a feature that names a group which does not exist makes a durable tenant unreadable. Create
  does not look at groups and succeeds, but reading the stored document validates them, so from then on no
  operation, not even one that would repair the feature or create the group, can load the tenant.
\<close>

theorem durable_create_unreadable:
  assumes "wfEnv env"
  shows "snd orphanCreated = Inr orphan \<and>
    isl (snd (load (PostgresNew tableDB DefaultLimits) env ctx ''acme'' (fst orphanCreated)))"
proof -
  let ?p = "PostgresNew tableDB DefaultLimits" and ?m = "\<lambda>n :: nat. Create exampleEnv None ''acme'' orphan ''ann''"
  obtain data where data: "marshalTenantState orphanProvider ''acme'' = Inr data"
    using orphan_written(1) by (cases "marshalTenantState orphanProvider ''acme''") auto
  have op: "durableMutate ?p quietly ''acme'' ?m emptyTable = (fst orphanCreated, snd orphanCreated)"
    by (simp add: orphanCreated_def DurableCreate_def quietly_def)
  have within: "table.pg.within 0 emptyTable" by (simp add: table.pg.within_def emptyTable_def tableMigrated_def)
  have answer: "answerOn ?p quietly ''acme'' ?m 0 (documentAt (map_of (tbRows emptyTable)) ''acme'') = Inr (orphan, data)"
    using data by (simp add: answerOn_def emptyTable_def loadedState_def PostgresNew_def NewDurableProvider_def
        orphan_created orphanProvider_def)
  have created: "tableMigrated (fst orphanCreated) \<and> snd orphanCreated = Inr orphan \<and>
      documentAt (map_of (tbRows (fst orphanCreated))) = (documentAt (map_of (tbRows emptyTable)))(''acme'' \<mapsto> (data, 1))"
    using table.up.operation_undisturbed [OF within, of ?p "''acme''" quietly ?m "fst orphanCreated" "snd orphanCreated"] op answer
    by (simp add: PostgresNew_def NewDurableProvider_def emptyTable_def quietly_def DefaultLimits_def providerInput_def)
  then have "loadedState env DefaultLimits ''acme'' (documentAt (map_of (tbRows (fst orphanCreated))) ''acme'') =
      unmarshalTenantState env data ''acme'' DefaultLimits"
    by (simp add: loadedState_def)
  then have unreadable: "isl (loadedState env DefaultLimits ''acme'' (documentAt (map_of (tbRows (fst orphanCreated))) ''acme''))"
    using orphan_unreadable [OF assms data] by simp
  obtain d' reply where ld: "load ?p env ctx ''acme'' (fst orphanCreated) = (d', reply)" by fastforce
  have "isl reply"
    using table.pg.load_cases [of "fst orphanCreated" ?p env ctx "''acme''" d' reply] created ld unreadable
    by (cases reply) (auto simp: PostgresNew_def NewDurableProvider_def)
  then show ?thesis using created ld by simp
qed

theorem durable_create_unreadable_witness:
  "snd orphanCreated = Inr orphan \<and>
    isl (snd (load (PostgresNew tableDB DefaultLimits) exampleEnv None ''acme'' (fst orphanCreated)))"
  by (rule durable_create_unreadable [OF wfEnv_exampleEnv])

end
