(* ===== verification/Providers.thy ===== *)
theory Providers
  imports Durable
begin

text \<open>
  The \<^verbatim>\<open>Provider\<close> interface of \<^verbatim>\<open>provider.go\<close> as a record of operations, and the two providers of the
  package that keep flags themselves as values of it. Decorators (\<^verbatim>\<open>cache.go\<close>, \<^verbatim>\<open>fleet.go\<close>) take any such
  record.
\<close>

section \<open>The interface\<close>

text \<open>
  \<open>'s\<close> is the state behind the provider and \<open>'c\<close> what surrounds one call (the value of \<^verbatim>\<open>ctx.Err()\<close> when the
  provider looks at it, map iteration orders, other clients of its storage). \<open>pvTenantByteLimit\<close> is \<open>None\<close> when
  the dynamic type has no method \<^verbatim>\<open>TenantByteLimit() int\<close>.
\<close>

record ('c, 's) Provider =
  pvCapabilities :: Capabilities
  pvTenantByteLimit :: "int option"
  pvCreate :: "'c \<Rightarrow> string \<Rightarrow> Definition \<Rightarrow> string \<Rightarrow> 's \<Rightarrow> 's \<times> Definition res"
  pvUpdate :: "'c \<Rightarrow> string \<Rightarrow> Definition \<Rightarrow> 64 word \<Rightarrow> string \<Rightarrow> 's \<Rightarrow> 's \<times> Definition res"
  pvActivate :: "'c \<Rightarrow> string \<Rightarrow> string \<Rightarrow> 64 word \<Rightarrow> string \<Rightarrow> 's \<Rightarrow> 's \<times> Definition res"
  pvDeactivate :: "'c \<Rightarrow> string \<Rightarrow> string \<Rightarrow> 64 word \<Rightarrow> string \<Rightarrow> 's \<Rightarrow> 's \<times> Definition res"
  pvDelete :: "'c \<Rightarrow> string \<Rightarrow> string \<Rightarrow> 64 word \<Rightarrow> string \<Rightarrow> 's \<Rightarrow> 's \<times> Definition res"
  pvRestore :: "'c \<Rightarrow> string \<Rightarrow> string \<Rightarrow> 64 word \<Rightarrow> string \<Rightarrow> 's \<Rightarrow> 's \<times> Definition res"
  pvSnapshot :: "'c \<Rightarrow> string \<Rightarrow> 's \<Rightarrow> 's \<times> Snapshot res"
  pvAudit :: "'c \<Rightarrow> string \<Rightarrow> string \<Rightarrow> 's \<Rightarrow> 's \<times> AuditEntry list res"
  pvCreateGroup :: "'c \<Rightarrow> string \<Rightarrow> GroupDefinition \<Rightarrow> string \<Rightarrow> 's \<Rightarrow> 's \<times> GroupDefinition res"
  pvUpdateGroup :: "'c \<Rightarrow> string \<Rightarrow> GroupDefinition \<Rightarrow> 64 word \<Rightarrow> string \<Rightarrow> 's \<Rightarrow> 's \<times> GroupDefinition res"
  pvDeleteGroup :: "'c \<Rightarrow> string \<Rightarrow> string \<Rightarrow> 64 word \<Rightarrow> string \<Rightarrow> 's \<Rightarrow> 's \<times> GroupDefinition res"
  pvAssignGroup :: "'c \<Rightarrow> string \<Rightarrow> string \<Rightarrow> string \<Rightarrow> 64 word \<Rightarrow> string \<Rightarrow> 's \<Rightarrow> 's \<times> Definition res"
  pvRemoveGroup :: "'c \<Rightarrow> string \<Rightarrow> string \<Rightarrow> string \<Rightarrow> 64 word \<Rightarrow> string \<Rightarrow> 's \<Rightarrow> 's \<times> Definition res"
  pvExportDocument :: "'c \<Rightarrow> string \<Rightarrow> 's \<Rightarrow> 's \<times> string res"
  pvImportDocument :: "'c \<Rightarrow> string \<Rightarrow> string \<Rightarrow> ImportOptions \<Rightarrow> string \<Rightarrow> 's \<Rightarrow> 's \<times> ImportReport \<times> err option"
  pvStageUpdate :: "'c \<Rightarrow> string \<Rightarrow> Definition \<Rightarrow> 64 word \<Rightarrow> Time \<Rightarrow> string \<Rightarrow> 's \<Rightarrow> 's \<times> StagedChange res"
  pvApplyStage :: "'c \<Rightarrow> string \<Rightarrow> 64 word \<Rightarrow> string \<Rightarrow> 's \<Rightarrow> 's \<times> Definition res"
  pvApplyScheduled :: "'c \<Rightarrow> string \<Rightarrow> Time \<Rightarrow> string \<Rightarrow> 's \<Rightarrow> 's \<times> Definition list res"
  pvStagedChanges :: "'c \<Rightarrow> string \<Rightarrow> 's \<Rightarrow> 's \<times> StagedChange list res"
  pvCleanup :: "'c \<Rightarrow> string \<Rightarrow> CleanupOptions \<Rightarrow> 's \<Rightarrow> 's \<times> CleanupReport res"
  pvHealth :: "'c \<Rightarrow> 's \<Rightarrow> 's \<times> ProviderHealth"
  pvClose :: "'c \<Rightarrow> 's \<Rightarrow> 's \<times> err option"

section \<open>The memory provider\<close>

text \<open>A call of the memory provider sees \<^verbatim>\<open>ctx.Err()\<close> at admission, an import a second time after decoding.\<close>

record moment =
  moCtx :: "err option"
  moDecoded :: "err option"
  moEnv :: env

definition MemoryCapabilities :: Capabilities where
  "MemoryCapabilities = \<lparr> OptimisticConcurrency = True, AtomicMutations = True, cpSnapshots = True,
     cpAudit = True, cpGroups = True, ImportExport = True \<rparr>"

definition MemoryTenantByteLimit :: "Limits \<Rightarrow> int" where
  "MemoryTenantByteLimit limits = MaxKeyBytes limits"

definition MemoryHealth :: "err option \<Rightarrow> ProviderHealth" where
  "MemoryHealth ctx =
     (if ctx \<noteq> None then \<lparr> Healthy = False, hlCode = ''context_cancelled'' \<rparr>
      else \<lparr> Healthy = True, hlCode = ''ready'' \<rparr>)"

definition MemoryClose :: "err option \<Rightarrow> err option" where
  "MemoryClose ctx = ctx"

definition memoryProvider :: "Limits \<Rightarrow> (moment, MemoryProvider) Provider" where
  "memoryProvider limits = \<lparr>
     pvCapabilities = MemoryCapabilities,
     pvTenantByteLimit = Some (MemoryTenantByteLimit limits),
     pvCreate = (\<lambda>c. Create (moEnv c) (moCtx c)),
     pvUpdate = (\<lambda>c. Update (moEnv c) (moCtx c)),
     pvActivate = (\<lambda>c. Activate (moCtx c)),
     pvDeactivate = (\<lambda>c. Deactivate (moCtx c)),
     pvDelete = (\<lambda>c. Delete (moCtx c)),
     pvRestore = (\<lambda>c. Restore (moCtx c)),
     pvSnapshot = (\<lambda>c tenant p. (p, MemorySnapshot (moEnv c) (moCtx c) tenant p)),
     pvAudit = (\<lambda>c tenant key p. (p, Audit (moCtx c) tenant key p)),
     pvCreateGroup = (\<lambda>c. CreateGroup (moEnv c) (moCtx c)),
     pvUpdateGroup = (\<lambda>c. UpdateGroup (moEnv c) (moCtx c)),
     pvDeleteGroup = (\<lambda>c. DeleteGroup (moCtx c)),
     pvAssignGroup = (\<lambda>c. AssignGroup (moEnv c) (moCtx c)),
     pvRemoveGroup = (\<lambda>c. RemoveGroup (moCtx c)),
     pvExportDocument = (\<lambda>c tenant p. (p, ExportDocument (moEnv c) (moCtx c) tenant p)),
     pvImportDocument = (\<lambda>c. ImportBytes (moEnv c) (moCtx c) (moDecoded c)),
     pvStageUpdate = (\<lambda>c. StageUpdate (moEnv c) (moCtx c)),
     pvApplyStage = (\<lambda>c. ApplyStage (moEnv c) (moCtx c)),
     pvApplyScheduled = (\<lambda>c. ApplyScheduled (moEnv c) (moCtx c)),
     pvStagedChanges = (\<lambda>c tenant p. (p, StagedChanges (moEnv c) (moCtx c) tenant p)),
     pvCleanup = (\<lambda>c. Cleanup (moCtx c)),
     pvHealth = (\<lambda>c p. (p, MemoryHealth (moCtx c))),
     pvClose = (\<lambda>c p. (p, MemoryClose (moCtx c))) \<rparr>"

section \<open>The durable provider\<close>

definition durableProvider :: "'b DurableProvider \<Rightarrow> (surroundings, 'b) Provider" where
  "durableProvider p = \<lparr>
     pvCapabilities = DurableCapabilities p,
     pvTenantByteLimit = Some (TenantByteLimit p),
     pvCreate = DurableCreate p,
     pvUpdate = DurableUpdate p,
     pvActivate = DurableActivate p,
     pvDeactivate = DurableDeactivate p,
     pvDelete = DurableDelete p,
     pvRestore = DurableRestore p,
     pvSnapshot = DurableSnapshot p,
     pvAudit = DurableAudit p,
     pvCreateGroup = DurableCreateGroup p,
     pvUpdateGroup = DurableUpdateGroup p,
     pvDeleteGroup = DurableDeleteGroup p,
     pvAssignGroup = DurableAssignGroup p,
     pvRemoveGroup = DurableRemoveGroup p,
     pvExportDocument = DurableExportDocument p,
     pvImportDocument = DurableImportDocument p,
     pvStageUpdate = DurableStageUpdate p,
     pvApplyStage = DurableApplyStage p,
     pvApplyScheduled = DurableApplyScheduled p,
     pvStagedChanges = DurableStagedChanges p,
     pvCleanup = DurableCleanup p,
     pvHealth = (\<lambda>c. DurableHealth (atEntry c) p),
     pvClose = (\<lambda>c b. (b, DurableClose (atEntry c) p)) \<rparr>"

end
