(* ===== verification/Cache.thy ===== *)
theory Cache
  imports Providers
begin

text \<open>
  The bounded snapshot cache of \<^verbatim>\<open>cache.go\<close>. The cache keeps, next to the snapshots, one publication order for
  every tenant with outstanding refreshes. Those orders are shared by pointer: a refresh holds the pointer it
  was given at admission and compares it with the one in the map when it publishes. The model keeps the
  pointed-to structs in a list (\<open>chStates\<close>) and a pointer is an index of it; a new struct is appended, so a
  pointer is never given out twice.
\<close>

section \<open>Configuration\<close>

type_synonym FailurePolicy = "8 word"

definition FailClosed :: FailurePolicy where "FailClosed = 1"
definition FailOpen :: FailurePolicy where "FailOpen = 2"

text \<open>The clock is application code: only whether it is nil is configuration, its readings are inputs of the calls.\<close>

record CacheConfig =
  ccHasClock :: bool
  MaxStaleness :: Duration
  MaxOutageStaleness :: Duration
  ccFailurePolicy :: FailurePolicy
  MaxTenants :: int
  MaxTenantBytes :: int
  MaxFeaturesPerTenant :: int

record cachedSnapshot =
  csSnapshot :: Snapshot
  csFetched :: Time

record cacheRefreshState =
  crRunning :: "64 word"
  crNext :: "64 word"
  crPublished :: "64 word"

record CachedProvider =
  chConfig :: CacheConfig
  chEntries :: "cachedSnapshot gomap"
  chRefreshes :: "nat gomap"
  chStates :: "cacheRefreshState list"

text \<open>
  An interface value is nil, or has a dynamic type whose kind decides whether the value inside can itself be
  nil; \<open>dvProvider\<close> is what its methods do.
\<close>

datatype reflectKind = KindChan | KindFunc | KindInterface | KindMap | KindPointer | KindSlice | KindOther

record ('c, 's) dynamicValue =
  dvKind :: reflectKind
  dvIsNil :: bool
  dvProvider :: "('c, 's) Provider"

definition nilCacheProvider :: "('c, 's) dynamicValue option \<Rightarrow> bool" where
  "nilCacheProvider provider =
     (case provider of
        None \<Rightarrow> True
      | Some v \<Rightarrow> (case dvKind v of KindOther \<Rightarrow> False | _ \<Rightarrow> dvIsNil v))"

definition effectiveTenantBytes :: "('c, 's) Provider \<Rightarrow> CacheConfig \<Rightarrow> int res" where
  "effectiveTenantBytes provider config =
     (case pvTenantByteLimit provider of
        Some limit \<Rightarrow>
          if limit \<le> 0 then Inl (ErrMsg ''provider tenant byte bound must be positive'')
          else Inr (min (if MaxTenantBytes config = 0 then limit else MaxTenantBytes config) limit)
      | None \<Rightarrow>
          if MaxTenantBytes config = 0 then Inl (ErrMsg ''cache tenant byte bound is required for this provider'')
          else Inr (MaxTenantBytes config))"

definition NewCachedProvider :: "('c, 's) dynamicValue option \<Rightarrow> CacheConfig \<Rightarrow> CachedProvider res" where
  "NewCachedProvider provider config =
     guardErr (seqErr [
       check (nilCacheProvider provider \<or> \<not> ccHasClock config) ''cache provider and clock are required'',
       check (MaxStaleness config \<le> 0 \<or> MaxOutageStaleness config < MaxStaleness config) ''cache staleness bounds are invalid'',
       check (ccFailurePolicy config \<noteq> FailOpen \<and> ccFailurePolicy config \<noteq> FailClosed) ''cache failure policy is invalid'',
       check (MaxTenants config \<le> 0) ''cache tenant bound must be positive'',
       check (MaxTenantBytes config < 0) ''cache tenant byte bound must be positive''])
     (rbind (effectiveTenantBytes (dvProvider (the provider)) config) (\<lambda>bytes.
        Inr \<lparr> chConfig = config\<lparr> MaxTenantBytes := bytes,
                MaxFeaturesPerTenant := (if MaxFeaturesPerTenant config \<le> 0 then MaxFeatures DefaultLimits
                  else MaxFeaturesPerTenant config) \<rparr>,
              chEntries = [], chRefreshes = [], chStates = [] \<rparr>))"

definition CachedTenantByteLimit :: "CachedProvider \<Rightarrow> int" where
  "CachedTenantByteLimit cache = MaxTenantBytes (chConfig cache)"

section \<open>Critical sections\<close>

text \<open>
  Each of the following runs under the write lock, so it is atomic. Outside them a goroutine holds nothing, and
  other goroutines may run theirs.
\<close>

definition beginRefresh :: "string \<Rightarrow> CachedProvider \<Rightarrow> CachedProvider \<times> nat \<times> 64 word" where
  "beginRefresh tenant cache =
     (let fresh = length (chStates cache);
          admit = (\<lambda>cache a. let state = chStates cache ! a;
              state' = state\<lparr> crNext := crNext state + 1, crRunning := crRunning state + 1 \<rparr>
            in (cache\<lparr> chStates := (chStates cache)[a := state'] \<rparr>, a, crNext state'));
          rotated = cache\<lparr> chStates := chStates cache @ [\<lparr> crRunning = 0, crNext = 0, crPublished = 0 \<rparr>],
            chRefreshes := AList.update tenant fresh (chRefreshes cache) \<rparr>
      in case map_of (chRefreshes cache) tenant of
           None \<Rightarrow> admit rotated fresh
         | Some a \<Rightarrow> if crNext (chStates cache ! a) = NOT 0 then admit rotated fresh else admit cache a)"

definition endRefresh :: "string \<Rightarrow> nat \<Rightarrow> CachedProvider \<Rightarrow> CachedProvider" where
  "endRefresh tenant a cache =
     (let state = chStates cache ! a;
          state' = state\<lparr> crRunning := crRunning state - 1 \<rparr>;
          cache' = cache\<lparr> chStates := (chStates cache)[a := state'] \<rparr>
      in if crRunning state' = 0 \<and> map_of (chRefreshes cache') tenant = Some a
         then cache'\<lparr> chRefreshes := AList.delete tenant (chRefreshes cache') \<rparr> else cache')"

text \<open>The two loops of the eviction: the oldest fetch time, then the least tenant fetched then.\<close>

fun oldestTime :: "(string \<times> cachedSnapshot) list \<Rightarrow> Time option \<Rightarrow> Time option" where
  "oldestTime [] oldest = oldest"
| "oldestTime ((tenant, entry) # rest) oldest =
     oldestTime rest (case oldest of
        None \<Rightarrow> Some (csFetched entry)
      | Some t \<Rightarrow> if csFetched entry < t then Some (csFetched entry) else Some t)"

fun oldestTenant :: "Time \<Rightarrow> (string \<times> cachedSnapshot) list \<Rightarrow> string option \<Rightarrow> string option" where
  "oldestTenant t [] found = found"
| "oldestTenant t ((tenant, entry) # rest) found =
     oldestTenant t rest
       (if csFetched entry = t \<and> (case found of None \<Rightarrow> True | Some oldest \<Rightarrow> tenant < oldest) then Some tenant
        else found)"

text \<open>
  Both variables start at their zero value: the zero time, and the empty tenant, which is never a key of the
  cache.
\<close>

definition evictOldestLocked :: "env \<Rightarrow> env \<Rightarrow> CachedProvider \<Rightarrow> CachedProvider" where
  "evictOldestLocked env env' cache =
     (let t = (case oldestTime (rng env (chEntries cache)) None of None \<Rightarrow> 0 | Some t \<Rightarrow> t);
          tenant = (case oldestTenant t (rng env' (chEntries cache)) None of None \<Rightarrow> [] | Some k \<Rightarrow> k)
      in cache\<lparr> chEntries := AList.delete tenant (chEntries cache) \<rparr>)"

definition publish ::
  "env \<Rightarrow> env \<Rightarrow> string \<Rightarrow> nat \<Rightarrow> 64 word \<Rightarrow> cachedSnapshot \<Rightarrow> CachedProvider \<Rightarrow> CachedProvider" where
  "publish env env' tenant a sequence entry cache =
     (if map_of (chRefreshes cache) tenant = Some a \<and> sequence > crPublished (chStates cache ! a) then
        let cache' = (if \<not> hasKey (chEntries cache) tenant \<and> len (chEntries cache) \<ge> MaxTenants (chConfig cache)
              then evictOldestLocked env env' cache else cache)
        in cache'\<lparr> chEntries := AList.update tenant entry (chEntries cache'),
             chStates := (chStates cache')[a := (chStates cache' ! a)\<lparr> crPublished := sequence \<rparr>] \<rparr>
      else cache)"

definition invalidateOnSuccess :: "string \<Rightarrow> err option \<Rightarrow> CachedProvider \<Rightarrow> CachedProvider" where
  "invalidateOnSuccess tenant err cache =
     (if err \<noteq> None then cache
      else cache\<lparr> chEntries := AList.delete tenant (chEntries cache),
                  chRefreshes := AList.delete tenant (chRefreshes cache) \<rparr>)"

definition clearCache :: "CachedProvider \<Rightarrow> CachedProvider" where
  "clearCache cache = cache\<lparr> chEntries := [], chRefreshes := [] \<rparr>"

definition boundedAge :: "Time \<Rightarrow> Time \<Rightarrow> Duration" where
  "boundedAge now fetched = (if now < fetched then 0 else timeSub now fetched)"

section \<open>Reading snapshots\<close>

text \<open>
  What surrounds one refresh: \<^verbatim>\<open>ctx.Err()\<close> at admission, the circumstances of the delegated call, the clock after
  it, the iteration orders of an eviction, and what other goroutines do to the provider and the cache after the
  admission, after the fetch and after the publication.
\<close>

record ('c, 's) refreshCall =
  rfCtx :: "err option"
  rfCall :: 'c
  rfFetched :: Time
  rfOrder :: env
  rfOrder' :: env
  rfAdmitted :: "'s \<times> CachedProvider \<Rightarrow> 's \<times> CachedProvider"
  rfReplied :: "'s \<times> CachedProvider \<Rightarrow> 's \<times> CachedProvider"
  rfPublished :: "'s \<times> CachedProvider \<Rightarrow> 's \<times> CachedProvider"

definition acceptSnapshot :: "CacheConfig \<Rightarrow> Snapshot res \<Rightarrow> Snapshot res" where
  "acceptSnapshot config reply =
     rbind reply (\<lambda>snapshot.
       if len (snDefinitions snapshot) > MaxFeaturesPerTenant config
       then Inl (ErrMsg ''cached feature count exceeds'') else Inr snapshot)"

definition Refresh ::
  "('c, 's) Provider \<Rightarrow> ('c, 's) refreshCall \<Rightarrow> string \<Rightarrow> 's \<times> CachedProvider \<Rightarrow> ('s \<times> CachedProvider) \<times> Snapshot res" where
  "Refresh P call tenant world =
     guardOp world (providerInput (rfCtx call) tenant (MaxTenantBytes (chConfig (snd world))))
       (case world of (s, cache) \<Rightarrow>
        case beginRefresh tenant cache of (cache1, a, sequence) \<Rightarrow>
        case rfAdmitted call (s, cache1) of (s1, cache2) \<Rightarrow>
        case pvSnapshot P (rfCall call) tenant s1 of (s2, reply) \<Rightarrow>
        case rfReplied call (s2, cache2) of (s3, cache3) \<Rightarrow>
          (case acceptSnapshot (chConfig cache) reply of
             Inl e \<Rightarrow> ((s3, endRefresh tenant a cache3), Inl e)
           | Inr snapshot \<Rightarrow>
               (case rfPublished call (s3, publish (rfOrder call) (rfOrder' call) tenant a sequence
                       \<lparr> csSnapshot = snapshot, csFetched = rfFetched call \<rparr> cache3) of
                  (s4, cache4) \<Rightarrow> ((s4, endRefresh tenant a cache4), Inr snapshot))))"

record ('c, 's) snapshotCall =
  snCtx :: "err option"
  snNow :: Time
  snRead :: "'s \<times> CachedProvider \<Rightarrow> 's \<times> CachedProvider"
  snRefresh :: "('c, 's) refreshCall"

definition CachedSnapshot ::
  "('c, 's) Provider \<Rightarrow> ('c, 's) snapshotCall \<Rightarrow> string \<Rightarrow> 's \<times> CachedProvider \<Rightarrow> ('s \<times> CachedProvider) \<times> Snapshot res" where
  "CachedSnapshot P call tenant world =
     guardOp world (providerInput (snCtx call) tenant (MaxTenantBytes (chConfig (snd world))))
       (let config = chConfig (snd world);
            found = map_of (chEntries (snd world)) tenant;
            within = (\<lambda>bound. case found of None \<Rightarrow> False | Some entry \<Rightarrow> boundedAge (snNow call) (csFetched entry) \<le> bound)
        in if within (MaxStaleness config) then (world, Inr (csSnapshot (the found)))
           else case Refresh P (snRefresh call) tenant (snRead call world) of
             (world', Inr snapshot) \<Rightarrow> (world', Inr snapshot)
           | (world', Inl e) \<Rightarrow>
               if ccFailurePolicy config = FailOpen \<and> within (MaxOutageStaleness config)
               then (world', Inr (csSnapshot (the found))) else (world', Inl e))"

section \<open>Delegated operations\<close>

text \<open>
  A mutating method checks its input, delegates, and on success drops the tenant from the cache. \<open>effective\<close>
  tells from the result whether the method counts it as a change.
\<close>

definition cachedMutation ::
  "err option \<Rightarrow> string \<Rightarrow> ('s \<Rightarrow> 's \<times> 'a res) \<Rightarrow> ('a \<Rightarrow> bool) \<Rightarrow> 's \<times> CachedProvider \<Rightarrow> ('s \<times> CachedProvider) \<times> 'a res" where
  "cachedMutation ctx tenant operation effective world =
     guardOp world (providerInput ctx tenant (MaxTenantBytes (chConfig (snd world))))
       (case world of (s, cache) \<Rightarrow>
          (case operation s of
             (s', Inl e) \<Rightarrow> ((s', invalidateOnSuccess tenant (Some e) cache), Inl e)
           | (s', Inr result) \<Rightarrow>
               ((s', if effective result then invalidateOnSuccess tenant None cache else cache), Inr result)))"

definition cachedRead ::
  "err option \<Rightarrow> string \<Rightarrow> ('s \<Rightarrow> 's \<times> 'a res) \<Rightarrow> 's \<times> CachedProvider \<Rightarrow> ('s \<times> CachedProvider) \<times> 'a res" where
  "cachedRead ctx tenant operation world =
     guardOp world (providerInput ctx tenant (MaxTenantBytes (chConfig (snd world))))
       (case world of (s, cache) \<Rightarrow> (case operation s of (s', r) \<Rightarrow> ((s', cache), r)))"

definition CachedCreate where
  "CachedCreate P ctx call tenant d actor =
     cachedMutation ctx tenant (pvCreate P call tenant d actor) (\<lambda>result. True)"

definition CachedUpdate where
  "CachedUpdate P ctx call tenant d expected actor =
     cachedMutation ctx tenant (pvUpdate P call tenant d expected actor) (\<lambda>result. True)"

definition CachedActivate where
  "CachedActivate P ctx call tenant key expected actor =
     cachedMutation ctx tenant (pvActivate P call tenant key expected actor) (\<lambda>result. True)"

definition CachedDeactivate where
  "CachedDeactivate P ctx call tenant key expected actor =
     cachedMutation ctx tenant (pvDeactivate P call tenant key expected actor) (\<lambda>result. True)"

definition CachedDelete where
  "CachedDelete P ctx call tenant key expected actor =
     cachedMutation ctx tenant (pvDelete P call tenant key expected actor) (\<lambda>result. True)"

definition CachedRestore where
  "CachedRestore P ctx call tenant key expected actor =
     cachedMutation ctx tenant (pvRestore P call tenant key expected actor) (\<lambda>result. True)"

definition CachedCreateGroup where
  "CachedCreateGroup P ctx call tenant g actor =
     cachedMutation ctx tenant (pvCreateGroup P call tenant g actor) (\<lambda>result. True)"

definition CachedUpdateGroup where
  "CachedUpdateGroup P ctx call tenant g expected actor =
     cachedMutation ctx tenant (pvUpdateGroup P call tenant g expected actor) (\<lambda>result. True)"

definition CachedDeleteGroup where
  "CachedDeleteGroup P ctx call tenant groupKey expected actor =
     cachedMutation ctx tenant (pvDeleteGroup P call tenant groupKey expected actor) (\<lambda>result. True)"

definition CachedAssignGroup where
  "CachedAssignGroup P ctx call tenant featureKey groupKey expected actor =
     cachedMutation ctx tenant (pvAssignGroup P call tenant featureKey groupKey expected actor) (\<lambda>result. True)"

definition CachedRemoveGroup where
  "CachedRemoveGroup P ctx call tenant featureKey groupKey expected actor =
     cachedMutation ctx tenant (pvRemoveGroup P call tenant featureKey groupKey expected actor) (\<lambda>result. True)"

definition CachedAudit where
  "CachedAudit P ctx call tenant key = cachedRead ctx tenant (pvAudit P call tenant key)"

definition CachedExportDocument where
  "CachedExportDocument P ctx call tenant = cachedRead ctx tenant (pvExportDocument P call tenant)"

text \<open>An import returns its report with the error, and a dry run never invalidates.\<close>

definition CachedImportDocument ::
  "('c, 's) Provider \<Rightarrow> err option \<Rightarrow> 'c \<Rightarrow> string \<Rightarrow> string \<Rightarrow> ImportOptions \<Rightarrow> string \<Rightarrow> 's \<times> CachedProvider \<Rightarrow>
     ('s \<times> CachedProvider) \<times> ImportReport \<times> err option" where
  "CachedImportDocument P ctx call tenant data options actor world =
     (case providerInput ctx tenant (MaxTenantBytes (chConfig (snd world))) of
        Some e \<Rightarrow> (world, emptyReport False, Some e)
      | None \<Rightarrow>
          (case world of (s, cache) \<Rightarrow>
           case pvImportDocument P call tenant data options actor s of (s', report, e) \<Rightarrow>
             ((s', if \<not> ioDryRun options then invalidateOnSuccess tenant e cache else cache), report, e)))"

definition CachedStageUpdate where
  "CachedStageUpdate P ctx call tenant d expected applyAt actor = cachedRead ctx tenant (pvStageUpdate P call tenant d expected applyAt actor)"

definition CachedApplyStage where
  "CachedApplyStage P ctx call tenant sid actor =
     cachedMutation ctx tenant (pvApplyStage P call tenant sid actor) (\<lambda>result. True)"

definition CachedApplyScheduled where
  "CachedApplyScheduled P ctx call tenant now actor =
     cachedMutation ctx tenant (pvApplyScheduled P call tenant now actor) (\<lambda>result. result \<noteq> [])"

definition CachedStagedChanges where
  "CachedStagedChanges P ctx call tenant = cachedRead ctx tenant (pvStagedChanges P call tenant)"

definition CachedCleanup where
  "CachedCleanup P ctx call tenant options =
     cachedMutation ctx tenant (pvCleanup P call tenant options) (\<lambda>result. crDeletedFeatures result > 0)"

text \<open>Health and Close; Close clears the cache before it delegates and admits later calls as before.\<close>

definition CachedHealth :: "('c, 's) Provider \<Rightarrow> 'c \<Rightarrow> 's \<times> CachedProvider \<Rightarrow> ('s \<times> CachedProvider) \<times> ProviderHealth" where
  "CachedHealth P call world = (case world of (s, cache) \<Rightarrow> case pvHealth P call s of (s', health) \<Rightarrow> ((s', cache), health))"

definition CachedClose :: "('c, 's) Provider \<Rightarrow> 'c \<Rightarrow> 's \<times> CachedProvider \<Rightarrow> ('s \<times> CachedProvider) \<times> err option" where
  "CachedClose P call world =
     (case world of (s, cache) \<Rightarrow> case pvClose P call s of (s', e) \<Rightarrow> ((s', clearCache cache), e))"

section \<open>The cache as a provider\<close>

record ('c, 's) cacheCall =
  clCtx :: "err option"
  clCall :: 'c
  clSnapshot :: "('c, 's) snapshotCall"

definition cachedProvider :: "('c, 's) Provider \<Rightarrow> CachedProvider \<Rightarrow> (('c, 's) cacheCall, 's \<times> CachedProvider) Provider" where
  "cachedProvider P cache = \<lparr>
     pvCapabilities = pvCapabilities P,
     pvTenantByteLimit = Some (CachedTenantByteLimit cache),
     pvCreate = (\<lambda>c. CachedCreate P (clCtx c) (clCall c)),
     pvUpdate = (\<lambda>c. CachedUpdate P (clCtx c) (clCall c)),
     pvActivate = (\<lambda>c. CachedActivate P (clCtx c) (clCall c)),
     pvDeactivate = (\<lambda>c. CachedDeactivate P (clCtx c) (clCall c)),
     pvDelete = (\<lambda>c. CachedDelete P (clCtx c) (clCall c)),
     pvRestore = (\<lambda>c. CachedRestore P (clCtx c) (clCall c)),
     pvSnapshot = (\<lambda>c. CachedSnapshot P (clSnapshot c)),
     pvAudit = (\<lambda>c. CachedAudit P (clCtx c) (clCall c)),
     pvCreateGroup = (\<lambda>c. CachedCreateGroup P (clCtx c) (clCall c)),
     pvUpdateGroup = (\<lambda>c. CachedUpdateGroup P (clCtx c) (clCall c)),
     pvDeleteGroup = (\<lambda>c. CachedDeleteGroup P (clCtx c) (clCall c)),
     pvAssignGroup = (\<lambda>c. CachedAssignGroup P (clCtx c) (clCall c)),
     pvRemoveGroup = (\<lambda>c. CachedRemoveGroup P (clCtx c) (clCall c)),
     pvExportDocument = (\<lambda>c. CachedExportDocument P (clCtx c) (clCall c)),
     pvImportDocument = (\<lambda>c. CachedImportDocument P (clCtx c) (clCall c)),
     pvStageUpdate = (\<lambda>c. CachedStageUpdate P (clCtx c) (clCall c)),
     pvApplyStage = (\<lambda>c. CachedApplyStage P (clCtx c) (clCall c)),
     pvApplyScheduled = (\<lambda>c. CachedApplyScheduled P (clCtx c) (clCall c)),
     pvStagedChanges = (\<lambda>c. CachedStagedChanges P (clCtx c) (clCall c)),
     pvCleanup = (\<lambda>c. CachedCleanup P (clCtx c) (clCall c)),
     pvHealth = (\<lambda>c. CachedHealth P (clCall c)),
     pvClose = (\<lambda>c. CachedClose P (clCall c)) \<rparr>"

end
