(* ===== verification/Cache_Laws.thy ===== *)
theory Cache_Laws
  imports Cache
begin

text \<open>
  Laws of the cache: publication tickets and what supersedes them, the eviction, and the interleavings of any
  number of refreshes and mutations over one provider, with the invariants they keep.
\<close>

section \<open>Critical sections in any order\<close>

text \<open>Any critical section of any goroutine, with any arguments.\<close>

inductive cacheOp :: "CachedProvider \<Rightarrow> CachedProvider \<Rightarrow> bool" where
  op_begin: "beginRefresh t c = (c', a, q) \<Longrightarrow> cacheOp c c'"
| op_end: "cacheOp c (endRefresh t a c)"
| op_publish: "cacheOp c (publish env env' t a q entry c)"
| op_invalidate: "cacheOp c (invalidateOnSuccess t e c)"
| op_clear: "cacheOp c (clearCache c)"

abbreviation cacheRun :: "CachedProvider \<Rightarrow> CachedProvider \<Rightarrow> bool" where
  "cacheRun \<equiv> cacheOp\<^sup>*\<^sup>*"

definition wfPointers :: "CachedProvider \<Rightarrow> bool" where
  "wfPointers c \<longleftrightarrow> (\<forall>t a. map_of (chRefreshes c) t = Some a \<longrightarrow> a < length (chStates c))"

text \<open>Admission, in the two cases of the code.\<close>

lemma beginRefresh_cases:
  assumes "beginRefresh t c = (c', a, q)"
  obtains (fresh) "a = length (chStates c)" "q = 1"
      "c' = c\<lparr> chStates := chStates c @ [\<lparr> crRunning = 1, crNext = 1, crPublished = 0 \<rparr>],
             chRefreshes := AList.update t a (chRefreshes c) \<rparr>"
      "\<And>b. map_of (chRefreshes c) t = Some b \<Longrightarrow> crNext (chStates c ! b) = - 1"
  | (joined) "map_of (chRefreshes c) t = Some a" "crNext (chStates c ! a) \<noteq> - 1" "q = crNext (chStates c ! a) + 1"
      "c' = c\<lparr> chStates := (chStates c)[a := (chStates c ! a)\<lparr> crNext := q, crRunning := crRunning (chStates c ! a) + 1 \<rparr>] \<rparr>"
  using assms by (auto simp: beginRefresh_def Let_def nth_append list_update_append split: option.splits if_splits)

lemma evict_fields [simp]:
  "chRefreshes (evictOldestLocked env env' c) = chRefreshes c"
  "chStates (evictOldestLocked env env' c) = chStates c"
  "chConfig (evictOldestLocked env env' c) = chConfig c"
  by (simp_all add: evictOldestLocked_def Let_def)

lemma publish_fields [simp]:
  "chRefreshes (publish env env' t a q entry c) = chRefreshes c"
  "chConfig (publish env env' t a q entry c) = chConfig c"
  "length (chStates (publish env env' t a q entry c)) = length (chStates c)"
  by (simp_all add: publish_def Let_def)

lemma publish_states:
  "chStates (publish env env' t a q entry c) =
     (if map_of (chRefreshes c) t = Some a \<and> q > crPublished (chStates c ! a)
      then (chStates c)[a := (chStates c ! a)\<lparr> crPublished := q \<rparr>] else chStates c)"
  by (simp add: publish_def Let_def)

lemma endRefresh_fields [simp]:
  "chEntries (endRefresh t a c) = chEntries c"
  "chConfig (endRefresh t a c) = chConfig c"
  "length (chStates (endRefresh t a c)) = length (chStates c)"
  by (simp_all add: endRefresh_def Let_def)

lemma endRefresh_states:
  "chStates (endRefresh t a c) = (chStates c)[a := (chStates c ! a)\<lparr> crRunning := crRunning (chStates c ! a) - 1 \<rparr>]"
  by (simp add: endRefresh_def Let_def)

lemma endRefresh_refreshes:
  "map_of (chRefreshes (endRefresh t a c)) u = Some b \<Longrightarrow> map_of (chRefreshes c) u = Some b"
  by (auto simp: endRefresh_def Let_def split: if_splits)

lemma invalidate_fields [simp]:
  "chConfig (invalidateOnSuccess t e c) = chConfig c"
  "chStates (invalidateOnSuccess t e c) = chStates c"
  "map_of (chRefreshes (invalidateOnSuccess t None c)) = (map_of (chRefreshes c))(t := None)"
  "chEntries (invalidateOnSuccess t None c) = AList.delete t (chEntries c)"
  by (simp_all add: invalidateOnSuccess_def)

lemma invalidate_refreshes:
  "map_of (chRefreshes (invalidateOnSuccess t e c)) u = Some b \<Longrightarrow> map_of (chRefreshes c) u = Some b"
  by (auto simp: invalidateOnSuccess_def split: if_splits)

lemma clear_fields [simp]:
  "chConfig (clearCache c) = chConfig c" "chStates (clearCache c) = chStates c"
  "chRefreshes (clearCache c) = []" "chEntries (clearCache c) = []"
  by (simp_all add: clearCache_def)

lemma wfPointers_step: "cacheOp c c' \<Longrightarrow> wfPointers c \<Longrightarrow> wfPointers c'"
proof (induction rule: cacheOp.induct)
  case (op_begin t c c' a q)
  from op_begin(1) show ?case
    by (cases rule: beginRefresh_cases) (use op_begin(2) in \<open>auto simp: wfPointers_def less_SucI split: if_splits\<close>)
qed (auto simp: wfPointers_def dest: endRefresh_refreshes invalidate_refreshes)

lemma wfPointers_run: "cacheRun c c' \<Longrightarrow> wfPointers c \<Longrightarrow> wfPointers c'"
  by (induction rule: rtranclp_induct) (auto intro: wfPointers_step)

section \<open>Tickets\<close>

text \<open>
  A ticket is the pointer and the sequence number a refresh got at admission. It is issued while its number is
  not above the counter of its state, and superseded once the tenant has another state, or none, or a
  publication with at least its number.
\<close>

definition issued :: "string \<Rightarrow> nat \<Rightarrow> 64 word \<Rightarrow> CachedProvider \<Rightarrow> bool" where
  "issued t a q c \<longleftrightarrow> wfPointers c \<and> a < length (chStates c) \<and>
     (map_of (chRefreshes c) t = Some a \<longrightarrow> q \<le> crNext (chStates c ! a))"

definition superseded :: "string \<Rightarrow> nat \<Rightarrow> 64 word \<Rightarrow> CachedProvider \<Rightarrow> bool" where
  "superseded t a q c \<longleftrightarrow> wfPointers c \<and> a < length (chStates c) \<and>
     (map_of (chRefreshes c) t = Some a \<longrightarrow> q \<le> crPublished (chStates c ! a))"

lemma unat_Suc64: "w \<noteq> - 1 \<Longrightarrow> unat (w + (1 :: 64 word)) = Suc (unat w)"
  using unatSuc [of w] by (metis add.commute add_eq_0_iff)

lemma word_less_Suc: "w \<noteq> - 1 \<Longrightarrow> w < w + (1 :: 64 word)"
  by (simp add: word_less_nat_alt unat_Suc64)

lemma begin_issued:
  assumes "beginRefresh t c = (c', a, q)" "wfPointers c"
  shows "issued t a q c'"
proof -
  have "wfPointers c'" using assms by (blast intro: wfPointers_step op_begin)
  with assms show ?thesis
    by (elim beginRefresh_cases) (simp_all add: issued_def nth_append wfPointers_def)
qed

lemma nth_updated: "a < length xs \<Longrightarrow> xs[b := y] ! a = (if b = a then y else xs ! a)"
  by simp

lemma states_monotone:
  assumes "cacheOp c c'" "a < length (chStates c)" "wfPointers c"
  shows "a < length (chStates c') \<and> crNext (chStates c ! a) \<le> crNext (chStates c' ! a) \<and>
    crPublished (chStates c ! a) \<le> crPublished (chStates c' ! a)"
  using assms
proof (cases rule: cacheOp.cases)
  case (op_begin t b q)
  from op_begin show ?thesis
  proof (cases rule: beginRefresh_cases)
    case joined
    then show ?thesis
      using assms(2) word_less_Suc [of "crNext (chStates c ! b)"] by (cases "b = a") auto
  qed (use assms(2) in \<open>auto simp: nth_append\<close>)
qed (auto simp: endRefresh_states publish_states nth_updated)

lemma refresh_pointer_kept:
  assumes "cacheOp c c'" "a < length (chStates c)" "map_of (chRefreshes c') t = Some a"
  shows "map_of (chRefreshes c) t = Some a"
  using assms
proof (cases rule: cacheOp.cases)
  case (op_begin u b q)
  from op_begin show ?thesis
    by (cases rule: beginRefresh_cases) (use assms(2,3) in \<open>auto split: if_splits\<close>)
qed (auto dest: endRefresh_refreshes invalidate_refreshes)

lemma issued_step: "cacheOp c c' \<Longrightarrow> issued t a q c \<Longrightarrow> issued t a q c'"
  using states_monotone [of c c' a] refresh_pointer_kept [of c c' a t] wfPointers_step [of c c']
  by (auto simp: issued_def)

lemma superseded_step: "cacheOp c c' \<Longrightarrow> superseded t a q c \<Longrightarrow> superseded t a q c'"
  using states_monotone [of c c' a] refresh_pointer_kept [of c c' a t] wfPointers_step [of c c']
  by (auto simp: superseded_def)

lemma issued_run: "cacheRun c c' \<Longrightarrow> issued t a q c \<Longrightarrow> issued t a q c'"
  by (induction rule: rtranclp_induct) (auto intro: issued_step)

lemma superseded_run: "cacheRun c c' \<Longrightarrow> superseded t a q c \<Longrightarrow> superseded t a q c'"
  by (induction rule: rtranclp_induct) (auto intro: superseded_step)

lemma superseded_publish: "superseded t a q c \<Longrightarrow> publish env env' t a q entry c = c"
  by (auto simp: superseded_def publish_def)

text \<open>A later admission gets a larger number of the same state, or another state.\<close>

lemma later_ticket:
  assumes "beginRefresh t c = (c', b, r)" "issued t a q c"
  shows "if b = a then q < r else superseded t a q c'"
  using assms(1)
proof (cases rule: beginRefresh_cases)
  case fresh
  then show ?thesis
    using assms wfPointers_step [OF op_begin [OF assms(1)]] by (auto simp: issued_def superseded_def)
next
  case joined
  then show ?thesis
    using assms wfPointers_step [OF op_begin [OF assms(1)]] word_less_Suc [of "crNext (chStates c ! b)"]
    by (auto simp: issued_def superseded_def)
qed

lemma published_supersedes:
  assumes "issued t a q c" "q < r" "publish env env' t a r entry c \<noteq> c"
  shows "superseded t a q (publish env env' t a r entry c)"
  using assms wfPointers_step [OF op_publish, of c env env' t a r entry]
  by (auto simp: issued_def superseded_def publish_def Let_def split: if_splits)

text \<open>What overtakes the reads admitted before it: a local invalidation, Close, or a newer publication.\<close>

inductive overtakes :: "string \<Rightarrow> CachedProvider \<Rightarrow> CachedProvider \<Rightarrow> bool" for t where
  overtakes_invalidate: "overtakes t c (invalidateOnSuccess t None c)"
| overtakes_close: "overtakes t c (clearCache c)"
| overtakes_publish: "beginRefresh t c = (c1, a, q) \<Longrightarrow> cacheRun c1 c2 \<Longrightarrow>
    publish env env' t a q entry c2 \<noteq> c2 \<Longrightarrow> overtakes t c (publish env env' t a q entry c2)"

lemma overtaken: "overtakes t c c' \<Longrightarrow> issued t a q c \<Longrightarrow> superseded t a q c'"
proof (induction rule: overtakes.induct)
  case (overtakes_publish c c1 b r c2 env env' entry)
  have run: "issued t a q c2"
    using overtakes_publish by (meson issued_run issued_step op_begin)
  show ?case
  proof (cases "b = a")
    case True
    then show ?thesis using later_ticket [OF overtakes_publish(1,4)] published_supersedes run overtakes_publish(3) by simp
  next
    case False
    then have "superseded t a q c2" using later_ticket [OF overtakes_publish(1,4)] superseded_run [OF overtakes_publish(2)] by simp
    then show ?thesis by (rule superseded_step [OF op_publish])
  qed
next
  case (overtakes_invalidate c)
  then show ?case using wfPointers_step [OF op_invalidate, of c t None] by (simp add: issued_def superseded_def)
next
  case (overtakes_close c)
  then show ?case using wfPointers_step [OF op_clear, of c] by (simp add: issued_def superseded_def)
qed

section \<open>Eviction\<close>

lemma oldestTime_Some: "oldestTime xs (Some t) = Some (fold min (map (csFetched \<circ> snd) xs) t)"
  by (induction xs arbitrary: t) (auto simp: min_def)

lemma oldestTime_Min:
  "xs \<noteq> [] \<Longrightarrow> oldestTime xs None = Some (Min (csFetched ` snd ` set xs))"
  by (cases xs) (auto simp: oldestTime_Some image_image Min.set_eq_fold [symmetric])

lemma oldestTenant_Some:
  "oldestTenant t xs (Some k) = Some (fold min (map fst (filter (\<lambda>(k, e). csFetched e = t) xs)) k)"
  by (induction xs arbitrary: k) (auto simp: min_def)

lemma oldestTenant_Min:
  "\<exists>k e. (k, e) \<in> set xs \<and> csFetched e = t \<Longrightarrow>
   oldestTenant t xs None = Some (Min {k. \<exists>e. (k, e) \<in> set xs \<and> csFetched e = t})"
proof (induction xs)
  case (Cons x xs)
  obtain k e where x: "x = (k, e)" by (cases x)
  show ?case
  proof (cases "csFetched e = t")
    case True
    have "{k'. \<exists>e. (k', e) \<in> set (x # xs) \<and> csFetched e = t} = set (k # map fst (filter (\<lambda>(k, e). csFetched e = t) xs))"
      using True by (force simp: x)
    then show ?thesis using True by (simp only: Min.set_eq_fold) (simp add: x oldestTenant_Some)
  next
    case False
    then have "{k'. \<exists>e. (k', e) \<in> set (x # xs) \<and> csFetched e = t} = {k'. \<exists>e. (k', e) \<in> set xs \<and> csFetched e = t}"
      by (auto simp: x)
    then show ?thesis using Cons False by (auto simp: x)
  qed
qed simp

text \<open>The victim: the least tenant among the entries with the oldest fetch time. Map order plays no role.\<close>

definition victim :: "cachedSnapshot gomap \<Rightarrow> string" where
  "victim entries = Min {k. \<exists>e. (k, e) \<in> set entries \<and> csFetched e = Min (csFetched ` snd ` set entries)}"

lemma victim_oldest:
  assumes "entries \<noteq> []"
  shows "\<exists>e. (victim entries, e) \<in> set entries \<and> (\<forall>(k, e')\<in>set entries. csFetched e \<le> csFetched e' \<and>
    (csFetched e' = csFetched e \<longrightarrow> victim entries \<le> k))"
proof -
  let ?m = "Min (csFetched ` snd ` set entries)"
  let ?K = "{k. \<exists>e. (k, e) \<in> set entries \<and> csFetched e = ?m}"
  have "?m \<in> csFetched ` snd ` set entries" using assms by (intro Min_in) auto
  then have "?K \<noteq> {}" by force
  moreover have fin: "finite ?K" by (rule finite_subset [of _ "fst ` set entries"]) force+
  ultimately have "victim entries \<in> ?K" unfolding victim_def by (intro Min_in)
  then obtain e where e: "(victim entries, e) \<in> set entries" "csFetched e = ?m" by blast
  moreover have "\<forall>(k, e')\<in>set entries. ?m \<le> csFetched e'" by (force intro: Min_le)
  moreover have "\<forall>(k, e')\<in>set entries. csFetched e' = ?m \<longrightarrow> victim entries \<le> k"
    unfolding victim_def by (auto intro!: Min_le fin)
  ultimately show ?thesis by (intro exI [of _ e]) auto
qed

lemma evict_victim:
  assumes "wfEnv env" "wfEnv env'" "chEntries c \<noteq> []"
  shows "evictOldestLocked env env' c = c\<lparr> chEntries := AList.delete (victim (chEntries c)) (chEntries c) \<rparr>"
proof -
  have ne: "rng env (chEntries c) \<noteq> []" using assms by (metis length_0_conv length_rng)
  have "Min (csFetched ` snd ` set (chEntries c)) \<in> csFetched ` snd ` set (chEntries c)"
    using assms(3) by (intro Min_in) auto
  then have "\<exists>k e. (k, e) \<in> set (rng env' (chEntries c)) \<and> csFetched e = Min (csFetched ` snd ` set (chEntries c))"
    using assms(2) by force
  then show ?thesis
    using assms by (simp add: evictOldestLocked_def oldestTime_Min [OF ne] oldestTenant_Min victim_def)
qed

lemma length_delete_key: "distinctKeys m \<Longrightarrow> k \<in> fst ` set m \<Longrightarrow> Suc (length (AList.delete k m)) = length m"
  by (induction m) (auto simp: AList.delete_id)

text \<open>Publishing keeps the tenant bound.\<close>

definition wfEntries :: "CachedProvider \<Rightarrow> bool" where
  "wfEntries c \<longleftrightarrow> distinctKeys (chEntries c) \<and> len (chEntries c) \<le> MaxTenants (chConfig c) \<and>
     (\<forall>(t, e)\<in>set (chEntries c). len (snDefinitions (csSnapshot e)) \<le> MaxFeaturesPerTenant (chConfig c))"

lemma publish_entries:
  assumes "wfEnv env" "wfEnv env'" "wfEntries c" "0 < MaxTenants (chConfig c)"
  shows "chEntries (publish env env' t a q entry c) =
    (if map_of (chRefreshes c) t = Some a \<and> q > crPublished (chStates c ! a) then
       AList.update t entry (if \<not> hasKey (chEntries c) t \<and> len (chEntries c) = MaxTenants (chConfig c)
         then AList.delete (victim (chEntries c)) (chEntries c) else chEntries c)
     else chEntries c)"
proof -
  have "chEntries c \<noteq> []" if "MaxTenants (chConfig c) \<le> len (chEntries c)" using that assms(4) by auto
  then show ?thesis
    using assms(3) evict_victim [OF assms(1,2), of c] by (auto simp: publish_def Let_def wfEntries_def)
qed

lemma wfEntries_publish:
  assumes "wfEnv env" "wfEnv env'" "wfEntries c" "0 < MaxTenants (chConfig c)"
    and "len (snDefinitions (csSnapshot entry)) \<le> MaxFeaturesPerTenant (chConfig c)"
  shows "wfEntries (publish env env' t a q entry c)"
proof -
  let ?d = "AList.delete (victim (chEntries c)) (chEntries c)"
  have small: "Suc (length ?d) = length (chEntries c)" if "len (chEntries c) = MaxTenants (chConfig c)"
  proof -
    have "chEntries c \<noteq> []" using that assms(4) by auto
    then have "victim (chEntries c) \<in> fst ` set (chEntries c)" using victim_oldest by force
    then show ?thesis using assms(3) by (auto simp: wfEntries_def intro: length_delete_key)
  qed
  have upd: "length (AList.update t entry m) \<le> Suc (length m)" for m
    by (cases "t \<in> fst ` set m") (simp_all add: length_update_new length_update_old)
  have "len (AList.update t entry ?d) \<le> MaxTenants (chConfig c)" if "len (chEntries c) = MaxTenants (chConfig c)"
    using small [OF that] upd [of ?d] that by linarith
  moreover have "len (AList.update t entry (chEntries c)) \<le> MaxTenants (chConfig c)"
    if "hasKey (chEntries c) t \<or> len (chEntries c) \<noteq> MaxTenants (chConfig c)"
  proof (cases "hasKey (chEntries c) t")
    case True
    then show ?thesis using assms(3) by (simp add: hasKey_iff length_update_old wfEntries_def)
  next
    case False
    then have "len (chEntries c) < MaxTenants (chConfig c)" using that assms(3) by (auto simp: wfEntries_def)
    then show ?thesis using upd [of "chEntries c"] by linarith
  qed
  ultimately show ?thesis
    using assms by (auto simp: wfEntries_def publish_entries set_update_distinct set_delete_distinct)
qed

end
