(* ===== verification/Cache_World.thy ===== *)
theory Cache_World
  imports Cache_Laws
begin

text \<open>
  Goroutines over one cache: every interleaving of refreshes, mutations and Close, as a step relation on the
  provider's state, the cache, the refreshes in flight and the mutations that succeeded and have still to
  invalidate. Two invariants: the bookkeeping of outstanding refreshes is exact, and what the cache holds is
  what the provider would answer.
\<close>

section \<open>Steps\<close>

datatype flightPhase = Waiting | Holding cachedSnapshot | Finishing

record flight =
  flTenant :: string
  flState :: nat
  flSequence :: "64 word"
  flPhase :: flightPhase

record 's cacheWorld =
  cwSource :: 's
  cwCache :: CachedProvider
  cwFlights :: "flight multiset"
  cwWrites :: "string multiset"

text \<open>The mutating methods of a provider as functions that also tell whether the cache drops the tenant.\<close>

definition effect :: "('a \<Rightarrow> bool) \<Rightarrow> 's \<times> 'a res \<Rightarrow> 's \<times> bool" where
  "effect effective x = (fst x, case snd x of Inl e \<Rightarrow> False | Inr result \<Rightarrow> effective result)"

definition importEffect :: "ImportOptions \<Rightarrow> 's \<times> ImportReport \<times> err option \<Rightarrow> 's \<times> bool" where
  "importEffect options x = (fst x, \<not> ioDryRun options \<and> snd (snd x) = None)"

inductive operation :: "('c, 's) Provider \<Rightarrow> ('c \<Rightarrow> bool) \<Rightarrow> string \<Rightarrow> ('s \<Rightarrow> 's \<times> bool) \<Rightarrow> bool" for P ok t where
  "ok c \<Longrightarrow> operation P ok t (\<lambda>s. effect (\<lambda>_. True) (pvCreate P c t d actor s))"
| "ok c \<Longrightarrow> operation P ok t (\<lambda>s. effect (\<lambda>_. True) (pvUpdate P c t d v actor s))"
| "ok c \<Longrightarrow> operation P ok t (\<lambda>s. effect (\<lambda>_. True) (pvActivate P c t k v actor s))"
| "ok c \<Longrightarrow> operation P ok t (\<lambda>s. effect (\<lambda>_. True) (pvDeactivate P c t k v actor s))"
| "ok c \<Longrightarrow> operation P ok t (\<lambda>s. effect (\<lambda>_. True) (pvDelete P c t k v actor s))"
| "ok c \<Longrightarrow> operation P ok t (\<lambda>s. effect (\<lambda>_. True) (pvRestore P c t k v actor s))"
| "ok c \<Longrightarrow> operation P ok t (\<lambda>s. effect (\<lambda>_. True) (pvCreateGroup P c t g actor s))"
| "ok c \<Longrightarrow> operation P ok t (\<lambda>s. effect (\<lambda>_. True) (pvUpdateGroup P c t g v actor s))"
| "ok c \<Longrightarrow> operation P ok t (\<lambda>s. effect (\<lambda>_. True) (pvDeleteGroup P c t k v actor s))"
| "ok c \<Longrightarrow> operation P ok t (\<lambda>s. effect (\<lambda>_. True) (pvAssignGroup P c t f k v actor s))"
| "ok c \<Longrightarrow> operation P ok t (\<lambda>s. effect (\<lambda>_. True) (pvRemoveGroup P c t f k v actor s))"
| "ok c \<Longrightarrow> operation P ok t (\<lambda>s. importEffect options (pvImportDocument P c t data options actor s))"
| "ok c \<Longrightarrow> operation P ok t (\<lambda>s. effect (\<lambda>_. False) (pvStageUpdate P c t d v at actor s))"
| "ok c \<Longrightarrow> operation P ok t (\<lambda>s. effect (\<lambda>_. True) (pvApplyStage P c t i actor s))"
| "ok c \<Longrightarrow> operation P ok t (\<lambda>s. effect (\<lambda>results. results \<noteq> []) (pvApplyScheduled P c t now actor s))"
| "ok c \<Longrightarrow> operation P ok t (\<lambda>s. effect (\<lambda>report. crDeletedFeatures report > 0) (pvCleanup P c t cleanup s))"

text \<open>
  The steps of a refresh are the ones \<^verbatim>\<open>Refresh\<close> composes: admission, the provider's reply, publication, and the
  deferred end. A mutation is the provider's change followed by the invalidation. \<open>ok\<close> restricts the
  circumstances of provider calls.
\<close>

inductive cacheStep :: "('c, 's) Provider \<Rightarrow> ('c \<Rightarrow> bool) \<Rightarrow> 's cacheWorld \<Rightarrow> 's cacheWorld \<Rightarrow> bool" for P ok where
  step_admit: "providerInput ctx t (MaxTenantBytes (chConfig (cwCache w))) = None \<Longrightarrow> beginRefresh t (cwCache w) = (c, a, q) \<Longrightarrow>
    cacheStep P ok w (w\<lparr> cwCache := c,
      cwFlights := add_mset \<lparr> flTenant = t, flState = a, flSequence = q, flPhase = Waiting \<rparr> (cwFlights w) \<rparr>)"
| step_reply: "cwFlights w = add_mset f rest \<Longrightarrow> flPhase f = Waiting \<Longrightarrow> ok call \<Longrightarrow>
    pvSnapshot P call (flTenant f) (cwSource w) = (s, reply) \<Longrightarrow>
    cacheStep P ok w (w\<lparr> cwSource := s, cwFlights := add_mset
      (f\<lparr> flPhase := (case acceptSnapshot (chConfig (cwCache w)) reply of
           Inl e \<Rightarrow> Finishing | Inr snapshot \<Rightarrow> Holding \<lparr> csSnapshot = snapshot, csFetched = now \<rparr>) \<rparr>) rest \<rparr>)"
| step_publish: "cwFlights w = add_mset f rest \<Longrightarrow> flPhase f = Holding entry \<Longrightarrow> wfEnv env \<Longrightarrow> wfEnv env' \<Longrightarrow>
    cacheStep P ok w (w\<lparr> cwCache := publish env env' (flTenant f) (flState f) (flSequence f) entry (cwCache w),
      cwFlights := add_mset (f\<lparr> flPhase := Finishing \<rparr>) rest \<rparr>)"
| step_end: "cwFlights w = add_mset f rest \<Longrightarrow> flPhase f = Finishing \<Longrightarrow>
    cacheStep P ok w (w\<lparr> cwCache := endRefresh (flTenant f) (flState f) (cwCache w), cwFlights := rest \<rparr>)"
| step_write: "operation P ok t run \<Longrightarrow> run (cwSource w) = (s, effective) \<Longrightarrow>
    cacheStep P ok w (w\<lparr> cwSource := s, cwWrites := (if effective then add_mset t (cwWrites w) else cwWrites w) \<rparr>)"
| step_invalidate: "cwWrites w = add_mset t rest \<Longrightarrow>
    cacheStep P ok w (w\<lparr> cwCache := invalidateOnSuccess t None (cwCache w), cwWrites := rest \<rparr>)"
| step_clear: "cacheStep P ok w (w\<lparr> cwCache := clearCache (cwCache w) \<rparr>)"
| step_close: "ok call \<Longrightarrow> pvClose P call (cwSource w) = (s, e) \<Longrightarrow> cacheStep P ok w (w\<lparr> cwSource := s \<rparr>)"

definition initialWorld :: "CachedProvider \<Rightarrow> 's \<Rightarrow> 's cacheWorld" where
  "initialWorld cache s = \<lparr> cwSource = s, cwCache = cache, cwFlights = {#}, cwWrites = {#} \<rparr>"

text \<open>The methods of the cache, run without interference, are sequences of steps.\<close>

lemma refresh_runs:
  assumes "Refresh P call t (s, c) = ((s', c'), r)" "ok (rfCall call)" "wfEnv (rfOrder call)" "wfEnv (rfOrder' call)"
    and "rfAdmitted call = id" "rfReplied call = id" "rfPublished call = id"
    and "cwSource w = s" "cwCache w = c"
  shows "(cacheStep P ok)\<^sup>*\<^sup>* w (w\<lparr> cwSource := s', cwCache := c' \<rparr>)"
proof (cases "providerInput (rfCtx call) t (MaxTenantBytes (chConfig c))")
  case None
  obtain c1 a q where b: "beginRefresh t c = (c1, a, q)" by (metis prod_cases3)
  have config: "chConfig c1 = chConfig c" using b by (elim beginRefresh_cases) simp_all
  obtain s1 reply where p: "pvSnapshot P (rfCall call) t s = (s1, reply)" by fastforce
  define f where "f phase = \<lparr> flTenant = t, flState = a, flSequence = q, flPhase = phase \<rparr>" for phase
  let ?phase = "case acceptSnapshot (chConfig c) reply of Inl e \<Rightarrow> Finishing
    | Inr snapshot \<Rightarrow> Holding \<lparr> csSnapshot = snapshot, csFetched = rfFetched call \<rparr>"
  let ?w1 = "w\<lparr> cwCache := c1, cwFlights := add_mset (f Waiting) (cwFlights w) \<rparr>"
  let ?w2 = "w\<lparr> cwSource := s1, cwCache := c1, cwFlights := add_mset (f ?phase) (cwFlights w) \<rparr>"
  have 1: "cacheStep P ok w ?w1"
    using step_admit [of "rfCtx call" t w c1 a q P ok] None b assms(9) by (simp add: f_def)
  have 2: "cacheStep P ok ?w1 ?w2"
    using step_reply [of ?w1 "f Waiting" "cwFlights w" ok "rfCall call" P s1 reply "rfFetched call"] assms(2,8) p config
    by - (cases w, simp add: f_def)
  have 3: "cacheStep P ok (w\<lparr> cwSource := s1, cwCache := c2, cwFlights := add_mset (f Finishing) (cwFlights w) \<rparr>)
      (w\<lparr> cwSource := s1, cwCache := endRefresh t a c2 \<rparr>)" for c2
    using step_end [of "w\<lparr> cwSource := s1, cwCache := c2, cwFlights := add_mset (f Finishing) (cwFlights w) \<rparr>" "f Finishing"
        "cwFlights w" P ok] by - (cases w, simp add: f_def)
  show ?thesis
  proof (cases "acceptSnapshot (chConfig c) reply")
    case (Inl e)
    then have "s' = s1" "c' = endRefresh t a c1" using assms None b p by (auto simp: Refresh_def)
    then show ?thesis using 1 2 3 [of c1] Inl by (auto intro: converse_rtranclp_into_rtranclp)
  next
    case (Inr snapshot)
    let ?entry = "\<lparr> csSnapshot = snapshot, csFetched = rfFetched call \<rparr>"
    let ?c2 = "publish (rfOrder call) (rfOrder' call) t a q ?entry c1"
    have "cacheStep P ok ?w2 (w\<lparr> cwSource := s1, cwCache := ?c2, cwFlights := add_mset (f Finishing) (cwFlights w) \<rparr>)"
      using step_publish [of ?w2 "f (Holding ?entry)" "cwFlights w" ?entry "rfOrder call" "rfOrder' call" P ok] assms(3,4) Inr
      by - (cases w, simp add: f_def)
    moreover have "s' = s1" "c' = endRefresh t a ?c2" using assms None b p Inr by (auto simp: Refresh_def)
    ultimately show ?thesis using 1 2 3 [of ?c2] by (auto intro: converse_rtranclp_into_rtranclp)
  qed
qed (use assms in \<open>auto simp: Refresh_def\<close>)

lemma mutation_runs:
  assumes "cachedMutation ctx t run effective (s, c) = ((s', c'), r)" "operation P ok t (\<lambda>s. effect effective (run s))"
    and "cwSource w = s" "cwCache w = c"
  shows "(cacheStep P ok)\<^sup>*\<^sup>* w (w\<lparr> cwSource := s', cwCache := c' \<rparr>)"
proof (cases "providerInput ctx t (MaxTenantBytes (chConfig c))")
  case None
  obtain s1 r1 where run: "run s = (s1, r1)" by fastforce
  define e where "e = (case r1 of Inl _ \<Rightarrow> False | Inr result \<Rightarrow> effective result)"
  let ?w1 = "w\<lparr> cwSource := s1, cwWrites := (if e then add_mset t (cwWrites w) else cwWrites w) \<rparr>"
  have 1: "cacheStep P ok w ?w1"
    using step_write [OF assms(2), of w s1 e] run assms(3) by (simp add: effect_def e_def)
  have 2: "s' = s1" "c' = (if e then invalidateOnSuccess t None c else c)"
    using assms(1) None run by (auto simp: cachedMutation_def e_def invalidateOnSuccess_def split: sum.splits)
  show ?thesis
  proof (cases e)
    case True
    then have "cacheStep P ok ?w1 (w\<lparr> cwSource := s', cwCache := c' \<rparr>)"
      using step_invalidate [of ?w1 t "cwWrites w" P ok] 2 assms(4) by - (cases w, simp)
    then show ?thesis using 1 by (auto intro: converse_rtranclp_into_rtranclp)
  next
    case False
    then show ?thesis using 1 2 assms(4) by auto
  qed
qed (use assms in \<open>auto simp: cachedMutation_def\<close>)

section \<open>Outstanding refreshes\<close>

definition flightsOf :: "nat \<Rightarrow> flight multiset \<Rightarrow> nat" where
  "flightsOf a F = size (filter_mset (\<lambda>f. flState f = a) F)"

lemma flightsOf_simps [simp]:
  "flightsOf a {#} = 0"
  "flightsOf a (add_mset f F) = (if flState f = a then Suc (flightsOf a F) else flightsOf a F)"
  by (simp_all add: flightsOf_def)

lemma flightsOf_zero: "flightsOf a F = 0 \<longleftrightarrow> (\<forall>f\<in>#F. flState f \<noteq> a)"
  by (induction F) auto

text \<open>
  Every state counts its outstanding refreshes, without wrapping round since it never admits more than its
  counter, and a state is in the map only while it has one, all of them for the tenant it is kept under.
\<close>

definition counted :: "cacheRefreshState list \<Rightarrow> flight multiset \<Rightarrow> bool" where
  "counted states F \<longleftrightarrow> (\<forall>f\<in>#F. flState f < length states) \<and>
     (\<forall>a<length states. crRunning (states ! a) = of_nat (flightsOf a F) \<and> flightsOf a F \<le> unat (crNext (states ! a)))"

definition owned :: "nat gomap \<Rightarrow> nat \<Rightarrow> flight multiset \<Rightarrow> bool" where
  "owned refreshes n F \<longleftrightarrow> distinctKeys refreshes \<and>
     (\<forall>t a. map_of refreshes t = Some a \<longrightarrow> a < n \<and> 0 < flightsOf a F \<and> (\<forall>f\<in>#F. flState f = a \<longrightarrow> flTenant f = t))"

definition accounted :: "CachedProvider \<Rightarrow> flight multiset \<Rightarrow> bool" where
  "accounted c F \<longleftrightarrow> counted (chStates c) F \<and> owned (chRefreshes c) (length (chStates c)) F"

lemma owned_once: "owned refreshes n F \<Longrightarrow> map_of refreshes t = Some a \<Longrightarrow> map_of refreshes u = Some a \<Longrightarrow> u = t"
  unfolding owned_def by (metis flightsOf_zero less_numeral_extra(3))

lemma accounted_admit:
  assumes "beginRefresh t c = (c', a, q)" "accounted c F" "flTenant f = t" "flState f = a"
  shows "accounted c' (add_mset f F)"
  using assms(1)
proof (cases rule: beginRefresh_cases)
  case fresh
  then have none: "flightsOf a F = 0" using assms(2) by (auto simp: accounted_def counted_def flightsOf_zero)
  have "counted (chStates c') (add_mset f F)"
    using fresh assms none by (auto simp: accounted_def counted_def nth_append less_Suc_eq)
  moreover have "owned (chRefreshes c') (length (chStates c')) (add_mset f F)"
    using fresh assms none by (fastforce simp: accounted_def owned_def flightsOf_zero less_SucI simp del: map_of_eq_Some_iff split: if_splits)
  ultimately show ?thesis by (simp add: accounted_def)
next
  case joined
  then have "a < length (chStates c)" using assms(2) by (auto simp: accounted_def owned_def)
  then have "counted (chStates c') (add_mset f F)"
    using joined assms unat_Suc64 [of "crNext (chStates c ! a)"]
    by (auto simp: accounted_def counted_def nth_list_update)
  moreover have "owned (chRefreshes c') (length (chStates c')) (add_mset f F)"
    using joined assms owned_once [of "chRefreshes c" _ F t a] unfolding accounted_def
    by (simp add: owned_def del: map_of_eq_Some_iff) metis
  ultimately show ?thesis by (simp add: accounted_def)
qed

lemma accounted_phase: "accounted c (add_mset (f\<lparr> flPhase := x \<rparr>) F) \<longleftrightarrow> accounted c (add_mset f F)"
  by (simp add: accounted_def counted_def owned_def)

lemma accounted_publish: "accounted c F \<Longrightarrow> accounted (publish env env' t a q entry c) F"
  by (auto simp: accounted_def counted_def publish_states nth_updated)

lemma accounted_end:
  assumes "accounted c (add_mset f F)"
  shows "accounted (endRefresh (flTenant f) (flState f) c) F"
proof -
  let ?a = "flState f" and ?c = "endRefresh (flTenant f) (flState f) c"
  have a: "?a < length (chStates c)" "crRunning (chStates c ! ?a) = of_nat (Suc (flightsOf ?a F))"
      "Suc (flightsOf ?a F) \<le> unat (crNext (chStates c ! ?a))"
    using assms by (auto simp: accounted_def counted_def)
  then have states: "counted (chStates ?c) F"
    using assms by (auto simp: accounted_def counted_def endRefresh_states nth_list_update)
  have "unat (crNext (chStates c ! ?a)) < 2 ^ 64" by (rule order.strict_trans2 [OF unsigned_less]) simp
  then have "flightsOf ?a F < 2 ^ 64" using a(3) by simp
  then have "crRunning (chStates c ! ?a) - 1 = 0 \<longleftrightarrow> flightsOf ?a F = 0"
    using a(2) nat_dvd_not_less [of "flightsOf ?a F" "2 ^ 64"] by (auto simp: word_of_nat_eq_0_iff)
  then have refreshes: "chRefreshes ?c = (if flightsOf ?a F = 0 \<and> map_of (chRefreshes c) (flTenant f) = Some ?a
      then AList.delete (flTenant f) (chRefreshes c) else chRefreshes c)"
    using a(1) by (simp add: endRefresh_def Let_def)
  have own: "owned (chRefreshes c) (length (chStates c)) (add_mset f F)" using assms by (simp add: accounted_def)
  have "a < length (chStates c) \<and> 0 < flightsOf a F \<and> (\<forall>g\<in>#F. flState g = a \<longrightarrow> flTenant g = t)"
    if kept: "map_of (chRefreshes ?c) t = Some a" for t a
  proof -
    have old: "map_of (chRefreshes c) t = Some a" using kept by (rule endRefresh_refreshes)
    then have "a < length (chStates c)" "0 < flightsOf a (add_mset f F)" "\<forall>g\<in>#add_mset f F. flState g = a \<longrightarrow> flTenant g = t"
      using own unfolding owned_def by blast+
    moreover have "0 < flightsOf a F" if "flState f = a"
    proof -
      have "flTenant f = t" using calculation(3) that by simp
      then show ?thesis using kept old that unfolding refreshes by (auto simp del: map_of_eq_Some_iff split: if_splits)
    qed
    ultimately show ?thesis by (auto split: if_splits)
  qed
  moreover have "distinctKeys (chRefreshes ?c)" using own by (simp add: refreshes owned_def)
  ultimately have "owned (chRefreshes ?c) (length (chStates c)) F" unfolding owned_def by blast
  then show ?thesis using states by (simp add: accounted_def)
qed

lemma accounted_drop:
  assumes "accounted c F" "chStates c' = chStates c" "distinctKeys (chRefreshes c')"
    and "\<And>t a. map_of (chRefreshes c') t = Some a \<Longrightarrow> map_of (chRefreshes c) t = Some a"
  shows "accounted c' F"
  using assms unfolding accounted_def owned_def by metis

lemma accounted_step: "cacheStep P ok w w' \<Longrightarrow> accounted (cwCache w) (cwFlights w) \<Longrightarrow> accounted (cwCache w') (cwFlights w')"
proof (induction rule: cacheStep.induct)
  case (step_invalidate w t rest)
  then show ?case by (auto intro!: accounted_drop [of "cwCache w"] simp: accounted_def owned_def invalidateOnSuccess_def split: if_splits)
next
  case (step_clear w)
  then show ?case by (auto intro: accounted_drop [of "cwCache w"])
qed (simp_all add: accounted_admit accounted_phase accounted_publish accounted_end)

lemma accounted_run:
  "(cacheStep P ok)\<^sup>*\<^sup>* w w' \<Longrightarrow> accounted (cwCache w) (cwFlights w) \<Longrightarrow> accounted (cwCache w') (cwFlights w')"
  by (induction rule: rtranclp_induct) (auto intro: accounted_step)

lemma accounted_refreshes:
  assumes "accounted c F"
  shows "length (chRefreshes c) \<le> size F"
proof -
  have "fst ` set (chRefreshes c) \<subseteq> flTenant ` set_mset F"
  proof
    fix t assume "t \<in> fst ` set (chRefreshes c)"
    then obtain a where "map_of (chRefreshes c) t = Some a" by (metis hasKey_def hasKey_iff not_None_eq)
    then have "0 < flightsOf a F" "\<forall>f\<in>#F. flState f = a \<longrightarrow> flTenant f = t"
      using assms by (auto simp: accounted_def owned_def)
    then obtain f where "f \<in># F" "flState f = a" by (metis flightsOf_zero less_numeral_extra(3))
    then show "t \<in> flTenant ` set_mset F" using \<open>\<forall>f\<in>#F. flState f = a \<longrightarrow> flTenant f = t\<close> by blast
  qed
  then have "card (fst ` set (chRefreshes c)) \<le> card (flTenant ` set_mset F)" by (intro card_mono) auto
  also have "\<dots> \<le> card (set_mset F)" by (rule card_image_le) simp
  also have "\<dots> \<le> size F" by (induction F) (auto simp: card_insert_if)
  finally show ?thesis using assms distinct_card [of "map fst (chRefreshes c)"] by (simp add: accounted_def owned_def)
qed

section \<open>Bounds\<close>

definition boundedWorld :: "CacheConfig \<Rightarrow> 's cacheWorld \<Rightarrow> bool" where
  "boundedWorld config w \<longleftrightarrow> chConfig (cwCache w) = config \<and> wfEntries (cwCache w) \<and>
     (\<forall>f\<in>#cwFlights w. \<forall>entry. flPhase f = Holding entry \<longrightarrow>
        len (snDefinitions (csSnapshot entry)) \<le> MaxFeaturesPerTenant config)"

lemma acceptSnapshot_Inr:
  "acceptSnapshot config reply = Inr snapshot \<longleftrightarrow>
     reply = Inr snapshot \<and> len (snDefinitions snapshot) \<le> MaxFeaturesPerTenant config"
  by (cases reply) (auto simp: acceptSnapshot_def)

lemma beginRefresh_fields:
  "beginRefresh t c = (c', a, q) \<Longrightarrow> chConfig c' = chConfig c \<and> chEntries c' = chEntries c"
  by (elim beginRefresh_cases) simp_all

lemma wfEntries_drop: "wfEntries c \<Longrightarrow> wfEntries (invalidateOnSuccess t None c)"
  using length_delete_le [of t "chEntries c"]
  by (fastforce simp: wfEntries_def set_delete_distinct)

lemma bounded_step:
  assumes "cacheStep P ok w w'" "boundedWorld config w" "0 < MaxTenants config"
  shows "boundedWorld config w'"
  using assms
proof (induction rule: cacheStep.induct)
  case (step_admit ctx t w c a q)
  then show ?case using beginRefresh_fields [OF step_admit(2)] by (auto simp: boundedWorld_def wfEntries_def)
next
  case (step_reply w f rest call s reply now)
  then show ?case by (auto simp: boundedWorld_def acceptSnapshot_Inr split: sum.splits)
next
  case (step_publish w f rest entry env env')
  then show ?case by (auto simp: boundedWorld_def intro!: wfEntries_publish)
next
  case (step_end w f rest)
  then show ?case by (auto simp: boundedWorld_def wfEntries_def)
next
  case (step_clear w)
  then show ?case by (auto simp: boundedWorld_def wfEntries_def)
qed (auto simp: boundedWorld_def wfEntries_drop)

lemma bounded_run:
  "(cacheStep P ok)\<^sup>*\<^sup>* w w' \<Longrightarrow> boundedWorld config w \<Longrightarrow> 0 < MaxTenants config \<Longrightarrow> boundedWorld config w'"
  by (induction rule: rtranclp_induct) (auto intro: bounded_step)

section \<open>Coherence\<close>

text \<open>
  What the cache relies on: a provider whose snapshots are current, and whose operations change what other
  tenants read never, and what their own tenant reads only when the cache takes them for a change.
\<close>

locale cache_source =
  fixes P :: "('c, 's) Provider" and ok :: "'c \<Rightarrow> bool"
    and sound :: "'s \<Rightarrow> bool" and current :: "'s \<Rightarrow> string \<Rightarrow> Snapshot \<Rightarrow> bool"
  assumes snapshot_current: "sound s \<Longrightarrow> ok c \<Longrightarrow> pvSnapshot P c t s = (s', reply) \<Longrightarrow>
      sound s' \<and> current s' = current s \<and> (\<forall>snapshot. reply = Inr snapshot \<longrightarrow> current s t snapshot)"
    and operation_frame: "sound s \<Longrightarrow> operation P ok t run \<Longrightarrow> run s = (s', effective) \<Longrightarrow>
      sound s' \<and> (\<forall>u. u \<noteq> t \<or> \<not> effective \<longrightarrow> current s' u = current s u)"
    and close_frame: "sound s \<Longrightarrow> ok c \<Longrightarrow> pvClose P c s = (s', e) \<Longrightarrow> sound s' \<and> current s' = current s"
begin

definition coherentAt :: "'s \<Rightarrow> CachedProvider \<Rightarrow> flight multiset \<Rightarrow> string \<Rightarrow> bool" where
  "coherentAt s c F t \<longleftrightarrow> (\<forall>entry. map_of (chEntries c) t = Some entry \<longrightarrow> current s t (csSnapshot entry)) \<and>
     (\<forall>f\<in>#F. \<forall>entry. flTenant f = t \<and> flPhase f = Holding entry \<and> map_of (chRefreshes c) t = Some (flState f) \<longrightarrow>
        current s t (csSnapshot entry))"

definition coherent :: "'s cacheWorld \<Rightarrow> bool" where
  "coherent w \<longleftrightarrow> sound (cwSource w) \<and> wfPointers (cwCache w) \<and> (\<forall>f\<in>#cwFlights w. flState f < length (chStates (cwCache w))) \<and>
     distinctKeys (chEntries (cwCache w)) \<and>
     (\<forall>t. t \<notin># cwWrites w \<longrightarrow> coherentAt (cwSource w) (cwCache w) (cwFlights w) t)"

lemma coherentAt_source: "current s' t = current s t \<Longrightarrow> coherentAt s' c F t \<longleftrightarrow> coherentAt s c F t"
  by (simp add: coherentAt_def)

lemma coherentAt_forget:
  assumes "coherentAt s c F t" "\<And>entry. map_of (chEntries c') t = Some entry \<Longrightarrow> map_of (chEntries c) t = Some entry"
    "\<And>a. map_of (chRefreshes c') t = Some a \<Longrightarrow> map_of (chRefreshes c) t = Some a" "\<And>f. f \<in># F' \<Longrightarrow> f \<in># F"
  shows "coherentAt s c' F' t"
  using assms unfolding coherentAt_def by metis

lemma coherentAt_publish:
  assumes "coherentAt s c (add_mset f F) t" "flPhase f = Holding entry" "distinctKeys (chEntries c)"
  shows "coherentAt s (publish env env' (flTenant f) (flState f) (flSequence f) entry c) (add_mset (f\<lparr> flPhase := Finishing \<rparr>) F) t"
proof -
  let ?c = "publish env env' (flTenant f) (flState f) (flSequence f) entry c"
  have "current s t (csSnapshot e)" if "map_of (chEntries ?c) t = Some e" for e
    using that assms(1,2) by (auto simp: coherentAt_def publish_def Let_def evictOldestLocked_def
        simp del: map_of_eq_Some_iff split: if_splits)
  then show ?thesis using assms(1) by (auto simp: coherentAt_def)
qed

lemma publish_distinct: "distinctKeys (chEntries c) \<Longrightarrow> distinctKeys (chEntries (publish env env' t a q entry c))"
  by (simp add: publish_def Let_def evictOldestLocked_def)

lemma coherent_admit:
  assumes "beginRefresh t (cwCache w) = (c, a, q)" "coherent w"
  shows "coherent (w\<lparr> cwCache := c,
    cwFlights := add_mset \<lparr> flTenant = t, flState = a, flSequence = q, flPhase = Waiting \<rparr> (cwFlights w) \<rparr>)"
proof -
  let ?F = "add_mset \<lparr> flTenant = t, flState = a, flSequence = q, flPhase = Waiting \<rparr> (cwFlights w)"
  have entries: "chEntries c = chEntries (cwCache w)" using beginRefresh_fields [OF assms(1)] by simp
  have op: "cacheOp (cwCache w) c" using assms(1) by (rule op_begin)
  have wf: "wfPointers c" "issued t a q c"
    using assms wfPointers_step [OF op] begin_issued [OF assms(1)] by (auto simp: coherent_def)
  have old: "\<forall>f\<in>#cwFlights w. flState f < length (chStates (cwCache w))" using assms(2) by (simp add: coherent_def)
  then have "\<forall>f\<in>#cwFlights w. flState f < length (chStates c)"
    using states_monotone [OF op] assms(2) by (auto simp: coherent_def)
  moreover have "coherentAt (cwSource w) c ?F u" if "u \<notin># cwWrites w" for u
  proof -
    have "coherentAt (cwSource w) (cwCache w) (cwFlights w) u" using assms(2) that by (simp add: coherent_def)
    then show ?thesis
      using refresh_pointer_kept [OF op] old by (fastforce simp: coherentAt_def entries simp del: map_of_eq_Some_iff)
  qed
  ultimately show ?thesis using assms(2) wf by (auto simp: coherent_def entries issued_def)
qed

lemma coherent_reply:
  assumes "cwFlights w = add_mset f rest" "pvSnapshot P call (flTenant f) (cwSource w) = (s, reply)" "ok call" "coherent w"
  shows "coherent (w\<lparr> cwSource := s, cwFlights := add_mset
      (f\<lparr> flPhase := (case acceptSnapshot (chConfig (cwCache w)) reply of
           Inl e \<Rightarrow> Finishing | Inr snapshot \<Rightarrow> Holding \<lparr> csSnapshot = snapshot, csFetched = now \<rparr>) \<rparr>) rest \<rparr>)"
proof -
  have s: "sound s" "current s = current (cwSource w)" "\<And>snapshot. reply = Inr snapshot \<Longrightarrow> current s (flTenant f) snapshot"
    using snapshot_current [OF _ assms(3,2)] assms(4) by (auto simp: coherent_def)
  then show ?thesis
    using assms(1,4) by (auto simp: coherent_def coherentAt_def acceptSnapshot_Inr simp del: map_of_eq_Some_iff split: sum.splits)
qed

lemma coherent_publish:
  assumes "cwFlights w = add_mset f rest" "flPhase f = Holding entry" "coherent w"
  shows "coherent (w\<lparr> cwCache := publish env env' (flTenant f) (flState f) (flSequence f) entry (cwCache w),
      cwFlights := add_mset (f\<lparr> flPhase := Finishing \<rparr>) rest \<rparr>)"
  using assms coherentAt_publish [OF _ assms(2), of _ "cwCache w" rest] wfPointers_step [OF op_publish, of "cwCache w"]
  by (auto simp: coherent_def publish_distinct)

lemma coherent_end:
  assumes "cwFlights w = add_mset f rest" "coherent w"
  shows "coherent (w\<lparr> cwCache := endRefresh (flTenant f) (flState f) (cwCache w), cwFlights := rest \<rparr>)"
proof -
  have "coherentAt s (endRefresh (flTenant f) (flState f) c) rest t" if "coherentAt s c (add_mset f rest) t" for s c t
    using that by (rule coherentAt_forget) (auto dest: endRefresh_refreshes simp del: map_of_eq_Some_iff)
  then show ?thesis using assms wfPointers_step [OF op_end, of "cwCache w"] by (auto simp: coherent_def)
qed

lemma coherent_drop:
  assumes "coherent w" "\<And>t. t \<notin># W \<Longrightarrow> t \<in># cwWrites w \<Longrightarrow> map_of (chEntries c) t = None \<and> map_of (chRefreshes c) t = None"
    "distinctKeys (chEntries c)" "cacheOp (cwCache w) c" "chStates c = chStates (cwCache w)"
    "\<And>t entry. map_of (chEntries c) t = Some entry \<Longrightarrow> map_of (chEntries (cwCache w)) t = Some entry"
  shows "coherent (w\<lparr> cwCache := c, cwWrites := W \<rparr>)"
proof -
  have flights: "\<forall>f\<in>#cwFlights w. flState f < length (chStates (cwCache w))" using assms(1) by (simp add: coherent_def)
  have "coherentAt (cwSource w) c (cwFlights w) t" if "t \<notin># W" for t
  proof (cases "t \<in># cwWrites w")
    case True
    then show ?thesis using assms(2) [OF that] by (simp add: coherentAt_def)
  next
    case False
    then have "coherentAt (cwSource w) (cwCache w) (cwFlights w) t" using assms(1) by (simp add: coherent_def)
    then show ?thesis
      using assms(6) refresh_pointer_kept [OF assms(4), of _ t] flights unfolding coherentAt_def by metis
  qed
  then show ?thesis using assms wfPointers_step [OF assms(4)] by (auto simp: coherent_def)
qed

lemma coherent_step: "cacheStep P ok w w' \<Longrightarrow> coherent w \<Longrightarrow> coherent w'"
proof (induction rule: cacheStep.induct)
  case (step_write t run w s effective)
  then have frame: "sound s" "\<And>u. u \<noteq> t \<or> \<not> effective \<Longrightarrow> current s u = current (cwSource w) u"
    using operation_frame [OF _ step_write(1,2)] by (auto simp: coherent_def)
  have "coherentAt s (cwCache w) (cwFlights w) u = coherentAt (cwSource w) (cwCache w) (cwFlights w) u"
    if "u \<noteq> t \<or> \<not> effective" for u
    using frame(2) [OF that] by (rule coherentAt_source)
  then show ?case using step_write(3) frame(1) by (cases effective) (auto simp: coherent_def)
next
  case (step_invalidate w t rest)
  have "distinctKeys (chEntries (cwCache w))" using step_invalidate(2) by (simp add: coherent_def)
  then show ?case
    using step_invalidate(1) by (intro coherent_drop [OF step_invalidate(2)] op_invalidate)
      (auto simp del: map_of_eq_Some_iff split: if_splits)
next
  case (step_clear w)
  then show ?case using coherent_drop [of w "cwWrites w" "clearCache (cwCache w)"] op_clear by simp
next
  case (step_close call w s e)
  then have "sound s" "current s = current (cwSource w)"
    using close_frame [OF _ step_close(1,2)] by (auto simp: coherent_def)
  then show ?case using step_close(3) by (simp add: coherent_def coherentAt_def)
qed (simp_all add: coherent_admit coherent_reply coherent_publish coherent_end)

lemma coherent_run: "(cacheStep P ok)\<^sup>*\<^sup>* w w' \<Longrightarrow> coherent w \<Longrightarrow> coherent w'"
  by (induction rule: rtranclp_induct) (auto intro: coherent_step)

lemma entry_current:
  assumes "(cacheStep P ok)\<^sup>*\<^sup>* (initialWorld cache s) w" "sound s" "chEntries cache = []" "chRefreshes cache = []"
    and "map_of (chEntries (cwCache w)) t = Some entry" "t \<notin># cwWrites w"
  shows "current (cwSource w) t (csSnapshot entry)"
proof -
  have "coherent (initialWorld cache s)"
    using assms(2-4) by (simp add: coherent_def coherentAt_def initialWorld_def wfPointers_def)
  from coherent_run [OF assms(1) this] show ?thesis
    using assms(5,6) by (auto simp: coherent_def coherentAt_def simp del: map_of_eq_Some_iff)
qed

end

end
