(* ===== verification/Cache_Props.thy ===== *)
theory Cache_Props
  imports Cache_World Memory_Props Codec_Props
begin

text \<open>
  The memory provider meets the contract of the cache, and the properties of the cache follow: coherence with
  the provider behind it, fencing of overtaken refreshes, the bounds, and the age of what it answers.
\<close>

section \<open>The memory provider behind a cache\<close>

definition memoryOk :: "env \<Rightarrow> moment \<Rightarrow> bool" where
  "memoryOk env c \<longleftrightarrow> sameZones env (moEnv c)"

definition memorySound :: "MemoryProvider \<Rightarrow> bool" where
  "memorySound p \<longleftrightarrow> 0 \<le> MaxAuditEntries (mpLimits p)"

definition memoryCurrent :: "env \<Rightarrow> MemoryProvider \<Rightarrow> string \<Rightarrow> Snapshot \<Rightarrow> bool" where
  "memoryCurrent env p t snapshot \<longleftrightarrow> (\<exists>env'. sameZones env env' \<and> MemorySnapshot env' None t p = Inr snapshot)"

definition sameReads :: "string \<Rightarrow> MemoryProvider \<Rightarrow> MemoryProvider \<Rightarrow> bool" where
  "sameReads t p p' \<longleftrightarrow> mpLimits p' = mpLimits p \<and> featuresOf p' t = featuresOf p t \<and> groupsOf p' t = groupsOf p t"

lemma memoryCurrent_cong: "sameReads t p p' \<Longrightarrow> memoryCurrent env p' t = memoryCurrent env p t"
  by (auto simp: fun_eq_iff memoryCurrent_def sameReads_def MemorySnapshot_def)

definition keepsReads :: "env \<Rightarrow> string \<Rightarrow> MemoryProvider \<Rightarrow> MemoryProvider \<Rightarrow> bool \<Rightarrow> bool" where
  "keepsReads env t p p' e \<longleftrightarrow>
     memorySound p' \<and> (\<forall>u. u \<noteq> t \<or> \<not> e \<longrightarrow> memoryCurrent env p' u = memoryCurrent env p u)"

lemma confined_frame:
  assumes "effect effective x = (p', e)" "confined t p x" "memorySound p"
    and "\<And>result. snd x = Inr result \<Longrightarrow> \<not> effective result \<Longrightarrow> sameReads t p (fst x)"
  shows "keepsReads env t p p' e"
proof -
  obtain r where x: "x = (p', r)" using assms(1) by (cases x) (simp add: effect_def)
  have e: "e = (case r of Inl _ \<Rightarrow> False | Inr result \<Rightarrow> effective result)" using assms(1) by (simp add: x effect_def)
  have limits: "mpLimits p' = mpLimits p" using assms(2) by (simp add: confined_def x)
  have "sameReads u p p'" if "u \<noteq> t \<or> \<not> e" for u
  proof (cases "u = t")
    case True
    then show ?thesis
      using that e assms(2-4) by (cases r) (auto simp: confined_def x memorySound_def sameReads_def)
  next
    case False
    then show ?thesis using assms(2) by (auto simp: confined_def x sameReads_def sameTenant_def)
  qed
  then show ?thesis using limits assms(3) memoryCurrent_cong by (auto simp: keepsReads_def memorySound_def)
qed

lemma always_frame: "effect (\<lambda>_. True) x = (p', e) \<Longrightarrow> confined t p x \<Longrightarrow> memorySound p \<Longrightarrow> keepsReads env t p p' e"
  by (rule confined_frame) auto

lemma StageUpdate_reads: "sameReads t p (fst (StageUpdate env ctx t d v at actor p))"
  unfolding StageUpdate_def guardOp_def bindOp_def Let_def audited_def appendAudit_eq
  by (auto simp: sameReads_def split: option.split sum.split)

lemma ApplyScheduled_reads: "snd (ApplyScheduled env ctx t now actor p) = Inr [] \<Longrightarrow> sameReads t p (fst (ApplyScheduled env ctx t now actor p))"
  by (auto simp: ApplyScheduled_def Let_def guardOp_def bindOp_def applyStagesLocked_def commitStages_def sameReads_def
      dest: applyStageLoop_length split: option.splits sum.splits prod.splits if_splits)

lemma Cleanup_reads:
  assumes "snd (Cleanup ctx t options p) = Inr report" "\<not> crDeletedFeatures report > 0"
  shows "sameReads t p (fst (Cleanup ctx t options p))"
  using assms
  by (auto simp: Cleanup_def Let_def guardOp_def sameReads_def filter_empty_conv filter_id_conv
      split: option.splits if_splits)

lemma import_frame:
  assumes "importEffect options (ImportBytes env ctx ctx' t data options actor p) = (p', e)" "memorySound p"
  shows "keepsReads env0 t p p' e"
proof -
  obtain report err where import: "ImportDocument env ctx ctx' t (Import env data (mpLimits p)) options actor p = (p', report, err)"
      and e: "e \<longleftrightarrow> \<not> ioDryRun options \<and> err = None"
    using assms(1) by (auto simp: ImportBytes_def importEffect_def prod_eq_iff)
  have "confinedTo t p p' err"
    using perform_confined [of env ctx t actor "DoImportDocument ctx' (Import env data (mpLimits p)) options" p p' err] import by simp
  moreover have "ioDryRun options \<Longrightarrow> p' = p" using import by (cases rule: ImportDocument_cases) simp_all
  ultimately have "sameReads u p p'" if "u \<noteq> t \<or> \<not> e" for u
    using that e assms(2) by (cases "u = t") (auto simp: confinedTo_def memorySound_def sameReads_def sameTenant_def)
  then show ?thesis using \<open>confinedTo t p p' err\<close> assms(2) memoryCurrent_cong
    by (auto simp: keepsReads_def memorySound_def confinedTo_def)
qed

lemma memory_operation_frame:
  assumes "operation (memoryProvider limits) ok t run" "run p = (p', effective)" "memorySound p"
  shows "keepsReads env t p p' effective"
  using assms
proof (cases rule: operation.cases)
  case (12 c options data actor)
  then show ?thesis using assms(2) import_frame [OF _ assms(3)] by (simp add: memoryProvider_def)
next
  case (13 c d v at actor)
  then have "effect (\<lambda>_. False) (StageUpdate (moEnv c) (moCtx c) t d v at actor p) = (p', effective)"
    using assms(2) by (simp add: memoryProvider_def)
  then show ?thesis by (rule confined_frame [OF _ confined_staged(1) assms(3)]) (rule StageUpdate_reads)
next
  case (15 c now actor)
  then have "effect (\<lambda>results. results \<noteq> []) (ApplyScheduled (moEnv c) (moCtx c) t now actor p) = (p', effective)"
    using assms(2) by (simp add: memoryProvider_def)
  then show ?thesis by (rule confined_frame [OF _ confined_staged(2) assms(3)]) (simp add: ApplyScheduled_reads)
next
  case (16 c cleanup)
  then have "effect (\<lambda>report. crDeletedFeatures report > 0) (Cleanup (moCtx c) t cleanup p) = (p', effective)"
    using assms(2) by (simp add: memoryProvider_def)
  then show ?thesis by (rule confined_frame [OF _ confined_staged(3) assms(3)]) (rule Cleanup_reads)
qed (use assms(2,3) in \<open>simp_all add: memoryProvider_def Activate_def Deactivate_def Delete_def
      always_frame confined_features confined_groups confined_ApplyStage\<close>)

interpretation memory: cache_source "memoryProvider limits" "memoryOk env" memorySound "memoryCurrent env" for limits env
proof unfold_locales
  fix s c t s' reply
  assume "memorySound s" "memoryOk env c" "pvSnapshot (memoryProvider limits) c t s = (s', reply)"
  then show "memorySound s' \<and> memoryCurrent env s' = memoryCurrent env s \<and>
      (\<forall>snapshot. reply = Inr snapshot \<longrightarrow> memoryCurrent env s t snapshot)"
    by (auto simp: memoryProvider_def memoryOk_def memoryCurrent_def MemorySnapshot_def guardErr_Inr providerInput_def
        split: option.splits if_splits)
next
  fix s t run s' effective
  assume "memorySound s" "operation (memoryProvider limits) (memoryOk env) t run" "run s = (s', effective)"
  then show "memorySound s' \<and> (\<forall>u. u \<noteq> t \<or> \<not> effective \<longrightarrow> memoryCurrent env s' u = memoryCurrent env s u)"
    using memory_operation_frame [of limits "memoryOk env" t run s s' effective env] by (simp add: keepsReads_def)
qed (auto simp: memoryProvider_def)

section \<open>Example\<close>

definition exampleCacheConfig :: CacheConfig where
  "exampleCacheConfig = \<lparr> ccHasClock = True, MaxStaleness = 10, MaxOutageStaleness = 60, ccFailurePolicy = FailOpen,
     MaxTenants = 2, MaxTenantBytes = 0, MaxFeaturesPerTenant = 5 \<rparr>"

definition exampleValue :: "(moment, MemoryProvider) dynamicValue" where
  "exampleValue = \<lparr> dvKind = KindPointer, dvIsNil = False, dvProvider = memoryProvider DefaultLimits \<rparr>"

definition exampleCache :: CachedProvider where
  "exampleCache = \<lparr> chConfig = exampleCacheConfig\<lparr> MaxTenantBytes := 256 \<rparr>, chEntries = [], chRefreshes = [], chStates = [] \<rparr>"

definition exampleMoment :: moment where
  "exampleMoment = \<lparr> moCtx = None, moDecoded = None, moEnv = exampleEnv \<rparr>"

definition exampleRefresh :: "(moment, MemoryProvider) refreshCall" where
  "exampleRefresh = \<lparr> rfCtx = None, rfCall = exampleMoment, rfFetched = 100, rfOrder = exampleEnv, rfOrder' = exampleEnv,
     rfAdmitted = id, rfReplied = id, rfPublished = id \<rparr>"

definition exampleRefreshed :: "(MemoryProvider \<times> CachedProvider) \<times> Snapshot res" where
  "exampleRefreshed = Refresh (memoryProvider DefaultLimits) exampleRefresh ''acme'' (exampleProvider, exampleCache)"

lemma exampleCache_new: "NewCachedProvider (Some exampleValue) exampleCacheConfig = Inr exampleCache"
  by (simp add: NewCachedProvider_def exampleValue_def exampleCacheConfig_def exampleCache_def effectiveTenantBytes_def
      nilCacheProvider_def memoryProvider_def MemoryTenantByteLimit_def DefaultLimits_def seqErr_def check_def
      FailOpen_def FailClosed_def)

lemma exampleRefreshed_runs:
  "(cacheStep (memoryProvider DefaultLimits) (memoryOk exampleEnv))\<^sup>*\<^sup>* (initialWorld exampleCache exampleProvider)
     (initialWorld (snd (fst exampleRefreshed)) (fst (fst exampleRefreshed)))"
proof -
  let ?s = "fst (fst exampleRefreshed)" and ?c = "snd (fst exampleRefreshed)"
  have "Refresh (memoryProvider DefaultLimits) exampleRefresh ''acme'' (exampleProvider, exampleCache) =
      ((?s, ?c), snd exampleRefreshed)"
    by (simp add: exampleRefreshed_def)
  from refresh_runs [OF this, where ok = "memoryOk exampleEnv" and w = "initialWorld exampleCache exampleProvider"] show ?thesis
    by (simp add: exampleRefresh_def exampleMoment_def memoryOk_def sameZones_def initialWorld_def)
qed

lemma exampleRefreshed_keys: "map fst (chEntries (snd (fst exampleRefreshed))) = [''acme'']"
  by code_simp

lemma exampleRefreshed_entry: "\<exists>entry. map_of (chEntries (snd (fst exampleRefreshed))) ''acme'' = Some entry"
proof -
  have "''acme'' \<in> fst ` set (chEntries (snd (fst exampleRefreshed)))"
    using exampleRefreshed_keys by (metis list.set_intros(1) list.set_map)
  then show ?thesis by (metis hasKey_def hasKey_iff option.exhaust)
qed

section \<open>Properties\<close>

lemma new_cache:
  assumes "NewCachedProvider provider config = Inr cache"
  shows "chEntries cache = []" "chRefreshes cache = []" "chStates cache = []"
    "0 < MaxTenants config" "MaxTenants (chConfig cache) = MaxTenants config"
  using assms by (auto simp: NewCachedProvider_def guardErr_Inr rbind_eq_Inr seqErr_None_iff)

text \<open>
  C7. Coherence of the cache over the memory provider. Any number of goroutines refresh tenants and mutate them
  through the cache, in any interleaving of the steps of their methods. Whatever the cache then holds for a
  tenant is what a snapshot of the provider would return, unless a mutation of that tenant has succeeded in the
  provider and its method is still about to invalidate. A refresh that read the provider before a mutation can
  therefore never bring the old snapshot back.
\<close>

theorem cached_snapshots_current:
  assumes "NewCachedProvider (Some v) config = Inr cache" "dvProvider v = memoryProvider limits"
    and "0 \<le> MaxAuditEntries (mpLimits p)"
    and "(cacheStep (dvProvider v) (memoryOk env))\<^sup>*\<^sup>* (initialWorld cache p) w"
    and "map_of (chEntries (cwCache w)) t = Some entry" "t \<notin># cwWrites w"
  shows "\<exists>env'. sameZones env env' \<and> MemorySnapshot env' None t (cwSource w) = Inr (csSnapshot entry)"
  using memory.entry_current [of limits env cache p w t entry] assms new_cache [OF assms(1)]
  by (simp add: memoryCurrent_def memorySound_def)

theorem cached_snapshots_current_witness:
  "\<exists>entry. map_of (chEntries (snd (fst exampleRefreshed))) ''acme'' = Some entry \<and>
     (\<exists>env'. sameZones exampleEnv env' \<and> MemorySnapshot env' None ''acme'' (fst (fst exampleRefreshed)) = Inr (csSnapshot entry))"
proof -
  obtain entry where entry: "map_of (chEntries (snd (fst exampleRefreshed))) ''acme'' = Some entry"
    using exampleRefreshed_entry by blast
  have "\<exists>env'. sameZones exampleEnv env' \<and> MemorySnapshot env' None ''acme'' (fst (fst exampleRefreshed)) = Inr (csSnapshot entry)"
    using cached_snapshots_current [OF exampleCache_new, of DefaultLimits exampleProvider exampleEnv
        "initialWorld (snd (fst exampleRefreshed)) (fst (fst exampleRefreshed))" "''acme''" entry] exampleRefreshed_runs entry
    by (simp add: exampleValue_def DefaultLimits_def initialWorld_def)
  then show ?thesis using entry by blast
qed

text \<open>
  C35. An overtaken refresh publishes nothing. A refresh of a tenant is admitted, and later a mutation
  invalidates the tenant, or the cache is closed, or a refresh admitted after the first one publishes. However
  the critical sections of other goroutines are interleaved before, between and after, the publication of the
  first refresh then leaves the cache exactly as it is. The sequence numbers are 64-bit words that never wrap.
\<close>

theorem overtaken_refresh_fenced:
  assumes "NewCachedProvider provider config = Inr cache" "cacheRun cache c0"
    and "beginRefresh t c0 = (c1, a, q)" "cacheRun c1 c2" "overtakes t c2 c3" "cacheRun c3 c4"
  shows "publish env env' t a q entry c4 = c4"
proof (rule superseded_publish)
  have "wfPointers c0"
    using wfPointers_run [OF assms(2)] new_cache [OF assms(1)] by (simp add: wfPointers_def)
  then have "issued t a q c2" using begin_issued [OF assms(3)] issued_run [OF assms(4)] by blast
  then show "superseded t a q c4" using overtaken [OF assms(5)] superseded_run [OF assms(6)] by blast
qed

definition newerEntry :: cachedSnapshot where
  "newerEntry = \<lparr> csSnapshot = exampleSnapshot, csFetched = 7 \<rparr>"

definition fencedCache :: CachedProvider where
  "fencedCache = exampleCache\<lparr> chEntries := [(''acme'', newerEntry)], chRefreshes := [(''acme'', 0)],
     chStates := [\<lparr> crRunning = 2, crNext = 2, crPublished = 2 \<rparr>] \<rparr>"

theorem overtaken_refresh_fenced_witness:
  "publish exampleEnv exampleEnv ''acme'' 0 1 \<lparr> csSnapshot = exampleSnapshot, csFetched = 9 \<rparr> fencedCache = fencedCache"
proof -
  let ?c1 = "exampleCache\<lparr> chRefreshes := [(''acme'', 0)], chStates := [\<lparr> crRunning = 1, crNext = 1, crPublished = 0 \<rparr>] \<rparr>"
  let ?c2 = "exampleCache\<lparr> chRefreshes := [(''acme'', 0)], chStates := [\<lparr> crRunning = 2, crNext = 2, crPublished = 0 \<rparr>] \<rparr>"
  have 1: "beginRefresh ''acme'' exampleCache = (?c1, 0, 1)" by (simp add: beginRefresh_def exampleCache_def)
  have 2: "beginRefresh ''acme'' ?c1 = (?c2, 0, 2)" by (simp add: beginRefresh_def exampleCache_def)
  have 3: "publish exampleEnv exampleEnv ''acme'' 0 2 newerEntry ?c2 = fencedCache"
    by (simp add: publish_def fencedCache_def exampleCache_def exampleCacheConfig_def)
  have "publish exampleEnv exampleEnv ''acme'' 0 2 newerEntry ?c2 \<noteq> ?c2"
    unfolding 3 by (simp add: fencedCache_def exampleCache_def)
  from overtakes_publish [OF 2 rtranclp.rtrancl_refl this] have "overtakes ''acme'' ?c1 fencedCache" by (simp only: 3)
  from overtaken_refresh_fenced [OF exampleCache_new rtranclp.rtrancl_refl 1 rtranclp.rtrancl_refl this rtranclp.rtrancl_refl]
  show ?thesis .
qed

text \<open>
  C36. Bounds of the cache over any provider, in every interleaving: it never holds more than
  \<^verbatim>\<open>MaxTenants\<close> snapshots nor one with more definitions than \<^verbatim>\<open>MaxFeaturesPerTenant\<close>, and it keeps
  publication orders for no more tenants than there are refreshes outstanding, so none once all have returned.
\<close>

theorem cache_bounded:
  assumes "NewCachedProvider provider config = Inr cache" "(cacheStep P ok)\<^sup>*\<^sup>* (initialWorld cache s) w"
  shows "len (chEntries (cwCache w)) \<le> MaxTenants config \<and>
    (\<forall>(t, entry)\<in>set (chEntries (cwCache w)). len (snDefinitions (csSnapshot entry)) \<le> MaxFeaturesPerTenant (chConfig cache)) \<and>
    length (chRefreshes (cwCache w)) \<le> size (cwFlights w)"
proof -
  have "boundedWorld (chConfig cache) (initialWorld cache s)" "accounted cache {#}"
    using new_cache [OF assms(1)]
    by (simp_all add: boundedWorld_def wfEntries_def initialWorld_def accounted_def counted_def owned_def)
  then have "boundedWorld (chConfig cache) w" "accounted (cwCache w) (cwFlights w)"
    using bounded_run [OF assms(2), of "chConfig cache"] accounted_run [OF assms(2)] new_cache [OF assms(1)]
    by (simp_all add: initialWorld_def)
  then show ?thesis
    using new_cache(5) [OF assms(1)] accounted_refreshes by (auto simp: boundedWorld_def wfEntries_def)
qed

theorem cache_bounded_witness:
  "len (chEntries (snd (fst exampleRefreshed))) \<le> 2 \<and> length (chRefreshes (snd (fst exampleRefreshed))) = 0"
  using cache_bounded [OF exampleCache_new exampleRefreshed_runs] by (simp add: initialWorld_def exampleCacheConfig_def)

definition notOlder :: "Time \<Rightarrow> cachedSnapshot \<Rightarrow> Duration \<Rightarrow> bool" where
  "notOlder now entry bound \<longleftrightarrow> now - csFetched entry \<le> bound \<or> bound = maxDuration"

lemma boundedAge_notOlder:
  assumes "boundedAge now (csFetched entry) \<le> bound" "0 \<le> bound" "bound \<le> maxDuration"
  shows "notOlder now entry bound"
  using assms by (auto simp: boundedAge_def timeSub_def notOlder_def min_def max_def split: if_splits)

text \<open>The provider's state when it answers the refresh of a call: other goroutines ran after the read and after the admission.\<close>

definition askedSource :: "('c, 's) snapshotCall \<Rightarrow> string \<Rightarrow> 's \<times> CachedProvider \<Rightarrow> 's" where
  "askedSource call t world =
     (case snRead call world of (s, cache) \<Rightarrow> fst (rfAdmitted (snRefresh call) (s, fst (beginRefresh t cache))))"

lemma Refresh_asked:
  assumes "Refresh P (snRefresh call) t (snRead call world) = (world', Inr snapshot)"
  shows "snd (pvSnapshot P (rfCall (snRefresh call)) t (askedSource call t world)) = Inr snapshot"
  using assms by (auto simp: Refresh_def askedSource_def acceptSnapshot_Inr guardOp_def split: prod.splits option.splits sum.splits)

text \<open>
  C37. The age of an answer. When \<^verbatim>\<open>Snapshot\<close> of the cache returns a snapshot, it is either the provider's reply to
  this very call, or the entry the cache held when the call read it. In the second case the entry was fetched at
  most \<^verbatim>\<open>MaxStaleness\<close> before the clock reading of the call, or the policy is fail-open, the refresh of this call
  failed, and it was fetched at most \<^verbatim>\<open>MaxOutageStaleness\<close> before. Other goroutines may do anything meanwhile. A
  bound of the largest duration means no bound, since ages saturate there.
\<close>

theorem cached_snapshot_age:
  assumes "CachedSnapshot P call t world = (world', Inr snapshot)" "config = chConfig (snd world)"
    and "0 < MaxStaleness config" "MaxStaleness config \<le> MaxOutageStaleness config" "MaxOutageStaleness config \<le> maxDuration"
  shows "snd (pvSnapshot P (rfCall (snRefresh call)) t (askedSource call t world)) = Inr snapshot \<or>
    (\<exists>entry. map_of (chEntries (snd world)) t = Some entry \<and> snapshot = csSnapshot entry \<and>
       (notOlder (snNow call) entry (MaxStaleness config) \<or>
        ccFailurePolicy config = FailOpen \<and> isl (snd (Refresh P (snRefresh call) t (snRead call world))) \<and>
        notOlder (snNow call) entry (MaxOutageStaleness config)))"
proof -
  obtain world'' r where refresh: "Refresh P (snRefresh call) t (snRead call world) = (world'', r)" by fastforce
  have young: "notOlder (snNow call) entry bound"
    if "boundedAge (snNow call) (csFetched entry) \<le> bound" "bound \<in> {MaxStaleness config, MaxOutageStaleness config}" for entry bound
    using that assms(3-5) by (intro boundedAge_notOlder) auto
  show ?thesis
  proof (cases r)
    case (Inl e)
    then show ?thesis
      using assms(1,2) refresh young
      by (auto simp: CachedSnapshot_def guardOp_def Let_def simp del: map_of_eq_Some_iff split: option.splits if_splits)
  next
    case (Inr fetched)
    then show ?thesis
      using assms(1,2) refresh young Refresh_asked [of P call t world world'' fetched]
      by (auto simp: CachedSnapshot_def guardOp_def Let_def simp del: map_of_eq_Some_iff split: option.splits if_splits)
  qed
qed

definition outageCall :: "(moment, MemoryProvider) snapshotCall" where
  "outageCall = \<lparr> snCtx = None, snNow = 50, snRead = id, snRefresh = exampleRefresh\<lparr> rfCtx := Some (ErrContext ''deadline'') \<rparr> \<rparr>"

theorem cached_snapshot_age_witness:
  "snd (CachedSnapshot (memoryProvider DefaultLimits) outageCall ''acme'' (exampleProvider, fencedCache)) = Inr exampleSnapshot \<and>
   (snd (pvSnapshot (memoryProvider DefaultLimits) exampleMoment ''acme'' (askedSource outageCall ''acme'' (exampleProvider, fencedCache)))
      = Inr exampleSnapshot \<or> notOlder 50 newerEntry 60)"
proof -
  have config: "chConfig fencedCache = exampleCacheConfig\<lparr> MaxTenantBytes := 256 \<rparr>" by (simp add: fencedCache_def exampleCache_def)
  have entries: "chEntries fencedCache = [(''acme'', newerEntry)]" by (simp add: fencedCache_def)
  have "CachedSnapshot (memoryProvider DefaultLimits) outageCall ''acme'' (exampleProvider, fencedCache) =
      ((exampleProvider, fencedCache), Inr exampleSnapshot)"
    by (simp add: CachedSnapshot_def Let_def outageCall_def Refresh_def exampleRefresh_def providerInput_def config entries
        exampleCacheConfig_def boundedAge_def timeSub_def minDuration_def maxDuration_def newerEntry_def)
  from cached_snapshot_age [OF this refl] this show ?thesis
    by (auto simp: config exampleCacheConfig_def maxDuration_def outageCall_def exampleRefresh_def notOlder_def newerEntry_def entries)
qed

end
