(* ===== verification/Spec2Isabelle.thy ===== *)
theory Spec2Isabelle
  imports Maintenance_Props Durable_Props Cache_Props
begin

text \<open>Verification of go-feature-flags.\<close>

end
